(* ===== verification/Kit_Prelude.thy ===== *)
theory Kit_Prelude
  imports Complex_Main "HOL-Library.Sublist" "HOL-Library.Char_ord"
begin

text \<open>
  The prelude of the development: Go's \<^verbatim>\<open>error\<close> values, its strings (byte strings, that is
  lists of \<^typ>\<open>char\<close>) with the functions of the packages \<^verbatim>\<open>strings\<close>, \<^verbatim>\<open>strconv\<close> and \<^verbatim>\<open>fmt\<close>
  that the kit calls, and its 64-bit integers.  Case mapping and white space are those of
  ASCII: the kit applies them to header names, path patterns, configuration words and SQL
  keywords.  The separators and patterns the kit passes to \<^verbatim>\<open>Split\<close>, \<^verbatim>\<open>LastIndex\<close> and
  \<^verbatim>\<open>ReplaceAll\<close> are constant, non-empty strings, and \<^verbatim>\<open>Split\<close> and \<^verbatim>\<open>LastIndex\<close> are only
  called with a one-byte separator.
\<close>

named_theorems go_defs \<open>definitions of operations, unfolded in the proofs of their properties\<close>
named_theorems go_str \<open>facts on Go strings\<close>
named_theorems go_inv \<open>preservation of invariants\<close>

section \<open>Errors\<close>

text \<open>
  A Go \<^verbatim>\<open>error\<close> that is not \<^verbatim>\<open>nil\<close>.  \<open>Errorf\<close> is a plain message
  (\<^verbatim>\<open>errors.New\<close>, \<^verbatim>\<open>fmt.Errorf\<close> without \<^verbatim>\<open>%w\<close>), \<open>Wrapf\<close> a message that ends in
  \<^verbatim>\<open>%w\<close> (every \<^verbatim>\<open>%w\<close> of the kit does), \<open>Canceled\<close> and \<open>DeadlineExceeded\<close>
  the errors of a context, and \<open>Sentinel\<close> an exported error variable of a library, compared
  by identity.  \<open>StatusError\<close> is a gRPC status with its code number and message.
\<close>

datatype gerror =
    Errorf string
  | Wrapf string gerror
  | Canceled
  | DeadlineExceeded
  | Sentinel string
  | StatusError nat string

text \<open>A number in base 10.\<close>

fun digits :: "nat \<Rightarrow> string" where
  "digits n = (if n < 10 then [char_of (48 + n)] else digits (n div 10) @ [char_of (48 + n mod 10)])"

declare digits.simps [simp del]

text \<open>\<^verbatim>\<open>codes.Code.String\<close>: the name of a standard code, and the number of another.\<close>

fun code_name :: "nat \<Rightarrow> string" where
  "code_name c =
     (case c of 0 \<Rightarrow> ''OK'' | Suc n \<Rightarrow>
        (let names = [''Canceled'', ''Unknown'', ''InvalidArgument'', ''DeadlineExceeded'', ''NotFound'',
           ''AlreadyExists'', ''PermissionDenied'', ''ResourceExhausted'', ''FailedPrecondition'', ''Aborted'',
           ''OutOfRange'', ''Unimplemented'', ''Internal'', ''Unavailable'', ''DataLoss'', ''Unauthenticated'']
         in if n < length names then names ! n else ''Code('' @ digits c @ '')''))"

declare code_name.simps [simp del]

type_synonym 'a res = "gerror + 'a"

fun err_msg :: "gerror \<Rightarrow> string" where
  "err_msg (Errorf m) = m"
| "err_msg (Wrapf m e) = m @ err_msg e"
| "err_msg Canceled = ''context canceled''"
| "err_msg DeadlineExceeded = ''context deadline exceeded''"
| "err_msg (Sentinel m) = m"
| "err_msg (StatusError c m) = ''rpc error: code = '' @ code_name c @ '' desc = '' @ m"

fun errors_Is :: "gerror \<Rightarrow> gerror \<Rightarrow> bool" where
  "errors_Is (Wrapf m e) t = (Wrapf m e = t \<or> errors_Is e t)"
| "errors_Is e t = (e = t)"

lemma errors_Is_refl [simp]: "errors_Is e e"
  by (cases e) auto

fun is_ok :: "'a res \<Rightarrow> bool" where
  "is_ok (Inr _) = True"
| "is_ok (Inl _) = False"

lemma is_ok_iff: "is_ok r \<longleftrightarrow> (\<exists>x. r = Inr x)"
  by (cases r) auto

definition res_bind :: "'a res \<Rightarrow> ('a \<Rightarrow> 'b res) \<Rightarrow> 'b res" where
  "res_bind r f = (case r of Inl e \<Rightarrow> Inl e | Inr x \<Rightarrow> f x)"

lemma res_bind_simps [simp]:
  "res_bind (Inl e) f = Inl e"
  "res_bind (Inr x) f = f x"
  by (simp_all add: res_bind_def)

lemma res_bind_eq_Inr: "res_bind r f = Inr y \<longleftrightarrow> (\<exists>x. r = Inr x \<and> f x = Inr y)"
  by (cases r) auto

text \<open>A call that may panic instead of returning a value or an error.\<close>

datatype 'a outcome = Returns "'a res" | Panics string

definition out_bind :: "'a outcome \<Rightarrow> ('a \<Rightarrow> 'b outcome) \<Rightarrow> 'b outcome" where
  "out_bind r f = (case r of Panics p \<Rightarrow> Panics p | Returns (Inl e) \<Rightarrow> Returns (Inl e) | Returns (Inr x) \<Rightarrow> f x)"

lemma out_bind_simps [simp]:
  "out_bind (Panics p) f = Panics p"
  "out_bind (Returns (Inl e)) f = Returns (Inl e)"
  "out_bind (Returns (Inr x)) f = f x"
  by (simp_all add: out_bind_def)

lemma out_bind_eq_ok: "out_bind r f = Returns (Inr y) \<longleftrightarrow> (\<exists>x. r = Returns (Inr x) \<and> f x = Returns (Inr y))"
  by (auto simp: out_bind_def split: outcome.splits sum.splits)

text \<open>
  Operations on a state that may fail or panic, and their sequence: the first error or panic ends it, with the state it left.
\<close>

type_synonym ('a, 's) op = "'s \<Rightarrow> 'a outcome \<times> 's"

definition op_bind :: "('a, 's) op \<Rightarrow> ('a \<Rightarrow> ('b, 's) op) \<Rightarrow> ('b, 's) op" where
  "op_bind m f s =
     (case m s of
        (Panics p, s') \<Rightarrow> (Panics p, s')
      | (Returns (Inl e), s') \<Rightarrow> (Returns (Inl e), s')
      | (Returns (Inr x), s') \<Rightarrow> f x s')"

definition op_return :: "'a \<Rightarrow> ('a, 's) op" where
  "op_return x s = (Returns (Inr x), s)"

definition op_fail :: "gerror \<Rightarrow> ('a, 's) op" where
  "op_fail e s = (Returns (Inl e), s)"

text \<open>A call that returns a value and an error, one that returns an error only, one that cannot fail, and one that returns nothing.\<close>

definition op_res :: "('s \<Rightarrow> 'a res \<times> 's) \<Rightarrow> ('a, 's) op" where
  "op_res m s = (case m s of (r, s') \<Rightarrow> (Returns r, s'))"

definition op_err :: "('s \<Rightarrow> gerror option \<times> 's) \<Rightarrow> (unit, 's) op" where
  "op_err m s = (case m s of (None, s') \<Rightarrow> (Returns (Inr ()), s') | (Some e, s') \<Rightarrow> (Returns (Inl e), s'))"

definition op_val :: "('s \<Rightarrow> 'a \<times> 's) \<Rightarrow> ('a, 's) op" where
  "op_val m s = (case m s of (x, s') \<Rightarrow> (Returns (Inr x), s'))"

definition op_do :: "('s \<Rightarrow> 's) \<Rightarrow> (unit, 's) op" where
  "op_do f s = (Returns (Inr ()), f s)"

definition op_when :: "bool \<Rightarrow> (unit, 's) op \<Rightarrow> (unit, 's) op" where
  "op_when b m = (if b then m else op_return ())"

lemma op_simps [simp]:
  "op_bind (op_return x) f = f x"
  "op_bind (op_fail e) f = op_fail e"
  "op_return x s = (Returns (Inr x), s)"
  "op_fail e s = (Returns (Inl e), s)"
  "op_do h s = (Returns (Inr ()), h s)"
  "op_when True m = m"
  "op_when False m = op_return ()"
  by (auto simp: op_bind_def op_return_def op_fail_def op_do_def op_when_def)

lemma op_bind_eq_ok:
  "op_bind m f s = (Returns (Inr y), t) \<longleftrightarrow> (\<exists>x s'. m s = (Returns (Inr x), s') \<and> f x s' = (Returns (Inr y), t))"
  by (auto simp: op_bind_def split: prod.splits outcome.splits sum.splits)

lemma op_bind_eq_panic:
  "op_bind m f s = (Panics p, t) \<longleftrightarrow>
     m s = (Panics p, t) \<or> (\<exists>x s'. m s = (Returns (Inr x), s') \<and> f x s' = (Panics p, t))"
  by (auto simp: op_bind_def split: prod.splits outcome.splits sum.splits)

lemma op_bind_step: "m s = (Returns (Inr x), s') \<Longrightarrow> op_bind m f s = f x s'"
  by (simp add: op_bind_def)

lemma op_bind_keeps:
  assumes "\<And>s. P (snd (m s)) = P s" and "\<And>x s. P (snd (f x s)) = P s"
  shows "P (snd (op_bind m f s)) = P s"
  using assms(1) [of s] assms(2) by (auto simp: op_bind_def split: prod.splits outcome.splits sum.splits)

lemma op_bind_no_panic:
  assumes "\<And>s p t. m s \<noteq> (Panics p, t)" and "\<And>x s p t. f x s \<noteq> (Panics p, t)"
  shows "op_bind m f s \<noteq> (Panics p, t)"
  using assms by (auto simp: op_bind_eq_panic)

lemma op_res_eq [simp]: "op_res m s = (Returns r, t) \<longleftrightarrow> m s = (r, t)"
  by (auto simp: op_res_def split: prod.splits)

lemma op_res_no_panic [simp]: "op_res m s \<noteq> (Panics p, t)"
  by (auto simp: op_res_def split: prod.splits)

lemma op_val_eq [simp]: "op_val m s = (Returns r, t) \<longleftrightarrow> (\<exists>x. r = Inr x \<and> m s = (x, t))"
  by (auto simp: op_val_def split: prod.splits)

lemma op_val_no_panic [simp]: "op_val m s \<noteq> (Panics p, t)"
  by (auto simp: op_val_def split: prod.splits)

lemma op_err_ok [simp]: "op_err m s = (Returns (Inr u), t) \<longleftrightarrow> m s = (None, t)"
  by (auto simp: op_err_def split: prod.splits option.splits)

lemma op_err_no_panic [simp]: "op_err m s \<noteq> (Panics p, t)"
  by (auto simp: op_err_def split: prod.splits option.splits)

lemma op_when_ok: "op_when b m s = (Returns (Inr u), t) \<longleftrightarrow> (if b then m s = (Returns (Inr u), t) else t = s)"
  by (auto simp: op_when_def)

lemma op_when_panic: "op_when b m s = (Panics p, t) \<longleftrightarrow> b \<and> m s = (Panics p, t)"
  by (auto simp: op_when_def)

section \<open>Integers\<close>

text \<open>Go's \<^verbatim>\<open>int\<close> and \<^verbatim>\<open>int64\<close> are 64-bit two's complement integers.\<close>

definition wrap64 :: "int \<Rightarrow> int" where
  "wrap64 x = (x + 2 ^ 63) mod 2 ^ 64 - 2 ^ 63"

definition in_int64 :: "int \<Rightarrow> bool" where
  "in_int64 x \<longleftrightarrow> - (2 ^ 63) \<le> x \<and> x < 2 ^ 63"

lemma wrap64_id [simp]: "in_int64 x \<Longrightarrow> wrap64 x = x"
  by (simp add: wrap64_def in_int64_def)

lemma in_int64_wrap64 [simp]: "in_int64 (wrap64 x)"
  using pos_mod_bound [of "2 ^ 64" "x + 2 ^ 63"] pos_mod_sign [of "2 ^ 64" "x + 2 ^ 63"]
  by (simp add: wrap64_def in_int64_def)

section \<open>Strings\<close>

subsection \<open>ASCII case mapping and white space\<close>

definition lower_char :: "char \<Rightarrow> char" where
  "lower_char c = (let n = (of_char c :: nat) in if 65 \<le> n \<and> n \<le> 90 then char_of (n + 32) else c)"

definition upper_char :: "char \<Rightarrow> char" where
  "upper_char c = (let n = (of_char c :: nat) in if 97 \<le> n \<and> n \<le> 122 then char_of (n - 32) else c)"

definition ToLower :: "string \<Rightarrow> string" where
  "ToLower s = map lower_char s"

definition ToUpper :: "string \<Rightarrow> string" where
  "ToUpper s = map upper_char s"

definition is_space :: "char \<Rightarrow> bool" where
  "is_space c = (let n = (of_char c :: nat) in n = 32 \<or> (9 \<le> n \<and> n \<le> 13))"

definition is_alnum :: "char \<Rightarrow> bool" where
  "is_alnum c = (let n = (of_char c :: nat)
     in (48 \<le> n \<and> n \<le> 57) \<or> (65 \<le> n \<and> n \<le> 90) \<or> (97 \<le> n \<and> n \<le> 122))"

text \<open>The class \<^verbatim>\<open>\w\<close> of Go's regular expressions.\<close>

definition is_word :: "char \<Rightarrow> bool" where
  "is_word c = (is_alnum c \<or> c = CHR ''_'')"

text \<open>The class \<^verbatim>\<open>\s\<close> of Go's regular expressions (no vertical tab, unlike \<^verbatim>\<open>TrimSpace\<close>).\<close>

definition is_re_space :: "char \<Rightarrow> bool" where
  "is_re_space c = (let n = (of_char c :: nat) in n = 32 \<or> n = 9 \<or> n = 10 \<or> n = 12 \<or> n = 13)"

lemma of_char_less [simp]: "(of_char c :: nat) < 256"
  by (cases c) (simp add: of_char_def horner_sum_simps split: if_splits)

lemma lower_char_idem [simp]: "lower_char (lower_char c) = lower_char c"
  by (simp add: lower_char_def Let_def)

lemma upper_char_idem [simp]: "upper_char (upper_char c) = upper_char c"
  using of_char_less [of c] by (auto simp: upper_char_def Let_def)

lemma ToLower_idem [simp]: "ToLower (ToLower s) = ToLower s"
  by (simp add: ToLower_def)

lemma ToUpper_idem [simp]: "ToUpper (ToUpper s) = ToUpper s"
  by (simp add: ToUpper_def)

lemma length_ToLower [simp]: "length (ToLower s) = length s"
  by (simp add: ToLower_def)

lemma length_ToUpper [simp]: "length (ToUpper s) = length s"
  by (simp add: ToUpper_def)

lemma ToLower_append [simp]: "ToLower (s @ t) = ToLower s @ ToLower t"
  by (simp add: ToLower_def)

lemma ToLower_Nil [simp]: "ToLower [] = []"
  by (simp add: ToLower_def)

lemma ToLower_eq_Nil [simp]: "ToLower s = [] \<longleftrightarrow> s = []"
  by (simp add: ToLower_def)

subsection \<open>Split and Join\<close>

fun Split :: "string \<Rightarrow> char \<Rightarrow> string list" where
  "Split [] c = [[]]"
| "Split (x # xs) c =
     (if x = c then [] # Split xs c
      else case Split xs c of [] \<Rightarrow> [[x]] | p # ps \<Rightarrow> (x # p) # ps)"

fun Join :: "string list \<Rightarrow> string \<Rightarrow> string" where
  "Join [] sep = []"
| "Join [x] sep = x"
| "Join (x # y # zs) sep = x @ sep @ Join (y # zs) sep"

lemma Split_not_Nil [simp]: "Split s c \<noteq> []"
  by (induction s) (auto split: list.splits)

lemma Join_Cons: "xs \<noteq> [] \<Longrightarrow> Join (x # xs) sep = x @ sep @ Join xs sep"
  by (cases xs) auto

lemma Join_Split [simp]: "Join (Split s c) [c] = s"
proof (induction s)
  case (Cons x xs)
  then show ?case
    by (cases "Split xs c"; cases "tl (Split xs c)") (auto simp: Join_Cons)
qed simp

lemma Split_parts_no_sep: "p \<in> set (Split s c) \<Longrightarrow> c \<notin> set p"
  by (induction s arbitrary: p) (auto split: if_splits list.splits)

lemma Split_no_sep: "c \<notin> set s \<Longrightarrow> Split s c = [s]"
  by (induction s) auto

lemma Split_append_sep: "c \<notin> set s \<Longrightarrow> Split (s @ c # t) c = s # Split t c"
  by (induction s) auto

lemma Split_Join:
  assumes "xs \<noteq> []" "\<forall>x \<in> set xs. c \<notin> set x"
  shows "Split (Join xs [c]) c = xs"
  using assms
proof (induction xs)
  case (Cons x xs)
  then show ?case
    by (cases "xs = []") (simp_all add: Split_no_sep Join_Cons Split_append_sep)
qed simp

lemma set_Join_part: "p \<in> set xs \<Longrightarrow> set p \<subseteq> set (Join xs sep)"
proof (induction xs)
  case (Cons x xs)
  then show ?case by (cases xs) auto
qed simp

lemma Join_empty_sep: "Join xs [] = concat xs"
proof (induction xs)
  case (Cons x xs)
  then show ?case by (cases xs) auto
qed simp

lemma Join_inj:
  assumes "xs \<noteq> []" "ys \<noteq> []" "\<forall>x \<in> set xs. c \<notin> set x" "\<forall>y \<in> set ys. c \<notin> set y"
    and "Join xs [c] = Join ys [c]"
  shows "xs = ys"
  using assms by (metis Split_Join)

subsection \<open>Prefixes, suffixes, substrings\<close>

definition HasPrefix :: "string \<Rightarrow> string \<Rightarrow> bool" where
  "HasPrefix s p = (take (length p) s = p)"

definition HasSuffix :: "string \<Rightarrow> string \<Rightarrow> bool" where
  "HasSuffix s p = (length p \<le> length s \<and> drop (length s - length p) s = p)"

definition TrimPrefix :: "string \<Rightarrow> string \<Rightarrow> string" where
  "TrimPrefix s p = (if HasPrefix s p then drop (length p) s else s)"

definition TrimSuffix :: "string \<Rightarrow> string \<Rightarrow> string" where
  "TrimSuffix s p = (if HasSuffix s p then take (length s - length p) s else s)"

fun Contains :: "string \<Rightarrow> string \<Rightarrow> bool" where
  "Contains [] p = (p = [])"
| "Contains (c # cs) p = (HasPrefix (c # cs) p \<or> Contains cs p)"

definition TrimSpace :: "string \<Rightarrow> string" where
  "TrimSpace s = rev (dropWhile is_space (rev (dropWhile is_space s)))"

lemma HasPrefix_iff: "HasPrefix s p \<longleftrightarrow> (\<exists>t. s = p @ t)"
  by (metis HasPrefix_def append_eq_conv_conj append_take_drop_id)

lemma HasPrefix_append [simp]: "HasPrefix (p @ t) p"
  by (simp add: HasPrefix_def)

lemma HasPrefix_Nil [simp]: "HasPrefix s []"
  by (simp add: HasPrefix_def)

lemma HasSuffix_iff: "HasSuffix s p \<longleftrightarrow> (\<exists>t. s = t @ p)"
  by (auto simp: HasSuffix_def intro: exI [of _ "take (length s - length p) s"])
     (metis append_take_drop_id)

lemma HasSuffix_append [simp]: "HasSuffix (t @ p) p"
  by (simp add: HasSuffix_def)

lemma Contains_iff: "Contains s p \<longleftrightarrow> (\<exists>a b. s = a @ p @ b)"
proof (induction s)
  case (Cons c cs)
  show ?case
    unfolding Contains.simps Cons HasPrefix_iff
    by (metis append_Cons append_Nil append_eq_Cons_conv)
qed auto

lemma Contains_Nil [simp]: "Contains s []"
  by (cases s) simp_all

lemma Contains_refl [simp]: "Contains s s"
  by (metis Contains_iff append_Nil append_Nil2)

lemma Contains_trans: "Contains s t \<Longrightarrow> Contains t u \<Longrightarrow> Contains s u"
  by (metis (no_types, lifting) Contains_iff append.assoc)

lemma TrimSuffix_append [simp]: "TrimSuffix (t @ p) p = t"
  by (simp add: TrimSuffix_def)

lemma TrimPrefix_append [simp]: "TrimPrefix (p @ t) p = t"
  by (simp add: TrimPrefix_def)

lemma set_TrimSpace: "set (TrimSpace s) \<subseteq> set s"
proof -
  have "set (dropWhile P (rev (dropWhile Q s))) \<subseteq> set s" for P Q :: "char \<Rightarrow> bool"
    by (auto dest!: set_dropWhileD)
  then show ?thesis by (simp add: TrimSpace_def)
qed

text \<open>\<^verbatim>\<open>strings.LastIndex\<close> of a one-byte string: \<open>-1\<close> when it does not occur.\<close>

fun LastIndex :: "string \<Rightarrow> char \<Rightarrow> int" where
  "LastIndex [] c = -1"
| "LastIndex (x # xs) c =
     (let i = LastIndex xs c in if i \<noteq> -1 then i + 1 else if x = c then 0 else -1)"

lemma LastIndex_ge: "LastIndex s c \<ge> -1"
  by (induction s) (auto simp: Let_def)

lemma LastIndex_none_iff: "LastIndex s c = -1 \<longleftrightarrow> c \<notin> set s"
proof (induction s)
  case (Cons x xs)
  then show ?case using LastIndex_ge [of xs c] by (auto simp: Let_def)
qed simp

lemma LastIndex_append: "c \<notin> set t \<Longrightarrow> LastIndex (s @ c # t) c = int (length s)"
  by (induction s) (auto simp: Let_def LastIndex_none_iff [THEN iffD2])

subsection \<open>ReplaceAll\<close>

function ReplaceAll :: "string \<Rightarrow> string \<Rightarrow> string \<Rightarrow> string" where
  "ReplaceAll [] old new = []"
| "ReplaceAll (c # cs) old new =
     (if old \<noteq> [] \<and> HasPrefix (c # cs) old
      then new @ ReplaceAll (drop (length old) (c # cs)) old new
      else c # ReplaceAll cs old new)"
  by pat_completeness auto
termination
  by (relation "measure (\<lambda>(s, old, new). length s)") auto

lemma ReplaceAll_absent: "old \<noteq> [] \<Longrightarrow> \<not> Contains s old \<Longrightarrow> ReplaceAll s old new = s"
  by (induction s) auto

lemma ReplaceAll_char:
  "ReplaceAll s [a] [b] = map (\<lambda>x. if x = a then b else x) s"
  by (induction s) (auto simp: HasPrefix_def)

subsection \<open>Decimal numerals\<close>

definition Itoa :: "int \<Rightarrow> string" where
  "Itoa i = (if i < 0 then CHR ''-'' # digits (nat (- i)) else digits (nat i))"

lemma digit_chars [go_str]:
  "char_of (48::nat) = CHR ''0''" "char_of (49::nat) = CHR ''1''" "char_of (50::nat) = CHR ''2''"
  "char_of (51::nat) = CHR ''3''" "char_of (52::nat) = CHR ''4''" "char_of (53::nat) = CHR ''5''"
  "char_of (54::nat) = CHR ''6''" "char_of (55::nat) = CHR ''7''" "char_of (56::nat) = CHR ''8''"
  "char_of (57::nat) = CHR ''9''"
  by code_simp+

fun undigits :: "string \<Rightarrow> nat" where
  "undigits s = foldl (\<lambda>a c. 10 * a + (of_char c - 48)) 0 s"

declare undigits.simps [simp del]

lemma undigits_snoc: "undigits (s @ [c]) = 10 * undigits s + (of_char c - 48)"
  by (simp add: undigits.simps)

lemma undigits_digits [simp]: "undigits (digits n) = n"
proof (induction n rule: digits.induct)
  case (1 n)
  show ?case
  proof (cases "n < 10")
    case True
    then show ?thesis by (simp add: digits.simps [of n] undigits.simps)
  next
    case False
    then have "undigits (digits n) = 10 * (n div 10) + n mod 10"
      using 1 by (simp add: digits.simps [of n] undigits_snoc)
    then show ?thesis by simp
  qed
qed

lemma digits_inj [simp]: "digits m = digits n \<longleftrightarrow> m = n"
  by (metis undigits_digits)

lemma digits_char: "c \<in> set (digits n) \<Longrightarrow> 48 \<le> (of_char c :: nat) \<and> (of_char c :: nat) \<le> 57"
proof (induction n rule: digits.induct)
  case (1 n)
  then show ?case
    by (cases "n < 10") (auto simp: digits.simps [of n])
qed

lemma digits_not_Nil [simp]: "digits n \<noteq> []"
  by (subst digits.simps) simp

lemma minus_notin_digits [simp]: "CHR ''-'' \<notin> set (digits n)" and colon_notin_digits [simp]: "CHR '':'' \<notin> set (digits n)"
  using digits_char [of "CHR ''-''" n] digits_char [of "CHR '':''" n] by auto

lemma Itoa_inj [simp]: "Itoa i = Itoa j \<longleftrightarrow> i = j"
proof -
  have "hd (digits n) \<noteq> CHR ''-''" for n
    by (metis digits_not_Nil hd_in_set minus_notin_digits)
  then have "CHR ''-'' # s \<noteq> digits n" for s n
    by (metis list.sel(1))
  then show ?thesis
    by (auto simp: Itoa_def dest: sym)
qed

section \<open>Lists\<close>

text \<open>The first element that satisfies a predicate: a \<^verbatim>\<open>for ... range\<close> loop with \<^verbatim>\<open>break\<close>.\<close>

lemma length_remove1_Suc: "x \<in> set xs \<Longrightarrow> length xs = Suc (length (remove1 x xs))"
  by (induction xs) auto

lemma find_Some_split:
  assumes "find P xs = Some x"
  shows "\<exists>ys zs. xs = ys @ x # zs \<and> P x \<and> (\<forall>y \<in> set ys. \<not> P y)"
  using assms
proof (induction xs)
  case (Cons a xs)
  show ?case
  proof (cases "P a")
    case True
    with Cons.prems have "a # xs = [] @ x # xs" "P x" by simp_all
    then show ?thesis by (metis empty_iff empty_set)
  next
    case False
    with Cons obtain ys zs where "xs = ys @ x # zs" "P x" "\<forall>y \<in> set ys. \<not> P y" by auto
    with False have "a # xs = (a # ys) @ x # zs" "\<forall>y \<in> set (a # ys). \<not> P y" by simp_all
    with \<open>P x\<close> show ?thesis by blast
  qed
qed simp

end
