(* ===== verification/Go_Time.thy ===== *)
theory Go_Time
  imports Kit_Prelude "HOL-Library.Log_Nat" "HOL-Library.Signed_Division"
begin

text \<open>
  Go's \<^verbatim>\<open>float64\<close> arithmetic and the clock.  A \<^verbatim>\<open>float64\<close> is the rational number it denotes;
  each operation is the exact one followed by \<open>fl64\<close>, IEEE 754 rounding to 53 significant
  bits, ties to even.  The kit's floating-point values are rates per second and seconds
  since the last refill, which stay far inside the normal range, so no overflow to infinity
  and no subnormal number is modelled.  Times are nanoseconds; \<^verbatim>\<open>time.Now\<close> reads the next
  value of a clock.
\<close>

section \<open>Rounding to 53 bits\<close>

definition ilog2 :: "rat \<Rightarrow> int" where
  "ilog2 x = (let pq = quotient_of x; k = bitlen (fst pq) - bitlen (snd pq)
     in if 2 powi k \<le> x then k else k - 1)"

definition rne :: "rat \<Rightarrow> int" where
  "rne y = (let f = \<lfloor>y\<rfloor>; d = y - of_int f
     in if d < 1 / 2 then f else if d > 1 / 2 then f + 1 else if even f then f else f + 1)"

definition fl64 :: "rat \<Rightarrow> rat" where
  "fl64 x = (if x = 0 then 0
     else let u = 2 powi (ilog2 \<bar>x\<bar> - 52) in of_int (rne (x / u)) * u)"

definition eps64 :: rat where
  "eps64 = 1 / 2 ^ 53"

lemma eps64_pos: "0 < eps64" and eps64_le: "eps64 \<le> 1 / 2"
  by (simp_all add: eps64_def)

lemma rne_err: "\<bar>of_int (rne y) - y\<bar> \<le> 1 / 2"
  using floor_correct [of y] by (auto simp: rne_def Let_def abs_le_iff)

lemma rne_of_int [simp]: "rne (of_int n) = n"
  by (simp add: rne_def)

lemma bitlen_powi:
  assumes "0 < n"
  shows "(2::rat) powi (bitlen n - 1) \<le> of_int n \<and> of_int n < (2::rat) powi (bitlen n)"
proof -
  from assms have 1: "1 \<le> bitlen n" by (simp add: bitlen_def floorlog_def)
  have "of_int (2 ^ nat (bitlen n - 1)) \<le> (of_int n :: rat)" "(of_int n :: rat) < of_int (2 ^ nat (bitlen n))"
    using bitlen_bounds [OF assms] by (simp_all only: of_int_le_iff of_int_less_iff)
  with 1 show ?thesis by (simp add: power_int_def)
qed

lemma ilog2_bounds:
  assumes "0 < x"
  shows "2 powi ilog2 x \<le> x \<and> x < 2 powi (ilog2 x + 1)"
proof -
  obtain p q where pq: "quotient_of x = (p, q)" by force
  have q: "0 < q" using pq quotient_of_denom_pos by blast
  have x: "x = of_int p / of_int q" using pq quotient_of_div by blast
  with assms q have p: "0 < p" by (simp add: zero_less_divide_iff)
  define k where "k = bitlen p - bitlen q"
  have P: "2 powi (bitlen p - 1) \<le> (of_int p :: rat)" "(of_int p :: rat) < 2 powi (bitlen p)"
    and Q: "2 powi (bitlen q - 1) \<le> (of_int q :: rat)" "(of_int q :: rat) < 2 powi (bitlen q)"
    using bitlen_powi [OF p] bitlen_powi [OF q] by auto
  have q': "0 < (of_int q :: rat)" using q by simp
  have "x < 2 powi (bitlen p) / 2 powi (bitlen q - 1)"
    unfolding x using P(2) Q(1) p by (intro frac_less) simp_all
  also have "\<dots> = 2 powi (k + 1)"
    by (simp add: k_def power_int_diff [symmetric] algebra_simps)
  finally have hi: "x < 2 powi (k + 1)" .
  have "2 powi (bitlen p - 1) / 2 powi (bitlen q) \<le> x"
    unfolding x using P(1) Q(2) p q' by (intro frac_le) simp_all
  then have lo: "2 powi (k - 1) \<le> x"
    by (simp add: k_def power_int_diff [symmetric] algebra_simps)
  show ?thesis
    using hi lo by (simp add: ilog2_def pq Let_def k_def [symmetric])
qed

lemma fl64_0 [simp]: "fl64 0 = 0"
  by (simp add: fl64_def)

lemma fl64_err: "\<bar>fl64 x - x\<bar> \<le> eps64 * \<bar>x\<bar>"
proof (cases "x = 0")
  case False
  define e where "e = ilog2 \<bar>x\<bar>"
  define u :: rat where "u = 2 powi (e - 52)"
  have u: "0 < u" by (simp add: u_def)
  have "\<bar>fl64 x - x\<bar> = \<bar>of_int (rne (x / u)) - x / u\<bar> * u"
  proof -
    have "fl64 x - x = (of_int (rne (x / u)) - x / u) * u"
      using False u by (simp add: fl64_def Let_def e_def [symmetric] u_def [symmetric] algebra_simps)
    then show ?thesis using u by (simp add: abs_mult)
  qed
  also have "\<dots> \<le> 1 / 2 * u"
    using rne_err [of "x / u"] u by (intro mult_right_mono) auto
  also have "\<dots> = eps64 * 2 powi e"
    by (simp add: u_def eps64_def power_int_diff)
  also have "\<dots> \<le> eps64 * \<bar>x\<bar>"
    using ilog2_bounds [of "\<bar>x\<bar>"] False eps64_pos by (intro mult_left_mono) (auto simp: e_def)
  finally show ?thesis .
qed simp

lemma fl64_upper: "0 \<le> x \<Longrightarrow> fl64 x \<le> (1 + eps64) * x"
  using fl64_err [of x] by (simp add: algebra_simps abs_le_iff)

lemma fl64_lower: "0 \<le> x \<Longrightarrow> (1 - eps64) * x \<le> fl64 x"
  using fl64_err [of x] by (simp add: algebra_simps abs_le_iff)

lemma fl64_nonneg [simp]: "0 \<le> x \<Longrightarrow> 0 \<le> fl64 x"
proof -
  assume x: "0 \<le> x"
  have "0 \<le> (1 - eps64) * x" using x eps64_le by simp
  with fl64_lower [OF x] show ?thesis by linarith
qed

text \<open>Integers of at most 53 bits are represented exactly.\<close>

lemma fl64_of_int:
  assumes "\<bar>n\<bar> < 2 ^ 53"
  shows "fl64 (of_int n) = of_int n"
proof (cases "n = 0")
  case False
  define e where "e = ilog2 \<bar>of_int n\<bar>"
  have b: "2 powi e \<le> (of_int \<bar>n\<bar> :: rat)"
    using ilog2_bounds [of "\<bar>of_int n\<bar>"] False by (simp add: e_def)
  have "e < 53"
  proof (rule ccontr)
    assume "\<not> e < 53"
    then have "(2::rat) powi 53 \<le> 2 powi e" by (intro power_int_increasing) simp_all
    with b have "(2::rat) ^ 53 \<le> of_int \<bar>n\<bar>" by simp
    then have "(of_int (2 ^ 53) :: rat) \<le> of_int \<bar>n\<bar>" by simp
    then have "2 ^ 53 \<le> \<bar>n\<bar>" by (simp only: of_int_le_iff)
    with assms show False by simp
  qed
  then have u: "(2::rat) powi (e - 52) = 1 / 2 ^ nat (52 - e)"
    by (simp add: power_int_def inverse_eq_divide power_one_over)
  have "rne (of_int n / (2 powi (e - 52))) = n * 2 ^ nat (52 - e)"
    using rne_of_int [of "n * 2 ^ nat (52 - e)"] by (simp add: u)
  then show ?thesis
    using False by (simp add: fl64_def Let_def e_def [symmetric] u)
qed simp

section \<open>Durations, conversions and the clock\<close>

type_synonym nanos = int

definition max_duration :: int where
  "max_duration = 2 ^ 63 - 1"

text \<open>\<^verbatim>\<open>time.Time.Sub\<close>: the difference, saturated to a 64-bit number of nanoseconds.\<close>

definition time_Sub :: "nanos \<Rightarrow> nanos \<Rightarrow> int" where
  "time_Sub t u = max (- (2 ^ 63)) (min max_duration (t - u))"

text \<open>\<^verbatim>\<open>time.Duration.Seconds\<close>.\<close>

definition duration_Seconds :: "int \<Rightarrow> rat" where
  "duration_Seconds d =
     fl64 (fl64 (of_int (d sdiv 1000000000)) + fl64 (fl64 (of_int (d smod 1000000000)) / 1000000000))"

text \<open>
  Conversion of a \<^verbatim>\<open>float64\<close> to \<^verbatim>\<open>int\<close> truncates towards zero.  The language leaves the
  result of an out-of-range conversion to the implementation: \<open>oob\<close>.
\<close>

definition rat_trunc :: "rat \<Rightarrow> int" where
  "rat_trunc x = (if 0 \<le> x then \<lfloor>x\<rfloor> else \<lceil>x\<rceil>)"

definition float_to_int :: "(rat \<Rightarrow> int) \<Rightarrow> rat \<Rightarrow> int" where
  "float_to_int oob x = (if in_int64 (rat_trunc x) then rat_trunc x else oob x)"

record clock =
  ticks :: "nat \<Rightarrow> nanos"
  pos :: nat

definition time_Now :: "clock \<Rightarrow> nanos \<times> clock" where
  "time_Now c = (ticks c (pos c), c\<lparr>pos := Suc (pos c)\<rparr>)"

definition clock_mono :: "clock \<Rightarrow> bool" where
  "clock_mono c \<longleftrightarrow> mono (ticks c)"

lemma time_Sub_bounds: "u \<le> t \<Longrightarrow> 0 \<le> time_Sub t u \<and> time_Sub t u \<le> t - u \<and> time_Sub t u \<le> max_duration"
  by (auto simp: time_Sub_def max_duration_def)

lemma time_Sub_exact: "in_int64 (t - u) \<Longrightarrow> time_Sub t u = t - u"
  by (auto simp: time_Sub_def max_duration_def in_int64_def)

lemma duration_Seconds_nonneg [simp]: "0 \<le> d \<Longrightarrow> 0 \<le> duration_Seconds d"
  by (simp add: duration_Seconds_def signed_divide_int_def signed_modulo_int_def sgn_if)

text \<open>A whole number of seconds is converted exactly.\<close>

lemma duration_Seconds_whole:
  assumes "0 \<le> n" "n < 2 ^ 53"
  shows "duration_Seconds (n * 1000000000) = of_int n"
  using assms
  by (simp add: duration_Seconds_def signed_divide_int_def signed_modulo_int_def sgn_if fl64_of_int)

text \<open>Up to the relative error of the rounded operations, \<open>duration_Seconds\<close> is \<open>d / 10\<^sup>9\<close>.\<close>

lemma duration_Seconds_upper:
  assumes "0 \<le> d" "d \<le> max_duration"
  shows "duration_Seconds d \<le> (1 + eps64) ^ 2 * (of_int d / 1000000000)"
proof -
  define s n where "s = d div 1000000000" and "n = d mod 1000000000"
  have d: "d = 1000000000 * s + n" by (simp add: s_def n_def)
  have sn: "d sdiv 1000000000 = s" "d smod 1000000000 = n"
    using assms(1) by (auto simp: s_def n_def signed_divide_int_def signed_modulo_int_def sgn_if minus_mult_div_eq_mod)
  have s: "0 \<le> s" "s < 2 ^ 53" using assms by (simp_all add: s_def max_duration_def)
  have n: "0 \<le> n" "n < 2 ^ 53"
    using pos_mod_bound [of 1000000000 d] by (simp_all add: n_def)
  have fs: "fl64 (of_int s) = of_int s" "fl64 (of_int n) = of_int n"
    using s n by (simp_all add: fl64_of_int)
  define f where "f = fl64 (of_int n / 1000000000)"
  have f: "0 \<le> f" "f \<le> (1 + eps64) * (of_int n / 1000000000)"
    using n fl64_upper [of "of_int n / 1000000000"] by (simp_all add: f_def)
  have "of_int s + f \<le> (1 + eps64) * (of_int s + of_int n / 1000000000)"
  proof -
    have "0 \<le> eps64 * of_int s" using s eps64_pos by simp
    moreover have "(1 + eps64) * (of_int s + y) = of_int s + eps64 * of_int s + (1 + eps64) * y" for y
      by (simp add: algebra_simps)
    ultimately show ?thesis using f(2) by simp
  qed
  moreover have "of_int s + of_int n / 1000000000 = (of_int d / 1000000000 :: rat)"
    by (simp add: d)
  ultimately have b: "of_int s + f \<le> (1 + eps64) * (of_int d / 1000000000)" by simp
  have "duration_Seconds d = fl64 (of_int s + f)"
    by (simp add: duration_Seconds_def sn fs f_def)
  also have "\<dots> \<le> (1 + eps64) * (of_int s + f)"
    using s f by (intro fl64_upper) simp
  also have "\<dots> \<le> (1 + eps64) * ((1 + eps64) * (of_int d / 1000000000))"
    using b eps64_pos by (intro mult_left_mono) simp_all
  finally show ?thesis by (simp add: power2_eq_square mult.assoc)
qed

lemma rat_trunc_le: "0 \<le> x \<Longrightarrow> of_int (rat_trunc x) \<le> x"
  by (simp add: rat_trunc_def)

lemma rat_trunc_nonneg: "0 \<le> x \<Longrightarrow> 0 \<le> rat_trunc x"
  by (simp add: rat_trunc_def)

lemma float_to_int_small:
  assumes "0 \<le> x" "x < 2 ^ 63"
  shows "float_to_int oob x = \<lfloor>x\<rfloor>"
proof -
  have "\<lfloor>x\<rfloor> < 2 ^ 63" using assms(2) by (simp add: floor_less_iff)
  then show ?thesis using assms(1)
    by (simp add: float_to_int_def rat_trunc_def in_int64_def order_trans [of "- (2 ^ 63)" 0])
qed

lemma time_Now_simps [simp]:
  "fst (time_Now c) = ticks c (pos c)"
  "ticks (snd (time_Now c)) = ticks c"
  "pos (snd (time_Now c)) = Suc (pos c)"
  by (simp_all add: time_Now_def)

end
