(* ===== verification/Token_Bucket.thy ===== *)
theory Token_Bucket
  imports Go_Time
begin

text \<open>
  The token bucket of \<^verbatim>\<open>ratelimit/grpc.go\<close>.  \<open>Take_at\<close> is the critical section of
  \<^verbatim>\<open>TokenBucket.Take\<close> for the time it read, \<open>Take\<close> the whole method; the mutex makes
  the calls on one bucket a sequence of such steps.  The interface locale \<open>metered\<close> states
  what a rate-limited resource promises (an accepted request is paid for by credit that
  accrues with time) and bounds the accepted requests of any run; it is interpreted here on
  \<open>Take_at\<close> and in \<open>Rate_Limit\<close> on a level of the multi-level limiter.
\<close>

section \<open>Metered resources\<close>

text \<open>A run of a resource on a sequence of requests: the answers and the last state.\<close>

fun run_requests :: "('s \<Rightarrow> 'i \<Rightarrow> bool \<times> 's) \<Rightarrow> 's \<Rightarrow> 'i list \<Rightarrow> bool list \<times> 's" where
  "run_requests f s [] = ([], s)"
| "run_requests f s (i # is) =
     (let (b, s') = f s i; (bs, s'') = run_requests f s' is in (b # bs, s''))"

definition accepted :: "bool list \<Rightarrow> nat" where
  "accepted bs = length (filter id bs)"

lemma accepted_simps [simp]:
  "accepted [] = 0"
  "accepted (b # bs) = of_bool b + accepted bs"
  by (simp_all add: accepted_def)

text \<open>
  Each request takes a span of time, from its first to its last reading of the clock.  The spans follow
  each other, none before \<open>t\<close>; \<open>end_of t spans\<close> is where the last one ends.
\<close>

fun ordered_from :: "int \<Rightarrow> (int \<times> int) list \<Rightarrow> bool" where
  "ordered_from t [] = True"
| "ordered_from t ((a, b) # sp) = (t \<le> a \<and> a \<le> b \<and> ordered_from b sp)"

fun end_of :: "int \<Rightarrow> (int \<times> int) list \<Rightarrow> int" where
  "end_of t [] = t"
| "end_of t ((a, b) # sp) = end_of b sp"

lemma ordered_from_mono: "ordered_from t sp \<Longrightarrow> t' \<le> t \<Longrightarrow> ordered_from t' sp"
  by (cases sp) auto

lemma end_of_mono: "ordered_from t sp \<Longrightarrow> t' \<le> t \<Longrightarrow> end_of t' sp \<le> end_of t sp"
  by (cases sp) auto

lemma ordered_from_points: "ordered_from t (map (\<lambda>u. (u, u)) ts) \<longleftrightarrow> sorted (t # ts)"
  by (induction ts arbitrary: t) auto

lemma end_of_points: "end_of t (map (\<lambda>u. (u, u)) ts) = last (t # ts)"
  by (induction ts arbitrary: t) auto

locale metered =
  fixes req :: "'s \<Rightarrow> 'i \<Rightarrow> bool \<times> 's"
    and span :: "'i \<Rightarrow> int \<times> int"
    and inv :: "'s \<Rightarrow> bool"
    and since :: "'s \<Rightarrow> int"
    and credit :: "'s \<Rightarrow> rat"
    and gain :: "'s \<Rightarrow> rat"
  assumes inv_req: "inv s \<Longrightarrow> span i = (a, b) \<Longrightarrow> since s \<le> a \<Longrightarrow> a \<le> b \<Longrightarrow> inv (snd (req s i))"
    and since_req: "inv s \<Longrightarrow> span i = (a, b) \<Longrightarrow> since s \<le> a \<Longrightarrow> a \<le> b \<Longrightarrow>
      since s \<le> since (snd (req s i)) \<and> since (snd (req s i)) \<le> b"
    and credit_nonneg: "inv s \<Longrightarrow> 0 \<le> credit s"
    and gain_nonneg: "inv s \<Longrightarrow> 0 \<le> gain s"
    and gain_req: "gain (snd (req s i)) = gain s"
    and pay: "inv s \<Longrightarrow> span i = (a, b) \<Longrightarrow> since s \<le> a \<Longrightarrow> a \<le> b \<Longrightarrow>
      of_bool (fst (req s i)) + credit (snd (req s i))
        \<le> credit s + gain s * of_int (since (snd (req s i)) - since s)"
begin

lemma run_budget:
  "inv s \<Longrightarrow> ordered_from (since s) (map span is) \<Longrightarrow>
   inv (snd (run_requests req s is)) \<and>
   of_nat (accepted (fst (run_requests req s is))) + credit (snd (run_requests req s is))
     \<le> credit s + gain s * of_int (since (snd (run_requests req s is)) - since s) \<and>
   since (snd (run_requests req s is)) \<le> end_of (since s) (map span is)"
proof (induction "is" arbitrary: s)
  case (Cons i "is")
  obtain a b where ab: "span i = (a, b)" by force
  with Cons.prems have le: "since s \<le> a" "a \<le> b" and ord: "ordered_from b (map span is)" by auto
  define s' where "s' = snd (req s i)"
  define r where "r = run_requests req s' is"
  have inv': "inv s'" using inv_req [OF Cons.prems(1) ab le] by (simp add: s'_def)
  have since': "since s' \<le> b"
    using since_req [OF Cons.prems(1) ab le] by (simp add: s'_def)
  have tf: "ordered_from (since s') (map span is)" using ord since' by (rule ordered_from_mono)
  have IH: "inv (snd r)" "of_nat (accepted (fst r)) + credit (snd r)
      \<le> credit s' + gain s' * of_int (since (snd r) - since s')"
    "since (snd r) \<le> end_of (since s') (map span is)"
    using Cons.IH [OF inv' tf] by (simp_all add: r_def)
  have p: "of_bool (fst (req s i)) + credit s' \<le> credit s + gain s * of_int (since s' - since s)"
    using pay [OF Cons.prems(1) ab le] by (simp add: s'_def)
  have g: "gain s' = gain s" by (simp add: s'_def gain_req)
  have run: "run_requests req s (i # is) = (fst (req s i) # fst r, snd r)"
    by (simp add: r_def s'_def split_beta)
  have "gain s * of_int (since s' - since s) + gain s * of_int (since (snd r) - since s')
      = gain s * of_int (since (snd r) - since s)"
    by (simp add: algebra_simps)
  with p IH(2) g have "of_bool (fst (req s i)) + of_nat (accepted (fst r)) + credit (snd r)
      \<le> credit s + gain s * of_int (since (snd r) - since s)" by simp
  moreover have "since (snd r) \<le> end_of (since s) (map span (i # is))"
    using IH(3) end_of_mono [OF ord since'] by (simp add: ab)
  ultimately show ?case using IH(1) unfolding run by (simp add: add.assoc)
qed simp

theorem run_bound:
  assumes "inv s" "ordered_from (since s) (map span is)"
  shows "of_nat (accepted (fst (run_requests req s is)))
    \<le> credit s + gain s * of_int (end_of (since s) (map span is) - since s)"
proof -
  define r where "r = run_requests req s is"
  have r: "inv (snd r)" "since (snd r) \<le> end_of (since s) (map span is)"
    "of_nat (accepted (fst r)) + credit (snd r) \<le> credit s + gain s * of_int (since (snd r) - since s)"
    using run_budget [OF assms] by (simp_all add: r_def)
  have "gain s * of_int (since (snd r) - since s) \<le> gain s * of_int (end_of (since s) (map span is) - since s)"
    using r(2) gain_nonneg [OF assms(1)] by (intro mult_left_mono) simp_all
  moreover have "0 \<le> credit (snd r)"
    using r(1) by (rule credit_nonneg)
  ultimately show ?thesis using r(3) by (simp add: r_def)
qed

end

section \<open>The bucket\<close>

record TokenBucket =
  tokens :: int
  capacity :: int
  rate :: rat
  lastRefill :: nanos

definition NewTokenBucket :: "clock \<Rightarrow> int \<Rightarrow> rat \<Rightarrow> TokenBucket \<times> clock" where
  "NewTokenBucket clk cap r =
     (let (now, clk') = time_Now clk
      in (\<lparr>tokens = cap, capacity = cap, rate = r, lastRefill = now\<rparr>, clk'))"

definition go_min :: "int \<Rightarrow> int \<Rightarrow> int" where
  "go_min a b = (if a < b then a else b)"

definition tokensToAdd :: "(rat \<Rightarrow> int) \<Rightarrow> TokenBucket \<Rightarrow> nanos \<Rightarrow> int" where
  "tokensToAdd oob tb now =
     (let elapsed = duration_Seconds (time_Sub now (lastRefill tb))
      in float_to_int oob (fl64 (elapsed * rate tb)))"

definition refill :: "(rat \<Rightarrow> int) \<Rightarrow> TokenBucket \<Rightarrow> nanos \<Rightarrow> TokenBucket" where
  "refill oob tb now =
     (let add = tokensToAdd oob tb now
      in if add > 0
         then tb\<lparr>tokens := go_min (capacity tb) (wrap64 (tokens tb + add)), lastRefill := now\<rparr>
         else tb)"

definition Take_at :: "(rat \<Rightarrow> int) \<Rightarrow> TokenBucket \<Rightarrow> nanos \<Rightarrow> bool \<times> TokenBucket" where
  "Take_at oob tb now =
     (let tb' = refill oob tb now
      in if tokens tb' > 0 then (True, tb'\<lparr>tokens := tokens tb' - 1\<rparr>) else (False, tb'))"

definition Take :: "(rat \<Rightarrow> int) \<Rightarrow> clock \<Rightarrow> TokenBucket \<Rightarrow> bool \<times> TokenBucket \<times> clock" where
  "Take oob clk tb =
     (let (now, clk') = time_Now clk; (ok, tb') = Take_at oob tb now in (ok, tb', clk'))"

lemmas bucket_defs [go_defs] = Take_at_def refill_def go_min_def Let_def

subsection \<open>The invariant\<close>

text \<open>
  The sizes for which no bucket operation can overflow: at most about a million tokens per
  second and a burst below \<open>2\<^sup>62\<close>.  The whole span of a 64-bit duration (292 years) then adds
  less than \<open>2\<^sup>62\<close> tokens.
\<close>

definition bucket_size_ok :: "int \<Rightarrow> rat \<Rightarrow> bool" where
  "bucket_size_ok cap r \<longleftrightarrow> 0 \<le> cap \<and> cap < 2 ^ 62 \<and> 0 \<le> r \<and> r \<le> 2 ^ 20"

definition bucket_inv :: "TokenBucket \<Rightarrow> bool" where
  "bucket_inv tb \<longleftrightarrow> bucket_size_ok (capacity tb) (rate tb) \<and> 0 \<le> tokens tb \<and> tokens tb \<le> capacity tb"

text \<open>Tokens per nanosecond, with the rounding errors of the three float operations.\<close>

definition bucket_gain :: "TokenBucket \<Rightarrow> rat" where
  "bucket_gain tb = (1 + eps64) ^ 3 * rate tb / 1000000000"

lemma elapsed_product_bounds:
  assumes "0 \<le> rate tb" "lastRefill tb \<le> now"
  defines "x \<equiv> fl64 (duration_Seconds (time_Sub now (lastRefill tb)) * rate tb)"
  shows "0 \<le> x" "x \<le> bucket_gain tb * of_int (time_Sub now (lastRefill tb))"
proof -
  define d where "d = time_Sub now (lastRefill tb)"
  have d: "0 \<le> d" "d \<le> max_duration" using time_Sub_bounds [OF assms(2)] by (simp_all add: d_def)
  have s: "0 \<le> duration_Seconds d" "duration_Seconds d \<le> (1 + eps64) ^ 2 * (of_int d / 1000000000)"
    using d duration_Seconds_upper by simp_all
  show "0 \<le> x" using s(1) assms(1) by (simp add: x_def d_def [symmetric])
  have "x \<le> (1 + eps64) * (duration_Seconds d * rate tb)"
    using fl64_upper [of "duration_Seconds d * rate tb"] s(1) assms(1)
    by (simp add: x_def d_def [symmetric])
  also have "\<dots> \<le> (1 + eps64) * (((1 + eps64) ^ 2 * (of_int d / 1000000000)) * rate tb)"
    using s(2) assms(1) eps64_pos by (intro mult_left_mono mult_right_mono) simp_all
  also have "\<dots> = bucket_gain tb * of_int d"
    by (simp add: bucket_gain_def power3_eq_cube power2_eq_square)
  finally show "x \<le> bucket_gain tb * of_int (time_Sub now (lastRefill tb))" by (simp add: d_def)
qed

lemma bucket_gain_bound:
  assumes "0 \<le> rate tb" "rate tb \<le> 2 ^ 20" "0 \<le> d" "d \<le> max_duration"
  shows "bucket_gain tb * of_int d < 2 ^ 62"
proof -
  have "(1 + eps64) ^ 3 \<le> 2" by (simp add: eps64_def power3_eq_cube)
  then have "bucket_gain tb \<le> 2 * 2 ^ 20 / 1000000000"
    unfolding bucket_gain_def using assms(1,2)
    by (intro divide_right_mono mult_mono) simp_all
  moreover have "of_int d \<le> (2 ^ 63 :: rat)"
  proof -
    have "(of_int d :: rat) \<le> of_int (2 ^ 63)" using assms(4) by (simp only: of_int_le_iff max_duration_def)
    then show ?thesis by simp
  qed
  ultimately have "bucket_gain tb * of_int d \<le> (2 * 2 ^ 20 / 1000000000) * 2 ^ 63"
    using assms(3) by (intro mult_mono) simp_all
  then show ?thesis by simp
qed

lemma tokensToAdd_bounds:
  assumes "bucket_inv tb" "lastRefill tb \<le> now"
  shows "0 \<le> tokensToAdd oob tb now" "tokensToAdd oob tb now < 2 ^ 62"
    "of_int (tokensToAdd oob tb now) \<le> bucket_gain tb * of_int (now - lastRefill tb)"
proof -
  define x where "x = fl64 (duration_Seconds (time_Sub now (lastRefill tb)) * rate tb)"
  have r: "0 \<le> rate tb" "rate tb \<le> 2 ^ 20"
    using assms(1) by (simp_all add: bucket_inv_def bucket_size_ok_def)
  have x: "0 \<le> x" "x \<le> bucket_gain tb * of_int (time_Sub now (lastRefill tb))"
    using elapsed_product_bounds [OF r(1) assms(2)] by (simp_all add: x_def)
  have small: "x < 2 ^ 62"
    using x(2) bucket_gain_bound [OF r] time_Sub_bounds [OF assms(2)] by (meson le_less_trans)
  then have add: "tokensToAdd oob tb now = \<lfloor>x\<rfloor>"
    using x(1) by (simp add: tokensToAdd_def x_def [symmetric] float_to_int_small)
  show "0 \<le> tokensToAdd oob tb now" using add x(1) by simp
  show "tokensToAdd oob tb now < 2 ^ 62" using add small by (simp add: floor_less_iff)
  have "bucket_gain tb * of_int (time_Sub now (lastRefill tb)) \<le> bucket_gain tb * of_int (now - lastRefill tb)"
    using time_Sub_bounds [OF assms(2)] r(1) eps64_pos
    by (intro mult_left_mono) (simp_all add: bucket_gain_def)
  with add x show "of_int (tokensToAdd oob tb now) \<le> bucket_gain tb * of_int (now - lastRefill tb)"
    by (simp add: order_trans [OF of_int_floor_le])
qed

lemma refill_tokens:
  assumes "bucket_inv tb" "lastRefill tb \<le> now"
  shows "tokens (refill oob tb now) = min (capacity tb) (tokens tb + tokensToAdd oob tb now)"
    "lastRefill (refill oob tb now) = (if tokensToAdd oob tb now > 0 then now else lastRefill tb)"
    "capacity (refill oob tb now) = capacity tb" "rate (refill oob tb now) = rate tb"
proof -
  have "in_int64 (tokens tb + tokensToAdd oob tb now)"
    using assms(1) tokensToAdd_bounds [OF assms, of oob]
    by (simp add: bucket_inv_def bucket_size_ok_def in_int64_def)
  with assms(1) tokensToAdd_bounds(1) [OF assms, of oob]
  show "tokens (refill oob tb now) = min (capacity tb) (tokens tb + tokensToAdd oob tb now)"
    by (auto simp: bucket_defs bucket_inv_def)
qed (simp_all add: bucket_defs)

lemma Take_at_inv [go_inv]:
  assumes "bucket_inv tb" "lastRefill tb \<le> now"
  shows "bucket_inv (snd (Take_at oob tb now))"
  using assms(1) refill_tokens [OF assms, of oob] tokensToAdd_bounds(1) [OF assms, of oob]
  by (auto simp: Take_at_def Let_def bucket_inv_def)

lemma Take_at_frame [simp]:
  "capacity (snd (Take_at oob tb now)) = capacity tb"
  "rate (snd (Take_at oob tb now)) = rate tb"
  by (simp_all add: bucket_defs)

lemma Take_at_lastRefill:
  "lastRefill (snd (Take_at oob tb now)) = (if tokensToAdd oob tb now > 0 then now else lastRefill tb)"
  by (simp add: bucket_defs)

lemma Take_at_tokens:
  fixes oob :: "rat \<Rightarrow> int"
  assumes "bucket_inv tb" "lastRefill tb \<le> now"
  defines "avail \<equiv> min (capacity tb) (tokens tb + tokensToAdd oob tb now)"
  shows "fst (Take_at oob tb now) \<longleftrightarrow> 0 < avail"
    "tokens (snd (Take_at oob tb now)) = (if 0 < avail then avail - 1 else avail)"
  using refill_tokens(1) [OF assms(1,2), of oob] by (simp_all add: Take_at_def Let_def avail_def)

interpretation tb: metered "Take_at oob" "\<lambda>now. (now, now)" bucket_inv lastRefill "\<lambda>tb. of_int (tokens tb)" bucket_gain
  for oob :: "rat \<Rightarrow> int"
proof unfold_locales
  fix s :: TokenBucket and i a b :: int
  assume inv: "bucket_inv s" and "(i, i) = (a, b)" "lastRefill s \<le> a"
  then have le: "lastRefill s \<le> i" and b: "b = i" by simp_all
  show "bucket_inv (snd (Take_at oob s i))" using inv le by (rule Take_at_inv)
  show "lastRefill s \<le> lastRefill (snd (Take_at oob s i)) \<and> lastRefill (snd (Take_at oob s i)) \<le> b"
    using le by (simp add: b Take_at_lastRefill)
  have "of_int (tokensToAdd oob s i)
      \<le> bucket_gain s * of_int (lastRefill (snd (Take_at oob s i)) - lastRefill s)"
    using tokensToAdd_bounds [OF inv le, of oob] by (auto simp: Take_at_lastRefill)
  moreover have "of_bool (fst (Take_at oob s i)) + tokens (snd (Take_at oob s i))
      \<le> tokens s + tokensToAdd oob s i"
    using Take_at_tokens [OF inv le, of oob] by simp
  then have "(of_int (of_bool (fst (Take_at oob s i)) + tokens (snd (Take_at oob s i))) :: rat)
      \<le> of_int (tokens s + tokensToAdd oob s i)" by (simp only: of_int_le_iff)
  ultimately show "of_bool (fst (Take_at oob s i)) + of_int (tokens (snd (Take_at oob s i)))
      \<le> of_int (tokens s) + bucket_gain s * of_int (lastRefill (snd (Take_at oob s i)) - lastRefill s)"
    by simp
qed (auto simp: bucket_inv_def bucket_size_ok_def bucket_gain_def eps64_def)

text \<open>Whole seconds at a whole rate add exactly the tokens expected.\<close>

lemma tokensToAdd_whole:
  assumes "rate tb = of_int r" "0 \<le> n" "n < 2 ^ 30" "0 \<le> r" "r < 2 ^ 20"
    and now: "now = lastRefill tb + n * 1000000000"
  shows "tokensToAdd oob tb now = n * r"
proof -
  have "in_int64 (n * 1000000000)" using assms(2,3) by (simp add: in_int64_def)
  then have d: "duration_Seconds (time_Sub now (lastRefill tb)) = of_int n"
    using duration_Seconds_whole [of n] assms(2,3) now by (simp add: time_Sub_exact)
  have nr: "0 \<le> n * r" "n * r < 2 ^ 30 * 2 ^ 20"
    using assms(2-5) by (simp, intro mult_strict_mono) simp_all
  have "fl64 (of_int n * rate tb) = of_int (n * r)"
    using fl64_of_int [of "n * r"] nr assms(1) by simp
  moreover have "of_int (n * r) < (2 ^ 63 :: rat)"
  proof -
    have "n * r < 2 ^ 63" using nr by simp
    then have "(of_int (n * r) :: rat) < of_int (2 ^ 63)" by (simp only: of_int_less_iff)
    then show ?thesis by simp
  qed
  ultimately show ?thesis
    using nr unfolding tokensToAdd_def d Let_def
    by (subst float_to_int_small) (simp_all del: of_int_mult)
qed

section \<open>Properties\<close>

text \<open>
  C1: the rate bound of the token bucket.  Whatever the times of the calls, the number of
  \<^verbatim>\<open>Take\<close> calls that return true is at most the tokens there were at the start plus the rate
  times the time since the last refill, up to the relative error \<open>(1 + 2\<^sup>-\<^sup>5\<^sup>3)\<^sup>3\<close> of
  the three floating-point roundings on the way from the elapsed time to a token count.
\<close>

theorem take_run_bound:
  assumes "bucket_inv tb" and "sorted (lastRefill tb # ts)"
  shows "of_nat (accepted (fst (run_requests (Take_at oob) tb ts)))
    \<le> of_int (tokens tb) + (1 + eps64) ^ 3 * rate tb / 1000000000
        * of_int (last (lastRefill tb # ts) - lastRefill tb)"
  using tb.run_bound [of tb ts oob, unfolded ordered_from_points end_of_points] assms
  by (simp only: bucket_gain_def)

theorem take_run_bound_witness:
  "(2::rat) \<le> 2 + (1 + eps64) ^ 3 * 1 / 1000000000 * of_int (0 - 0)
   \<and> fst (run_requests (Take_at (\<lambda>_. 0))
        \<lparr>tokens = 2, capacity = 2, rate = 1, lastRefill = 0\<rparr> [0, 0, 0]) = [True, True, False]"
proof -
  define tb where "tb = \<lparr>tokens = 2, capacity = 2, rate = 1, lastRefill = 0\<rparr>"
  have "tokensToAdd (\<lambda>_. 0) \<lparr>tokens = n, capacity = 2, rate = 1, lastRefill = 0\<rparr> 0 = 0" for n
    using tokensToAdd_whole [of _ 1 0 0] by simp
  then have run: "fst (run_requests (Take_at (\<lambda>_. 0)) tb [0, 0, 0]) = [True, True, False]"
    by (simp add: tb_def bucket_defs)
  have "bucket_inv tb" "sorted (lastRefill tb # [0, 0, 0])"
    by (simp_all add: tb_def bucket_inv_def bucket_size_ok_def)
  from take_run_bound [OF this, of "\<lambda>_. 0"] run show ?thesis by (simp add: tb_def)
qed

text \<open>
  C2: a call of \<^verbatim>\<open>Take\<close> returns true exactly when, after the refill for the elapsed time, a
  token is there; it then removes one token and otherwise none.  It keeps the tokens between
  0 and the capacity and moves the refill time only when it added tokens, so that the
  fractions of a token that have accrued are not lost.
\<close>

theorem take_spec:
  fixes oob :: "rat \<Rightarrow> int"
  assumes "bucket_inv tb" and "lastRefill tb \<le> now"
    and "avail = min (capacity tb) (tokens tb + tokensToAdd oob tb now)"
  shows "Take_at oob tb now =
      (0 < avail, tb\<lparr>tokens := (if 0 < avail then avail - 1 else avail),
        lastRefill := (if 0 < tokensToAdd oob tb now then now else lastRefill tb)\<rparr>)
    \<and> bucket_inv (snd (Take_at oob tb now))"
proof -
  have eq: "snd (Take_at oob tb now) =
      tb\<lparr>tokens := tokens (snd (Take_at oob tb now)), lastRefill := lastRefill (snd (Take_at oob tb now))\<rparr>"
    by (simp add: bucket_defs)
  show ?thesis
    using Take_at_tokens [OF assms(1,2), of oob] Take_at_inv [OF assms(1,2), of oob] eq
    by (simp add: prod_eq_iff Take_at_lastRefill assms(3))
qed

theorem take_spec_witness:
  "fst (Take_at (\<lambda>_. 0) \<lparr>tokens = 0, capacity = 2, rate = 1, lastRefill = 0\<rparr> 5000000000)
   \<and> tokens (snd (Take_at (\<lambda>_. 0) \<lparr>tokens = 0, capacity = 2, rate = 1, lastRefill = 0\<rparr> 5000000000)) = 1"
proof -
  define tb where "tb = \<lparr>tokens = 0, capacity = 2, rate = 1, lastRefill = (0::int)\<rparr>"
  have add: "tokensToAdd (\<lambda>_. 0) tb 5000000000 = 5"
    using tokensToAdd_whole [of tb 1 5] by (simp add: tb_def)
  have "bucket_inv tb" "lastRefill tb \<le> 5000000000"
    by (simp_all add: tb_def bucket_inv_def bucket_size_ok_def)
  from take_spec [OF this refl, of "\<lambda>_. 0"] add show ?thesis by (simp add: tb_def)
qed

text \<open>
  The addition \<^verbatim>\<open>tb.tokens+tokensToAdd\<close> overflows for a burst size close to the largest
  \<^verbatim>\<open>int\<close>: a bucket of capacity \<^verbatim>\<open>math.MaxInt\<close> from which one token was taken holds a negative
  number of tokens after two seconds at one token per second, and rejects the request.
\<close>

theorem take_burst_overflow:
  "Take_at oob \<lparr>tokens = 2 ^ 63 - 2, capacity = 2 ^ 63 - 1, rate = 1, lastRefill = 0\<rparr> 2000000000
   = (False, \<lparr>tokens = - (2 ^ 63), capacity = 2 ^ 63 - 1, rate = 1, lastRefill = 2000000000\<rparr>)"
proof -
  define tb where "tb = \<lparr>tokens = 2 ^ 63 - 2, capacity = 2 ^ 63 - 1, rate = 1, lastRefill = (0::int)\<rparr>"
  have "tokensToAdd oob tb 2000000000 = 2"
    using tokensToAdd_whole [of tb 1 2] by (simp add: tb_def)
  then show ?thesis
    unfolding tb_def by (simp add: bucket_defs wrap64_def)
qed

end
