(* ===== verification/Attributes.thy ===== *)
theory Attributes
  imports Kit_Prelude "HOL-Library.AList"
begin

text \<open>
  Request attributes: \<^verbatim>\<open>attributes/arrtribute_extractor.go\<close>, \<^verbatim>\<open>grpc_interceptor.go\<close> and
  \<^verbatim>\<open>http_middleware.go\<close>, with the part of \<^verbatim>\<open>context.Context\<close>, \<^verbatim>\<open>net/http\<close> and gRPC metadata
  they use.  A Go map is an association list in the order in which one \<^verbatim>\<open>range\<close> loop visits
  it; the properties quantify over that order.
\<close>

section \<open>Contexts, headers and metadata\<close>

record RequestAttributes =
  IP :: string
  Method :: string
  Path :: string
  UserID :: string
  StaffID :: string
  DeviceID :: string
  Headers :: "string \<rightharpoonup> string"
  RequestID :: string

type_synonym header = "(string \<times> string list) list"

text \<open>The peer address of a gRPC call: a TCP address (its IP as text) or another network's.\<close>

datatype net_addr = TCPAddr string | OtherAddr string

text \<open>
  A context: whether it is done (and why), its deadline, and the values under the keys
  the kit uses.  \<open>tx_value\<close> is the value under \<^verbatim>\<open>transactionKey{}\<close>: absent, a nil
  \<^verbatim>\<open>*gorm.DB\<close> or a handle.  \<open>peer\<close> is the gRPC peer and the address it has, if any.
\<close>

record go_ctx =
  ctx_err :: "gerror option"
  deadline :: "int option"
  request_attributes :: "RequestAttributes option"
  incoming_md :: "header option"
  peer :: "net_addr option option"
  tx_value :: "nat option option"
  worker_value :: "string option"

definition background :: go_ctx where
  "background = \<lparr>ctx_err = None, deadline = None, request_attributes = None, incoming_md = None,
     peer = None, tx_value = None, worker_value = None\<rparr>"

text \<open>\<^verbatim>\<open>context.WithoutCancel\<close> and \<^verbatim>\<open>context.WithTimeout\<close> (the clock reads \<open>now\<close>).\<close>

definition WithoutCancel :: "go_ctx \<Rightarrow> go_ctx" where
  "WithoutCancel ctx = ctx\<lparr>ctx_err := None, deadline := None\<rparr>"

definition WithTimeout :: "go_ctx \<Rightarrow> int \<Rightarrow> int \<Rightarrow> go_ctx" where
  "WithTimeout ctx now d =
     (let t = (case deadline ctx of None \<Rightarrow> now + d | Some t \<Rightarrow> min t (now + d))
      in ctx\<lparr>deadline := Some t,
             ctx_err := (if ctx_err ctx = None \<and> d \<le> 0 then Some DeadlineExceeded else ctx_err ctx)\<rparr>)"

definition second :: int where
  "second = 1000000000"

record http_request =
  req_method :: string
  url_path :: string
  req_header :: header
  remote_addr :: string
  req_ctx :: go_ctx

text \<open>
  \<^verbatim>\<open>http.CanonicalHeaderKey\<close>: a valid header name has the first letter of each part between
  hyphens in upper case and the rest in lower case; another string is left as it is.
\<close>

definition is_token :: "char \<Rightarrow> bool" where
  "is_token c \<longleftrightarrow> is_alnum c \<or> c \<in> set ''!#$%&*+-.^_`|~'' \<or> c = CHR 0x27"

fun canon :: "bool \<Rightarrow> string \<Rightarrow> string" where
  "canon up [] = []"
| "canon up (c # cs) = (if up then upper_char c else lower_char c) # canon (c = CHR ''-'') cs"

definition CanonicalKey :: "string \<Rightarrow> string" where
  "CanonicalKey k = (if list_all is_token k then canon True k else k)"

definition first_value :: "string list option \<Rightarrow> string" where
  "first_value vs = (case vs of Some (v # _) \<Rightarrow> v | _ \<Rightarrow> [])"

definition Header_Get :: "header \<Rightarrow> string \<Rightarrow> string" where
  "Header_Get h k = first_value (map_of h (CanonicalKey k))"

section \<open>Extraction\<close>

definition attrs_Get :: "RequestAttributes \<Rightarrow> string \<Rightarrow> string" where
  "attrs_Get r key = (case Headers r (ToLower key) of Some v \<Rightarrow> v | None \<Rightarrow> [])"

text \<open>The loop over the headers: the lower-cased name and the first value of each.\<close>

fun collect_headers :: "(string \<rightharpoonup> string) \<Rightarrow> header \<Rightarrow> (string \<rightharpoonup> string)" where
  "collect_headers m [] = m"
| "collect_headers m ((k, vs) # h) =
     collect_headers (case vs of [] \<Rightarrow> m | v # _ \<Rightarrow> m(ToLower k \<mapsto> v)) h"

subsection \<open>HTTP\<close>

definition http_getHeaderValue :: "http_request \<Rightarrow> string \<Rightarrow> string" where
  "http_getHeaderValue r key = Header_Get (req_header r) (ToLower key)"

definition http_getRequestID :: "http_request \<Rightarrow> string" where
  "http_getRequestID r =
     (let request = http_getHeaderValue r ''x-kong-request-id''
      in if request = [] then http_getHeaderValue r ''x-request-id'' else request)"

definition remote_host :: "string \<Rightarrow> string" where
  "remote_host addr =
     (let colonIndex = LastIndex addr CHR '':''
      in if colonIndex \<noteq> -1 then take (nat colonIndex) addr else addr)"

definition http_getIP :: "http_request \<Rightarrow> string" where
  "http_getIP r =
     (let forwardedFor = Header_Get (req_header r) ''X-Forwarded-For'';
          realIP = Header_Get (req_header r) ''X-Real-IP'';
          clientIP = Header_Get (req_header r) ''X-Client-IP''
      in if forwardedFor \<noteq> [] then TrimSpace (hd (Split forwardedFor CHR '',''))
         else if realIP \<noteq> [] then realIP
         else if clientIP \<noteq> [] then clientIP
         else if remote_addr r \<noteq> [] then remote_host (remote_addr r)
         else ''unknown'')"

definition http_Extract :: "http_request \<Rightarrow> RequestAttributes res" where
  "http_Extract r = Inr
     \<lparr>IP = http_getIP r, Method = req_method r, Path = url_path r,
      UserID = http_getHeaderValue r ''x-user-id'',
      StaffID = http_getHeaderValue r ''x-staff-id'',
      DeviceID = http_getHeaderValue r ''x-device-id'',
      Headers = collect_headers Map.empty (req_header r),
      RequestID = http_getRequestID r\<rparr>"

subsection \<open>gRPC\<close>

text \<open>
  The extractor: the incoming metadata (nil when there is none) and the call's full method.  \<open>MD_Get\<close> is the look-up of
  the gRPC library's \<^verbatim>\<open>metadata.MD\<close>.
\<close>

record GRPCAttributeExtractor =
  md :: header
  info :: "string option"

definition NewGRPCAttributeExtractor :: "go_ctx \<Rightarrow> string option \<Rightarrow> GRPCAttributeExtractor" where
  "NewGRPCAttributeExtractor ctx fullMethod =
     \<lparr>md = (case incoming_md ctx of Some m \<Rightarrow> m | None \<Rightarrow> []), info = fullMethod\<rparr>"

definition grpc_getMetadataValue :: "(header \<Rightarrow> string \<Rightarrow> string list) \<Rightarrow> GRPCAttributeExtractor \<Rightarrow> string \<Rightarrow> string" where
  "grpc_getMetadataValue MD_Get g key = (case MD_Get (md g) (ToLower key) of v # _ \<Rightarrow> v | [] \<Rightarrow> [])"

definition nonempty_first :: "string list \<Rightarrow> string option" where
  "nonempty_first vs = (case vs of v # _ \<Rightarrow> if v \<noteq> [] then Some v else None | [] \<Rightarrow> None)"

definition grpc_getIP :: "(header \<Rightarrow> string \<Rightarrow> string list) \<Rightarrow> GRPCAttributeExtractor \<Rightarrow> go_ctx \<Rightarrow> string" where
  "grpc_getIP MD_Get g ctx =
     (case nonempty_first (MD_Get (md g) ''x-forwarded-for'') of
        Some ips \<Rightarrow> TrimSpace (hd (Split ips CHR '',''))
      | None \<Rightarrow>
     (case nonempty_first (MD_Get (md g) ''x-real-ip'') of
        Some realIP \<Rightarrow> realIP
      | None \<Rightarrow>
     (case nonempty_first (MD_Get (md g) ''x-client-ip'') of
        Some clientIP \<Rightarrow> clientIP
      | None \<Rightarrow>
     (case peer ctx of
        Some (Some (TCPAddr ip)) \<Rightarrow> ip
      | Some (Some (OtherAddr a)) \<Rightarrow> a
      | _ \<Rightarrow> ''unknown''))))"

definition grpc_Extract :: "(header \<Rightarrow> string \<Rightarrow> string list) \<Rightarrow> GRPCAttributeExtractor \<Rightarrow> go_ctx \<Rightarrow> RequestAttributes res" where
  "grpc_Extract MD_Get g ctx = Inr
     \<lparr>IP = grpc_getIP MD_Get g ctx, Method = ''gRPC'',
      Path = (case info g of Some m \<Rightarrow> m | None \<Rightarrow> ''unknown''),
      UserID = grpc_getMetadataValue MD_Get g ''x-user-id'',
      StaffID = grpc_getMetadataValue MD_Get g ''x-staff-id'',
      DeviceID = grpc_getMetadataValue MD_Get g ''x-device-id'',
      Headers = collect_headers Map.empty (md g),
      RequestID = []\<rparr>"

subsection \<open>Context values, interceptor and middleware\<close>

definition WithRequestAttributes :: "go_ctx \<Rightarrow> RequestAttributes \<Rightarrow> go_ctx" where
  "WithRequestAttributes ctx attrs = ctx\<lparr>request_attributes := Some attrs\<rparr>"

definition GetFromContext :: "go_ctx \<Rightarrow> RequestAttributes option" where
  "GetFromContext ctx = request_attributes ctx"

definition AttributeExtractionUnaryInterceptor ::
  "(header \<Rightarrow> string \<Rightarrow> string list) \<Rightarrow> go_ctx \<Rightarrow> 'req \<Rightarrow> string option \<Rightarrow> (go_ctx \<Rightarrow> 'req \<Rightarrow> 'out) \<Rightarrow> 'out" where
  "AttributeExtractionUnaryInterceptor MD_Get ctx rq fullMethod handler =
     (case grpc_Extract MD_Get (NewGRPCAttributeExtractor ctx fullMethod) ctx of
        Inl _ \<Rightarrow> handler ctx rq
      | Inr attrs \<Rightarrow> handler (WithRequestAttributes ctx attrs) rq)"

definition AttributeExtractionMiddleware :: "(http_request \<Rightarrow> 'out) \<Rightarrow> http_request \<Rightarrow> 'out" where
  "AttributeExtractionMiddleware next r =
     (case http_Extract r of
        Inl _ \<Rightarrow> next r
      | Inr attrs \<Rightarrow> next (r\<lparr>req_ctx := WithRequestAttributes (req_ctx r) attrs\<rparr>))"

section \<open>Lemmas\<close>

lemma lower_upper_char [simp]: "lower_char (upper_char c) = lower_char c"
  using of_char_less [of c] by (auto simp: lower_char_def upper_char_def Let_def)

lemma upper_lower_char [simp]: "upper_char (lower_char c) = upper_char c"
  using of_char_less [of c] by (auto simp: lower_char_def upper_char_def Let_def)

lemma lower_char_hyphen [simp]: "lower_char c = CHR ''-'' \<longleftrightarrow> c = CHR ''-''"
proof -
  have "of_char (lower_char c) = (45::nat) \<longleftrightarrow> of_char c = (45::nat)"
    by (simp add: lower_char_def Let_def)
  moreover have "c = CHR ''-'' \<longleftrightarrow> of_char c = (45::nat)" for c :: char
    using of_char_eq_iff [of c "CHR ''-''", where 'a = nat] by simp
  ultimately show ?thesis by simp
qed

lemma canon_ToLower [simp]: "canon up (ToLower k) = canon up k"
  by (induction k arbitrary: up) (auto simp: ToLower_def)

lemma ToLower_canon [simp]: "ToLower (canon up k) = ToLower k"
  by (induction k arbitrary: up) (auto simp: ToLower_def)

lemma is_alnum_lower [simp]: "is_alnum (lower_char c) = is_alnum c"
  by (auto simp: is_alnum_def lower_char_def Let_def)

lemma lower_char_fix: "lower_char c = c \<longleftrightarrow> \<not> (65 \<le> (of_char c :: nat) \<and> (of_char c :: nat) \<le> 90)"
  using of_char_eq_iff [of "char_of (of_char c + 32 :: nat)" c, where 'a = nat]
  by (auto simp: lower_char_def Let_def)

lemma is_token_lower [simp]: "is_token (lower_char c) = is_token c"
proof (cases "lower_char c = c")
  case False
  then have "is_alnum c" by (simp add: lower_char_fix is_alnum_def Let_def)
  then show ?thesis by (simp add: is_token_def)
qed simp

lemma list_all_token_ToLower [simp]: "list_all is_token (ToLower k) = list_all is_token k"
  by (simp add: ToLower_def list_all_iff)

lemma CanonicalKey_ToLower: "list_all is_token k \<Longrightarrow> CanonicalKey (ToLower k) = CanonicalKey k"
  by (simp add: CanonicalKey_def)

lemma Header_Get_ToLower: "list_all is_token k \<Longrightarrow> Header_Get h (ToLower k) = Header_Get h k"
  by (simp add: Header_Get_def CanonicalKey_ToLower)

text \<open>A header map as the HTTP server builds it: canonical names, no duplicates.\<close>

definition canonical_header :: "header \<Rightarrow> bool" where
  "canonical_header h \<longleftrightarrow>
     distinct (map fst h) \<and> (\<forall>k \<in> set (map fst h). list_all is_token k \<and> CanonicalKey k = k)"

lemma canonical_key_eq:
  assumes "list_all is_token k" "list_all is_token k'" "CanonicalKey k' = k'" "ToLower k' = ToLower k"
  shows "k' = CanonicalKey k"
proof -
  have "k' = CanonicalKey (ToLower k')" using assms(2,3) by (simp add: CanonicalKey_ToLower)
  also have "\<dots> = CanonicalKey k" using assms(1,4) by (simp add: CanonicalKey_ToLower)
  finally show ?thesis .
qed

lemma ToLower_CanonicalKey: "ToLower (CanonicalKey k) = ToLower k"
  by (simp add: CanonicalKey_def)

lemma collect_headers_lookup:
  assumes "distinct (map (ToLower \<circ> fst) h)"
  shows "collect_headers m h l =
    (case find (\<lambda>(k, vs). ToLower k = l \<and> vs \<noteq> []) h of
       Some (k, vs) \<Rightarrow> Some (hd vs) | None \<Rightarrow> m l)"
  using assms
proof (induction h arbitrary: m)
  case (Cons kv h)
  obtain k vs where kv: "kv = (k, vs)" by force
  have dh: "distinct (map (ToLower \<circ> fst) h)" and nk: "ToLower k \<notin> (ToLower \<circ> fst) ` set h"
    using Cons.prems by (simp_all add: kv comp_def)
  show ?case
  proof (cases "ToLower k = l \<and> vs \<noteq> []")
    case True
    then obtain v vs' where vs: "vs = v # vs'" by (cases vs) auto
    have none: "find (\<lambda>(k, vs). ToLower k = l \<and> vs \<noteq> []) h = None"
      using nk True by (force simp: find_None_iff)
    have "collect_headers (m(ToLower k \<mapsto> v)) h l = Some v"
      unfolding Cons.IH [OF dh] none using True by simp
    then show ?thesis using True by (simp add: kv vs)
  next
    case False
    define m' where "m' = (case vs of [] \<Rightarrow> m | v # _ \<Rightarrow> m(ToLower k \<mapsto> v))"
    have "m' l = m l" using False by (cases vs) (auto simp: m'_def)
    moreover have "find (\<lambda>(k, vs). ToLower k = l \<and> vs \<noteq> []) (kv # h) = find (\<lambda>(k, vs). ToLower k = l \<and> vs \<noteq> []) h"
      using False by (auto simp: kv)
    moreover have "collect_headers m (kv # h) = collect_headers m' h" by (simp add: kv m'_def)
    ultimately show ?thesis by (simp only: Cons.IH [OF dh, of m'])
  qed
qed simp

lemma collect_headers_set:
  assumes "distinct (map (ToLower \<circ> fst) h)"
  shows "collect_headers Map.empty h l = Some v \<longleftrightarrow> (\<exists>k vs. (k, v # vs) \<in> set h \<and> ToLower k = l)"
proof -
  have uniq: "(k, vs) \<in> set h \<Longrightarrow> (k', vs') \<in> set h \<Longrightarrow> ToLower k = ToLower k' \<Longrightarrow> k = k' \<and> vs = vs'"
    for k k' vs vs'
    using assms by (fastforce simp: distinct_map inj_on_def comp_def)
  show ?thesis
  proof (cases "find (\<lambda>(k, vs). ToLower k = l \<and> vs \<noteq> []) h")
    case None
    then have "\<not> (\<exists>k vs. (k, v # vs) \<in> set h \<and> ToLower k = l)"
      by (force simp: find_None_iff)
    with None show ?thesis by (simp add: collect_headers_lookup [OF assms])
  next
    case (Some kv)
    obtain k vs where kv: "kv = (k, vs)" by force
    from Some find_Some_split [OF Some] have kv': "(k, vs) \<in> set h" "ToLower k = l" "vs \<noteq> []"
      by (auto simp: kv)
    have "collect_headers Map.empty h l = Some (hd vs)"
      by (simp add: collect_headers_lookup [OF assms] Some kv)
    then show ?thesis
      using kv' uniq by (metis list.collapse list.sel(1) option.inject)
  qed
qed

lemma canonical_header_lower_distinct:
  assumes "canonical_header h"
  shows "distinct (map (ToLower \<circ> fst) h)"
proof -
  have "inj_on ToLower (set (map fst h))"
    using assms canonical_key_eq by (auto simp: canonical_header_def inj_on_def) (metis fst_conv)+
  then show ?thesis
    using assms by (simp add: canonical_header_def distinct_map flip: map_map)
qed

lemma nonempty_first_Some: "nonempty_first vs = Some v \<longleftrightarrow> (\<exists>vs'. vs = v # vs' \<and> v \<noteq> [])"
  by (auto simp: nonempty_first_def split: list.splits)

section \<open>Properties\<close>

text \<open>
  C37: lookup after extraction.  For a request whose headers are as the HTTP server builds
  them, the attribute lookup \<^verbatim>\<open>attrs.Get(name)\<close> of the extracted attributes returns what
  \<^verbatim>\<open>Header.Get(name)\<close> returns on the request, for every header name in any case, whatever the
  order in which the header map was visited.
\<close>

theorem http_Extract_Get:
  assumes h: "canonical_header (req_header r)" and k: "list_all is_token k"
  shows "\<exists>attrs. http_Extract r = Inr attrs \<and> attrs_Get attrs k = Header_Get (req_header r) k"
proof -
  let ?h = "req_header r"
  have d: "distinct (map (ToLower \<circ> fst) ?h)" by (rule canonical_header_lower_distinct [OF h])
  have key: "(k', vs) \<in> set ?h \<and> ToLower k' = ToLower k \<longleftrightarrow> (k', vs) \<in> set ?h \<and> k' = CanonicalKey k" for k' vs
    using h k canonical_key_eq [of k k'] by (auto simp: canonical_header_def ToLower_CanonicalKey)
  have mem: "collect_headers Map.empty ?h (ToLower k) = Some v \<longleftrightarrow> (\<exists>vs. map_of ?h (CanonicalKey k) = Some (v # vs))" for v
    unfolding collect_headers_set [OF d] using h key
    by (metis (no_types, lifting) canonical_header_def map_of_eq_Some_iff)
  have "(case collect_headers Map.empty ?h (ToLower k) of Some v \<Rightarrow> v | None \<Rightarrow> []) = Header_Get ?h k"
  proof (cases "collect_headers Map.empty ?h (ToLower k)")
    case None
    with mem have "\<And>v vs. map_of ?h (CanonicalKey k) \<noteq> Some (v # vs)" by (metis option.distinct(1))
    with None show ?thesis
      by (auto simp: Header_Get_def first_value_def split: option.splits list.splits)
  next
    case (Some v)
    with mem obtain vs where "map_of ?h (CanonicalKey k) = Some (v # vs)" by blast
    with Some show ?thesis by (simp add: Header_Get_def first_value_def)
  qed
  then show ?thesis by (simp add: http_Extract_def attrs_Get_def)
qed

definition example_request :: http_request where
  "example_request = \<lparr>req_method = ''GET'', url_path = ''/api'',
     req_header = [(''X-Api-Key'', [''k1'']), (''X-User-Id'', [''u7''])],
     remote_addr = ''10.0.0.1:8080'', req_ctx = background\<rparr>"

theorem http_Extract_Get_witness:
  "\<exists>attrs. http_Extract example_request = Inr attrs \<and> attrs_Get attrs ''x-API-key'' = ''k1''"
proof -
  have "canonical_header (req_header example_request)" "list_all is_token ''x-API-key''"
    by code_simp+
  moreover have "Header_Get (req_header example_request) ''x-API-key'' = ''k1''"
    by code_simp
  ultimately show ?thesis using http_Extract_Get by metis
qed

text \<open>
  The client address of an HTTP request.  A forwarding header wins over the real-IP header, that
  over the client-IP header, and all three over the connection's address, of which the port
  is removed; of a list of forwarded addresses the first is taken, without the white space
  around it.
\<close>

theorem http_getIP_forwarded:
  assumes "Header_Get (req_header r) ''X-Forwarded-For'' = client @ rest"
    and "client \<noteq> []" and "CHR '','' \<notin> set client" and "rest = [] \<or> hd rest = CHR '',''"
  shows "http_getIP r = TrimSpace client"
proof -
  have "hd (Split (client @ rest) CHR '','') = client"
  proof (cases rest)
    case (Cons c cs)
    with assms(4) have "rest = CHR '','' # cs" by simp
    then show ?thesis using assms(3) by (simp add: Split_append_sep)
  qed (use assms(3) in \<open>simp add: Split_no_sep\<close>)
  then show ?thesis using assms(1,2) by (simp add: http_getIP_def)
qed

theorem http_getIP_forwarded_witness:
  "http_getIP (example_request\<lparr>req_header := [(''X-Forwarded-For'', ['' 1.2.3.4 , 5.6.7.8''])]\<rparr>) = ''1.2.3.4''"
proof -
  have "Header_Get (req_header (example_request\<lparr>req_header := [(''X-Forwarded-For'', ['' 1.2.3.4 , 5.6.7.8''])]\<rparr>))
      ''X-Forwarded-For'' = '' 1.2.3.4 '' @ '', 5.6.7.8''"
    by code_simp
  from http_getIP_forwarded [OF this] show ?thesis by (simp add: TrimSpace_def is_space_def)
qed

text \<open>
  Without forwarding headers, the address of a connection from \<^verbatim>\<open>host:port\<close> is \<^verbatim>\<open>host\<close>,
  also when the host itself contains colons (an IPv6 address in brackets).
\<close>

theorem http_getIP_remote:
  assumes "\<forall>k \<in> {''X-Forwarded-For'', ''X-Real-IP'', ''X-Client-IP''}. Header_Get (req_header r) k = []"
    and "remote_addr r = host @ '':'' @ digits port"
  shows "http_getIP r = host"
proof -
  have "LastIndex (remote_addr r) CHR '':'' = int (length host)"
    using LastIndex_append [of "CHR '':''" "digits port" host] by (simp add: assms(2))
  then show ?thesis using assms by (simp add: http_getIP_def remote_host_def)
qed

theorem http_getIP_remote_witness: "http_getIP example_request = ''10.0.0.1''"
proof -
  have "\<forall>k \<in> {''X-Forwarded-For'', ''X-Real-IP'', ''X-Client-IP''}. Header_Get (req_header example_request) k = []"
    by code_simp
  moreover have "remote_addr example_request = ''10.0.0.1'' @ '':'' @ digits 8080"
    by (simp add: example_request_def digits.simps digit_chars)
  ultimately show ?thesis by (rule http_getIP_remote)
qed

end
