(* ===== verification/Rate_Limit.thy ===== *)
theory Rate_Limit
  imports Token_Bucket Attributes
begin

text \<open>
  The multi-level rate limiter (\<^verbatim>\<open>ratelimit/multi.go\<close>), its gRPC interceptor
  (\<^verbatim>\<open>ratelimit/grpc.go\<close>) and its HTTP middleware (\<^verbatim>\<open>ratelimit/http.go\<close>).  The Redis client and
  \<^verbatim>\<open>redis_rate\<close> are not part of the repository: the record \<open>redis_api\<close> holds the calls the
  limiter makes to them, over an arbitrary state \<open>'r\<close> of the Redis server and an arbitrary type
  \<open>'lim\<close> of limits.
\<close>

section \<open>Data\<close>

record RateLimitLevel =
  lv_Name :: string
  lv_MaxRequests :: int
  lv_KeyAttributes :: "string list"
  lv_BurstSize :: int

record MultiLevelRule =
  ru_Name :: string
  ru_PathPatterns :: "string list"
  ru_Levels :: "RateLimitLevel list"

record 'lim CompiledLevel =
  cl_Name :: string
  cl_MaxRequests :: int
  cl_KeyAttributes :: "string list"
  cl_BurstSize :: int
  cl_rate :: 'lim
  limiters :: "string \<rightharpoonup> TokenBucket"

record 'lim CompiledRule =
  cr_Name :: string
  cr_PathPatterns :: "string list"
  cr_Levels :: "'lim CompiledLevel list"

record 'lim MultiLevelLimiter =
  rules :: "'lim CompiledRule list"
  redis_client :: bool
  useRedis :: bool

record ('lim, 'r) redis_api =
  PerMinute :: "int \<Rightarrow> 'lim"
  Allow :: "go_ctx \<Rightarrow> string \<Rightarrow> 'lim \<Rightarrow> 'r \<Rightarrow> int res \<times> 'r"
  Del :: "go_ctx \<Rightarrow> string \<Rightarrow> 'r \<Rightarrow> gerror option \<times> 'r"
  CloseClient :: "'r \<Rightarrow> gerror option \<times> 'r"

text \<open>What a call can change besides the limiter: the clock's position and the Redis server.\<close>

record 'r world =
  wclock :: clock
  wredis :: 'r

section \<open>Construction\<close>

definition compileLevel :: "('lim, 'r) redis_api \<Rightarrow> RateLimitLevel \<Rightarrow> 'lim CompiledLevel" where
  "compileLevel api level =
     \<lparr>cl_Name = lv_Name level, cl_MaxRequests = lv_MaxRequests level,
      cl_KeyAttributes = lv_KeyAttributes level, cl_BurstSize = lv_BurstSize level,
      cl_rate = PerMinute api (lv_MaxRequests level), limiters = Map.empty\<rparr>"

definition compileMultiLevelRule :: "('lim, 'r) redis_api \<Rightarrow> MultiLevelRule \<Rightarrow> 'lim CompiledRule res" where
  "compileMultiLevelRule api rule =
     Inr \<lparr>cr_Name = ru_Name rule, cr_PathPatterns = ru_PathPatterns rule,
          cr_Levels = map (compileLevel api) (ru_Levels rule)\<rparr>"

fun compile_rules :: "('lim, 'r) redis_api \<Rightarrow> MultiLevelRule list \<Rightarrow> 'lim CompiledRule list res" where
  "compile_rules api [] = Inr []"
| "compile_rules api (r # rs) =
     (case compileMultiLevelRule api r of
        Inl e \<Rightarrow> Inl (Wrapf (''failed to compile rule '' @ ru_Name r @ '': '') e)
      | Inr c \<Rightarrow> res_bind (compile_rules api rs) (\<lambda>cs. Inr (c # cs)))"

definition newMultiLevelLimiter ::
  "('lim, 'r) redis_api \<Rightarrow> MultiLevelRule list \<Rightarrow> bool \<Rightarrow> bool \<Rightarrow> 'lim MultiLevelLimiter res" where
  "newMultiLevelLimiter api config client use =
     res_bind (compile_rules api config)
       (\<lambda>cs. Inr \<lparr>rules = cs, redis_client = client, useRedis = use\<rparr>)"

definition NewMultiLevelLimiter :: "('lim, 'r) redis_api \<Rightarrow> MultiLevelRule list \<Rightarrow> 'lim MultiLevelLimiter res" where
  "NewMultiLevelLimiter api config = newMultiLevelLimiter api config False False"

definition NewMultiLevelLimiterWithRedis ::
  "('lim, 'r) redis_api \<Rightarrow> MultiLevelRule list \<Rightarrow> bool \<Rightarrow> 'lim MultiLevelLimiter res" where
  "NewMultiLevelLimiterWithRedis api config client =
     (if \<not> client then Inl (Errorf ''redis client cannot be nil'')
      else newMultiLevelLimiter api config client True)"

section \<open>Keys\<close>

definition attr_value :: "RequestAttributes \<Rightarrow> string \<Rightarrow> string" where
  "attr_value attrs attr =
     (let a = ToLower attr
      in if a = ''ip'' then IP attrs
         else if a = ''user_id'' then UserID attrs
         else if a = ''staff_id'' then StaffID attrs
         else if a = ''device_id'' then DeviceID attrs
         else if a = ''global'' then ''global''
         else attrs_Get attrs attr)"

definition key_parts :: "RequestAttributes \<Rightarrow> string list \<Rightarrow> string list" where
  "key_parts attrs keyAttributes = filter (\<lambda>v. v \<noteq> []) (map (attr_value attrs) keyAttributes)"

definition generateLevelKey :: "string \<Rightarrow> string \<Rightarrow> RequestAttributes \<Rightarrow> string list \<Rightarrow> string" where
  "generateLevelKey ruleName levelName attrs keyAttributes =
     (let keyParts = key_parts attrs keyAttributes
      in if keyParts = [] then ruleName @ '':'' @ levelName @ '':default''
         else ruleName @ '':'' @ levelName @ '':'' @ Join keyParts '':'')"

section \<open>Checks\<close>

definition exceeded :: "string \<Rightarrow> string \<Rightarrow> gerror" where
  "exceeded level key =
     Errorf (''rate limit exceeded for level '' @ [CHR 0x27] @ level @ [CHR 0x27] @ '' with key: '' @ key)"

definition ratePerSecond :: "int \<Rightarrow> rat" where
  "ratePerSecond maxRequests = fl64 (fl64 (of_int maxRequests) / 60)"

definition get_bucket ::
  "clock \<Rightarrow> 'lim CompiledLevel \<Rightarrow> string \<Rightarrow> TokenBucket \<times> 'lim CompiledLevel \<times> clock" where
  "get_bucket clk level key =
     (case limiters level key of
        Some tb \<Rightarrow> (tb, level, clk)
      | None \<Rightarrow>
          (let (tb, clk') = NewTokenBucket clk (cl_BurstSize level) (ratePerSecond (cl_MaxRequests level))
           in (tb, level\<lparr>limiters := (limiters level)(key \<mapsto> tb)\<rparr>, clk')))"

definition checkLevelWithMemory ::
  "(rat \<Rightarrow> int) \<Rightarrow> clock \<Rightarrow> 'lim CompiledLevel \<Rightarrow> string \<Rightarrow> gerror option \<times> 'lim CompiledLevel \<times> clock" where
  "checkLevelWithMemory oob clk level key =
     (let (limiter, level', clk') = get_bucket clk level key;
          (ok, limiter', clk'') = Take oob clk' limiter
      in (if ok then None else Some (exceeded (cl_Name level) key),
          level'\<lparr>limiters := (limiters level')(key \<mapsto> limiter')\<rparr>, clk''))"

definition redis_key :: "string \<Rightarrow> string" where
  "redis_key key = ''ratelimit:multilevel:'' @ key"

definition checkLevelWithRedis ::
  "('lim, 'r) redis_api \<Rightarrow> go_ctx \<Rightarrow> 'r \<Rightarrow> 'lim CompiledLevel \<Rightarrow> string \<Rightarrow> gerror option \<times> 'r" where
  "checkLevelWithRedis api ctx r level key =
     (case Allow api ctx (redis_key key) (cl_rate level) r of
        (Inl _, r') \<Rightarrow> (None, r')
      | (Inr allowed, r') \<Rightarrow>
          (if allowed = 0 then (Some (exceeded (cl_Name level) key), r') else (None, r')))"

definition checkLevel ::
  "('lim, 'r) redis_api \<Rightarrow> (rat \<Rightarrow> int) \<Rightarrow> bool \<Rightarrow> go_ctx \<Rightarrow> string \<Rightarrow> RequestAttributes
    \<Rightarrow> 'lim CompiledLevel \<Rightarrow> 'r world \<Rightarrow> gerror option \<times> 'lim CompiledLevel \<times> 'r world" where
  "checkLevel api oob use ctx ruleName attrs level w =
     (let key = generateLevelKey ruleName (cl_Name level) attrs (cl_KeyAttributes level)
      in if key = [] then (None, level, w)
         else if use then
           (let (e, r') = checkLevelWithRedis api ctx (wredis w) level key in (e, level, w\<lparr>wredis := r'\<rparr>))
         else
           (let (e, level', clk') = checkLevelWithMemory oob (wclock w) level key
            in (e, level', w\<lparr>wclock := clk'\<rparr>)))"

text \<open>The loop over the levels of the matching rule: it stops at the first error.\<close>

fun check_levels ::
  "('lim, 'r) redis_api \<Rightarrow> (rat \<Rightarrow> int) \<Rightarrow> bool \<Rightarrow> go_ctx \<Rightarrow> string \<Rightarrow> RequestAttributes
    \<Rightarrow> 'lim CompiledLevel list \<Rightarrow> 'r world \<Rightarrow> gerror option \<times> 'lim CompiledLevel list \<times> 'r world" where
  "check_levels api oob use ctx ruleName attrs [] w = (None, [], w)"
| "check_levels api oob use ctx ruleName attrs (l # ls) w =
     (case checkLevel api oob use ctx ruleName attrs l w of
        (Some e, l', w') \<Rightarrow> (Some e, l' # ls, w')
      | (None, l', w') \<Rightarrow>
          (let (e, ls', w'') = check_levels api oob use ctx ruleName attrs ls w' in (e, l' # ls', w'')))"

definition pattern_matches :: "string \<Rightarrow> string \<Rightarrow> bool" where
  "pattern_matches path pattern \<longleftrightarrow> Contains path pattern \<or> pattern = ''*''"

definition rule_matches :: "string \<Rightarrow> 'lim CompiledRule \<Rightarrow> bool" where
  "rule_matches path rule \<longleftrightarrow> list_ex (pattern_matches path) (cr_PathPatterns rule)"

text \<open>The search for the matching rule and, at the first match, the check of its levels.\<close>

fun limit_rules ::
  "('lim, 'r) redis_api \<Rightarrow> (rat \<Rightarrow> int) \<Rightarrow> bool \<Rightarrow> go_ctx \<Rightarrow> RequestAttributes
    \<Rightarrow> 'lim CompiledRule list \<Rightarrow> 'r world \<Rightarrow> gerror option \<times> 'lim CompiledRule list \<times> 'r world" where
  "limit_rules api oob use ctx attrs [] w = (None, [], w)"
| "limit_rules api oob use ctx attrs (r # rs) w =
     (if rule_matches (Path attrs) r
      then (let (e, ls, w') = check_levels api oob use ctx (cr_Name r) attrs (cr_Levels r) w
            in (e, r\<lparr>cr_Levels := ls\<rparr> # rs, w'))
      else (let (e, rs', w') = limit_rules api oob use ctx attrs rs w in (e, r # rs', w')))"

definition Limit ::
  "('lim, 'r) redis_api \<Rightarrow> (rat \<Rightarrow> int) \<Rightarrow> 'lim MultiLevelLimiter \<times> 'r world \<Rightarrow> go_ctx
    \<Rightarrow> gerror option \<times> 'lim MultiLevelLimiter \<times> 'r world" where
  "Limit api oob st ctx =
     (case GetFromContext ctx of
        None \<Rightarrow> (None, st)
      | Some attrs \<Rightarrow>
          (let (mll, w) = st;
               (e, rs', w') = limit_rules api oob (useRedis mll) ctx attrs (rules mll) w
           in (e, mll\<lparr>rules := rs'\<rparr>, w')))"

definition ResetLevelRateLimit ::
  "('lim, 'r) redis_api \<Rightarrow> 'lim MultiLevelLimiter \<Rightarrow> go_ctx \<Rightarrow> string \<Rightarrow> string \<Rightarrow> string \<Rightarrow> 'r
    \<Rightarrow> gerror option \<times> 'r" where
  "ResetLevelRateLimit api mll ctx ruleName levelName key r =
     (if \<not> useRedis mll
      then (Some (Errorf ''reset rate limit is only available for Redis-based limiters''), r)
      else Del api ctx (''ratelimit:multilevel:'' @ ruleName @ '':'' @ levelName @ '':'' @ key) r)"

definition mll_Close :: "('lim, 'r) redis_api \<Rightarrow> 'lim MultiLevelLimiter \<Rightarrow> 'r \<Rightarrow> gerror option \<times> 'r" where
  "mll_Close api mll r = (if useRedis mll \<and> redis_client mll then CloseClient api r else (None, r))"

definition IsRedisEnabled :: "'lim MultiLevelLimiter \<Rightarrow> bool" where
  "IsRedisEnabled mll = useRedis mll"

section \<open>Interceptor and middleware\<close>

text \<open>
  Both take the \<^verbatim>\<open>Limiter\<close> interface: a function \<open>limit\<close> on the state of the process, on which the protected
  handler works too; the handler of the interceptor may panic.  \<open>Limit_in\<close> is the limiter above in a process with more state.
\<close>

definition Limit_in :: "('lim, 'r) redis_api \<Rightarrow> (rat \<Rightarrow> int) \<Rightarrow> go_ctx \<Rightarrow> ('lim MultiLevelLimiter \<times> 'r world) \<times> 'h
    \<Rightarrow> gerror option \<times> ('lim MultiLevelLimiter \<times> 'r world) \<times> 'h" where
  "Limit_in api oob ctx w = (let (err, st) = Limit api oob (fst w) ctx in (err, (st, snd w)))"

definition ResourceExhausted :: nat where
  "ResourceExhausted = 8"

definition UnaryServerInterceptor ::
  "(go_ctx \<Rightarrow> 'w \<Rightarrow> gerror option \<times> 'w) \<Rightarrow> go_ctx \<Rightarrow> 'req \<Rightarrow> string \<Rightarrow> (go_ctx \<Rightarrow> 'req \<Rightarrow> 'w \<Rightarrow> 'a outcome \<times> 'w)
    \<Rightarrow> 'w \<Rightarrow> 'a outcome \<times> 'w" where
  "UnaryServerInterceptor limit ctx rq fullMethod handler w =
     (case limit ctx w of
        (Some err, w') \<Rightarrow>
          (Returns (Inl (StatusError ResourceExhausted
             (fullMethod @ '' is rejected by grpc_ratelimit middleware, please retry later. '' @ err_msg err))), w')
      | (None, w') \<Rightarrow> handler ctx rq w')"

record http_response =
  resp_status :: int
  resp_body :: string

definition StatusTooManyRequests :: int where
  "StatusTooManyRequests = 429"

definition HTTPMiddleware ::
  "(go_ctx \<Rightarrow> 'w \<Rightarrow> gerror option \<times> 'w) \<Rightarrow> (http_request \<Rightarrow> 'w \<Rightarrow> http_response \<times> 'w)
    \<Rightarrow> http_request \<Rightarrow> 'w \<Rightarrow> http_response \<times> 'w" where
  "HTTPMiddleware limit next r w =
     (let ctx = req_ctx r
      in case limit ctx w of
           (Some _, w') \<Rightarrow>
             (\<lparr>resp_status = StatusTooManyRequests, resp_body = ''Rate limit exceeded'' @ [CHR 0x0A]\<rparr>, w')
         | (None, w') \<Rightarrow> next (r\<lparr>req_ctx := ctx\<rparr>) w')"

section \<open>One level, one key\<close>

definition level_size_ok :: "'lim CompiledLevel \<Rightarrow> bool" where
  "level_size_ok level \<longleftrightarrow> 0 \<le> cl_MaxRequests level \<and> cl_MaxRequests level \<le> 60000000
     \<and> 0 \<le> cl_BurstSize level \<and> cl_BurstSize level < 2 ^ 62"

definition bucket_of :: "'lim CompiledLevel \<Rightarrow> TokenBucket \<Rightarrow> bool" where
  "bucket_of level tb \<longleftrightarrow> bucket_inv tb \<and> capacity tb = cl_BurstSize level
     \<and> rate tb = ratePerSecond (cl_MaxRequests level)"

definition key_inv :: "string \<Rightarrow> 'lim CompiledLevel \<Rightarrow> bool" where
  "key_inv k level \<longleftrightarrow> level_size_ok level \<and> (\<forall>tb. limiters level k = Some tb \<longrightarrow> bucket_of level tb)"

definition level_gain :: "'lim CompiledLevel \<Rightarrow> rat" where
  "level_gain level = (1 + eps64) ^ 3 * ratePerSecond (cl_MaxRequests level) / 1000000000"

text \<open>One request to a level: its key and the two times a new key reads from the clock.\<close>

definition two_reads :: "nanos \<Rightarrow> nanos \<Rightarrow> clock" where
  "two_reads a b = \<lparr>ticks = (\<lambda>n. if n = 0 then a else b), pos = 0\<rparr>"

definition level_req ::
  "(rat \<Rightarrow> int) \<Rightarrow> string \<Rightarrow> 'lim CompiledLevel \<Rightarrow> string \<times> nanos \<times> nanos \<Rightarrow> bool \<times> 'lim CompiledLevel" where
  "level_req oob k level i =
     (let (key, a, b) = i; (e, level', clk') = checkLevelWithMemory oob (two_reads a b) level key
      in (e = None \<and> key = k, level'))"

definition since_key :: "string \<Rightarrow> int \<Rightarrow> 'lim CompiledLevel \<Rightarrow> int" where
  "since_key k t0 level = (case limiters level k of Some tb \<Rightarrow> lastRefill tb | None \<Rightarrow> t0)"

definition credit_key :: "string \<Rightarrow> 'lim CompiledLevel \<Rightarrow> rat" where
  "credit_key k level = (case limiters level k of Some tb \<Rightarrow> of_int (tokens tb) | None \<Rightarrow> of_int (cl_BurstSize level))"

lemma ratePerSecond_bounds:
  assumes "0 \<le> m" "m \<le> 60000000"
  shows "0 \<le> ratePerSecond m" "ratePerSecond m \<le> 2 ^ 20"
proof -
  have m: "fl64 (of_int m) = of_int m" using assms by (intro fl64_of_int) simp
  show "0 \<le> ratePerSecond m" using assms by (simp add: ratePerSecond_def)
  have "ratePerSecond m \<le> (1 + eps64) * (of_int m / 60)"
    using fl64_upper [of "of_int m / 60"] assms by (simp add: ratePerSecond_def m)
  also have "\<dots> \<le> (1 + eps64) * 1000000"
    using assms eps64_pos by (intro mult_left_mono) simp_all
  also have "\<dots> \<le> 2 ^ 20" by (simp add: eps64_def)
  finally show "ratePerSecond m \<le> 2 ^ 20" .
qed

definition new_bucket :: "'lim CompiledLevel \<Rightarrow> nanos \<Rightarrow> TokenBucket" where
  "new_bucket level now = \<lparr>tokens = cl_BurstSize level, capacity = cl_BurstSize level,
     rate = ratePerSecond (cl_MaxRequests level), lastRefill = now\<rparr>"

lemma bucket_of_new: "level_size_ok level \<Longrightarrow> bucket_of level (new_bucket level now)"
  using ratePerSecond_bounds [of "cl_MaxRequests level"]
  by (simp add: bucket_of_def new_bucket_def bucket_inv_def bucket_size_ok_def level_size_ok_def)

lemma new_bucket_simps [simp]:
  "tokens (new_bucket level now) = cl_BurstSize level"
  "lastRefill (new_bucket level now) = now"
  by (simp_all add: new_bucket_def)

text \<open>The bucket a check works on and the time of its \<^verbatim>\<open>Take\<close>.\<close>

definition check_bucket :: "clock \<Rightarrow> 'lim CompiledLevel \<Rightarrow> string \<Rightarrow> TokenBucket \<times> nanos \<times> clock" where
  "check_bucket clk level key =
     (case limiters level key of
        Some tb \<Rightarrow> (tb, ticks clk (pos clk), clk\<lparr>pos := Suc (pos clk)\<rparr>)
      | None \<Rightarrow> (new_bucket level (ticks clk (pos clk)), ticks clk (Suc (pos clk)),
                 clk\<lparr>pos := Suc (Suc (pos clk))\<rparr>))"

lemma checkLevelWithMemory_eq:
  "checkLevelWithMemory oob clk level key =
     (case check_bucket clk level key of (tb, now, clk') \<Rightarrow>
        (if fst (Take_at oob tb now) then None else Some (exceeded (cl_Name level) key),
         level\<lparr>limiters := (limiters level)(key \<mapsto> snd (Take_at oob tb now))\<rparr>, clk'))"
  by (auto simp: checkLevelWithMemory_def get_bucket_def check_bucket_def Take_def NewTokenBucket_def
      new_bucket_def time_Now_def Let_def split: option.splits prod.splits)

lemma level_req_eq:
  "level_req oob k level (key, a, b) =
     (case check_bucket (two_reads a b) level key of (tb, now, clk') \<Rightarrow>
        (fst (Take_at oob tb now) \<and> key = k,
         level\<lparr>limiters := (limiters level)(key \<mapsto> snd (Take_at oob tb now))\<rparr>))"
  by (auto simp: level_req_def checkLevelWithMemory_eq split: prod.splits)

lemma check_bucket_two_reads:
  assumes "key_inv k level" "since_key k t0 level \<le> a" "a \<le> b"
  obtains tb now clk' where "check_bucket (two_reads a b) level k = (tb, now, clk')"
    and "bucket_of level tb" "lastRefill tb \<le> now" "since_key k t0 level \<le> lastRefill tb" "now \<le> b"
    and "of_int (tokens tb) = credit_key k level"
proof (cases "limiters level k")
  case None
  with assms show ?thesis
    by (intro that [of "new_bucket level a" b])
      (auto simp: check_bucket_def two_reads_def key_inv_def bucket_of_new since_key_def credit_key_def)
next
  case (Some tb)
  with assms show ?thesis
    by (intro that [of tb a])
      (auto simp: check_bucket_def two_reads_def key_inv_def since_key_def credit_key_def)
qed

lemma bucket_of_Take_at:
  assumes "bucket_of level tb" "lastRefill tb \<le> now"
  shows "bucket_of level (snd (Take_at oob tb now))"
  using assms Take_at_inv by (simp add: bucket_of_def)

lemma bucket_of_frame [simp]: "bucket_of (level\<lparr>limiters := m\<rparr>) = bucket_of level"
  "level_size_ok (level\<lparr>limiters := m\<rparr>) = level_size_ok level"
  "level_gain (level\<lparr>limiters := m\<rparr>) = level_gain level"
  by (simp_all add: bucket_of_def level_size_ok_def level_gain_def fun_eq_iff)

lemma level_req_other:
  assumes "key \<noteq> k"
  shows "\<not> fst (level_req oob k level (key, a, b))"
    "limiters (snd (level_req oob k level (key, a, b))) k = limiters level k"
    "cl_BurstSize (snd (level_req oob k level (key, a, b))) = cl_BurstSize level"
    "key_inv k (snd (level_req oob k level (key, a, b))) = key_inv k level"
  using assms by (auto simp: level_req_eq key_inv_def split: prod.splits)

lemma level_gain_req: "level_gain (snd (level_req oob k level i)) = level_gain level"
  by (cases i) (auto simp: level_req_eq split: prod.splits)

lemma level_req_same:
  assumes inv: "key_inv k s" and le: "since_key k t0 s \<le> a" "a \<le> b"
  obtains ok tb' where "level_req oob k s (k, a, b) = (ok, s\<lparr>limiters := (limiters s)(k \<mapsto> tb')\<rparr>)"
    and "bucket_of s tb'" "since_key k t0 s \<le> lastRefill tb'" "lastRefill tb' \<le> b"
    and "of_bool ok + of_int (tokens tb') \<le> credit_key k s + level_gain s * of_int (lastRefill tb' - since_key k t0 s)"
proof -
  obtain tb now clk' where c: "check_bucket (two_reads a b) s k = (tb, now, clk')"
    and tb: "bucket_of s tb" "lastRefill tb \<le> now" "since_key k t0 s \<le> lastRefill tb" "now \<le> b"
    and cr: "of_int (tokens tb) = credit_key k s"
    using assms by (rule check_bucket_two_reads)
  define tb' where "tb' = snd (Take_at oob tb now)"
  have inv_tb: "bucket_inv tb" using tb(1) by (simp add: bucket_of_def)
  have since: "lastRefill tb \<le> lastRefill tb'" "lastRefill tb' \<le> now"
    using tb.since_req [OF inv_tb refl] tb(2) by (simp_all add: tb'_def)
  have gain: "bucket_gain tb = level_gain s"
    using tb(1) by (simp add: bucket_of_def bucket_gain_def level_gain_def)
  have "of_bool (fst (Take_at oob tb now)) + of_int (tokens tb')
      \<le> credit_key k s + level_gain s * of_int (lastRefill tb' - lastRefill tb)"
    using tb.pay [OF inv_tb refl, of now oob] tb(2) cr by (simp add: gain tb'_def)
  moreover have "level_gain s * of_int (lastRefill tb' - lastRefill tb)
      \<le> level_gain s * of_int (lastRefill tb' - since_key k t0 s)"
    using tb(3) tb.gain_nonneg [OF inv_tb] by (intro mult_left_mono) (simp_all add: gain)
  ultimately have "of_bool (fst (Take_at oob tb now)) + of_int (tokens tb')
      \<le> credit_key k s + level_gain s * of_int (lastRefill tb' - since_key k t0 s)" by linarith
  moreover have "level_req oob k s (k, a, b) = (fst (Take_at oob tb now), s\<lparr>limiters := (limiters s)(k \<mapsto> tb')\<rparr>)"
    by (simp add: level_req_eq c tb'_def)
  ultimately show ?thesis
    using tb since bucket_of_Take_at [OF tb(1,2), of oob] by (intro that) (auto simp: tb'_def)
qed

lemma key_credit_nonneg: "key_inv k s \<Longrightarrow> 0 \<le> credit_key k s"
  by (auto simp: key_inv_def credit_key_def bucket_of_def bucket_inv_def level_size_ok_def split: option.splits)

lemma level_gain_nonneg: "key_inv k s \<Longrightarrow> 0 \<le> level_gain s"
  using ratePerSecond_bounds [of "cl_MaxRequests s"] eps64_pos
  by (simp add: key_inv_def level_size_ok_def level_gain_def)

interpretation lvl: metered "level_req oob k" "\<lambda>(key, a, b). (a, b)" "key_inv k" "since_key k t0" "credit_key k" level_gain
  for oob :: "rat \<Rightarrow> int" and k :: string and t0 :: int
proof unfold_locales
  fix s :: "'a CompiledLevel" and i :: "string \<times> nanos \<times> nanos" and a b :: int
  assume inv: "key_inv k s" and sp: "(case i of (key, a, b) \<Rightarrow> (a, b)) = (a, b)"
    and le: "since_key k t0 s \<le> a" "a \<le> b"
  obtain key where i: "i = (key, a, b)" using sp by (cases i) auto
  have "key_inv k (snd (level_req oob k s i))
      \<and> since_key k t0 s \<le> since_key k t0 (snd (level_req oob k s i))
      \<and> since_key k t0 (snd (level_req oob k s i)) \<le> b
      \<and> of_bool (fst (level_req oob k s i)) + credit_key k (snd (level_req oob k s i))
        \<le> credit_key k s + level_gain s * of_int (since_key k t0 (snd (level_req oob k s i)) - since_key k t0 s)"
  proof (cases "key = k")
    case True
    obtain ok tb' where r: "level_req oob k s (k, a, b) = (ok, s\<lparr>limiters := (limiters s)(k \<mapsto> tb')\<rparr>)"
      and tb': "bucket_of s tb'" "since_key k t0 s \<le> lastRefill tb'" "lastRefill tb' \<le> b"
      and p: "of_bool ok + of_int (tokens tb') \<le> credit_key k s + level_gain s * of_int (lastRefill tb' - since_key k t0 s)"
      using inv le by (rule level_req_same)
    have s': "since_key k t0 (s\<lparr>limiters := (limiters s)(k \<mapsto> tb')\<rparr>) = lastRefill tb'"
      "credit_key k (s\<lparr>limiters := (limiters s)(k \<mapsto> tb')\<rparr>) = of_int (tokens tb')"
      by (simp_all add: since_key_def credit_key_def)
    show ?thesis using inv tb' p by (simp add: i True r s' key_inv_def)
  next
    case False
    have "since_key k t0 (snd (level_req oob k s i)) = since_key k t0 s"
      "credit_key k (snd (level_req oob k s i)) = credit_key k s"
      using level_req_other [OF False, of oob s a b] by (simp_all add: i since_key_def credit_key_def split: option.split)
    with level_req_other [OF False, of oob s a b] inv le show ?thesis by (simp add: i)
  qed
  then show "key_inv k (snd (level_req oob k s i))"
    "since_key k t0 s \<le> since_key k t0 (snd (level_req oob k s i)) \<and> since_key k t0 (snd (level_req oob k s i)) \<le> b"
    "of_bool (fst (level_req oob k s i)) + credit_key k (snd (level_req oob k s i))
        \<le> credit_key k s + level_gain s * of_int (since_key k t0 (snd (level_req oob k s i)) - since_key k t0 s)"
    by blast+
qed (simp_all add: key_credit_nonneg level_gain_nonneg level_gain_req)

section \<open>The whole limiter\<close>

text \<open>
  The invariant of a limiter together with its world: every bucket is one its level made and
  was refilled no later than the time the clock shows next.
\<close>

definition level_inv :: "nanos \<Rightarrow> 'lim CompiledLevel \<Rightarrow> bool" where
  "level_inv now level \<longleftrightarrow> level_size_ok level
     \<and> (\<forall>k tb. limiters level k = Some tb \<longrightarrow> bucket_of level tb \<and> lastRefill tb \<le> now)"

definition wnow :: "'r world \<Rightarrow> nanos" where
  "wnow w = ticks (wclock w) (pos (wclock w))"

definition limiter_inv :: "'lim MultiLevelLimiter \<times> 'r world \<Rightarrow> bool" where
  "limiter_inv st \<longleftrightarrow> clock_mono (wclock (snd st))
     \<and> (\<forall>r \<in> set (rules (fst st)). \<forall>l \<in> set (cr_Levels r). level_inv (wnow (snd st)) l)"

lemma level_inv_mono: "level_inv t l \<Longrightarrow> t \<le> t' \<Longrightarrow> level_inv t' l"
  by (fastforce simp: level_inv_def)

lemma checkLevelWithMemory_inv:
  assumes "clock_mono clk" "level_inv (ticks clk (pos clk)) level"
    "checkLevelWithMemory oob clk level key = (e, level', clk')"
  shows "ticks clk' = ticks clk" "pos clk \<le> pos clk'" "level_inv (ticks clk (pos clk')) level'"
proof -
  obtain tb now clk'' where c: "check_bucket clk level key = (tb, now, clk'')"
    using prod_cases3 by blast
  have step: "ticks clk n \<le> ticks clk (Suc n)" for n
    using assms(1) by (simp add: clock_mono_def mono_def)
  have clk: "ticks clk' = ticks clk" "pos clk \<le> pos clk'" "now \<le> ticks clk (pos clk')"
    "bucket_of level tb" "lastRefill tb \<le> now"
    using assms c step [of "Suc (pos clk)"] step [of "pos clk"]
    by (auto simp: checkLevelWithMemory_eq check_bucket_def level_inv_def bucket_of_new split: option.splits)
  show "ticks clk' = ticks clk" "pos clk \<le> pos clk'" by fact+
  have "ticks clk (pos clk) \<le> ticks clk (pos clk')"
    using clk(2) assms(1) by (simp add: clock_mono_def mono_def)
  then have old: "level_inv (ticks clk (pos clk')) level" using assms(2) by (rule level_inv_mono [rotated])
  have "lastRefill (snd (Take_at oob tb now)) \<le> ticks clk (pos clk')"
    using clk by (auto simp: Take_at_lastRefill)
  moreover have "level' = level\<lparr>limiters := (limiters level)(key \<mapsto> snd (Take_at oob tb now))\<rparr>"
    using assms(3) c by (simp add: checkLevelWithMemory_eq)
  ultimately show "level_inv (ticks clk (pos clk')) level'"
    using old bucket_of_Take_at [OF clk(4,5)] by (auto simp: level_inv_def)
qed

text \<open>A check never sets the clock back and keeps the invariant of the level it is made on.\<close>

definition later :: "'r world \<Rightarrow> 'r world \<Rightarrow> bool" where
  "later w w' \<longleftrightarrow> ticks (wclock w') = ticks (wclock w) \<and> pos (wclock w) \<le> pos (wclock w')"

lemma later_refl [simp]: "later w w" and later_trans: "later w w' \<Longrightarrow> later w' w'' \<Longrightarrow> later w w''"
  by (auto simp: later_def)

lemma later_wnow: "clock_mono (wclock w) \<Longrightarrow> later w w' \<Longrightarrow> clock_mono (wclock w') \<and> wnow w \<le> wnow w'"
  by (simp add: later_def wnow_def clock_mono_def mono_def)

lemma level_inv_later:
  "clock_mono (wclock w) \<Longrightarrow> later w w' \<Longrightarrow> level_inv (wnow w) l \<Longrightarrow> level_inv (wnow w') l"
  using later_wnow level_inv_mono by blast

lemma checkLevel_inv [go_inv]:
  assumes "clock_mono (wclock w)" "level_inv (wnow w) l"
    "checkLevel api oob use ctx rn attrs l w = (e, l', w')"
  shows "later w w' \<and> level_inv (wnow w') l'"
proof (cases use)
  case True
  with assms show ?thesis
    by (auto simp: checkLevel_def Let_def later_def wnow_def split: if_splits prod.splits)
next
  case False
  define key where "key = generateLevelKey rn (cl_Name l) attrs (cl_KeyAttributes l)"
  obtain e1 l1 clk1 where c: "checkLevelWithMemory oob (wclock w) l key = (e1, l1, clk1)"
    using prod_cases3 by blast
  have "ticks clk1 = ticks (wclock w)" "pos (wclock w) \<le> pos clk1" "level_inv (ticks (wclock w) (pos clk1)) l1"
    using checkLevelWithMemory_inv [OF assms(1) _ c] assms(2) by (simp_all add: wnow_def)
  with False assms c show ?thesis
    by (cases "key = []") (auto simp: checkLevel_def key_def [symmetric] later_def wnow_def)
qed

lemma check_levels_inv [go_inv]:
  "clock_mono (wclock w) \<Longrightarrow> \<forall>l \<in> set ls. level_inv (wnow w) l \<Longrightarrow>
   check_levels api oob use ctx rn attrs ls w = (e, ls', w') \<Longrightarrow>
   later w w' \<and> (\<forall>l \<in> set ls'. level_inv (wnow w') l)"
proof (induction ls arbitrary: w e ls' w')
  case (Cons l ls)
  obtain e1 l1 w1 where c: "checkLevel api oob use ctx rn attrs l w = (e1, l1, w1)"
    using prod_cases3 by blast
  have l1: "later w w1" "level_inv (wnow w1) l1"
    using checkLevel_inv [OF Cons.prems(1) _ c] Cons.prems(2) by simp_all
  have w1: "clock_mono (wclock w1)" "wnow w \<le> wnow w1"
    using later_wnow [OF Cons.prems(1) l1(1)] by simp_all
  then have ls: "\<forall>l \<in> set ls. level_inv (wnow w1) l"
    using Cons.prems(2) level_inv_mono by (metis list.set_intros(2))
  show ?case
  proof (cases e1)
    case (Some x)
    with Cons.prems(3) c l1 ls show ?thesis by auto
  next
    case None
    obtain e2 ls2 w2 where r: "check_levels api oob use ctx rn attrs ls w1 = (e2, ls2, w2)"
      using prod_cases3 by blast
    have "later w1 w2" "\<forall>l \<in> set ls2. level_inv (wnow w2) l"
      using Cons.IH [OF w1(1) ls r] by simp_all
    moreover have "level_inv (wnow w2) l1"
      using level_inv_later [OF w1(1) _ l1(2)] \<open>later w1 w2\<close> by simp
    ultimately show ?thesis
      using None Cons.prems(3) c r l1 by (auto intro: later_trans)
  qed
qed simp

lemma limit_rules_inv [go_inv]:
  "clock_mono (wclock w) \<Longrightarrow> \<forall>r \<in> set rs. \<forall>l \<in> set (cr_Levels r). level_inv (wnow w) l \<Longrightarrow>
   limit_rules api oob use ctx attrs rs w = (e, rs', w') \<Longrightarrow>
   later w w' \<and> (\<forall>r \<in> set rs'. \<forall>l \<in> set (cr_Levels r). level_inv (wnow w') l)"
proof (induction rs arbitrary: e rs' w')
  case (Cons r rs)
  show ?case
  proof (cases "rule_matches (Path attrs) r")
    case True
    obtain e1 ls1 w1 where c: "check_levels api oob use ctx (cr_Name r) attrs (cr_Levels r) w = (e1, ls1, w1)"
      using prod_cases3 by blast
    have "later w w1" "\<forall>l \<in> set ls1. level_inv (wnow w1) l"
      using check_levels_inv [OF Cons.prems(1) _ c] Cons.prems(2) by simp_all
    moreover have "\<forall>r \<in> set rs. \<forall>l \<in> set (cr_Levels r). level_inv (wnow w1) l"
      using level_inv_later [OF Cons.prems(1) \<open>later w w1\<close>] Cons.prems(2) by (meson list.set_intros(2))
    ultimately show ?thesis using Cons.prems(3) c True by auto
  next
    case False
    obtain e1 rs1 w1 where c: "limit_rules api oob use ctx attrs rs w = (e1, rs1, w1)"
      using prod_cases3 by blast
    have "later w w1" "\<forall>r \<in> set rs1. \<forall>l \<in> set (cr_Levels r). level_inv (wnow w1) l"
      using Cons.IH [OF Cons.prems(1) _ c] Cons.prems(2) by simp_all
    moreover have "\<forall>l \<in> set (cr_Levels r). level_inv (wnow w1) l"
      using level_inv_later [OF Cons.prems(1) \<open>later w w1\<close>] Cons.prems(2) by (meson list.set_intros(1))
    ultimately show ?thesis using Cons.prems(3) c False by auto
  qed
qed simp

lemma Limit_inv [go_inv]:
  assumes "limiter_inv st"
  shows "limiter_inv (snd (Limit api oob st ctx))"
proof (cases "GetFromContext ctx")
  case None
  with assms show ?thesis by (simp add: Limit_def)
next
  case (Some attrs)
  obtain mll w where st: "st = (mll, w)" by force
  obtain e rs' w' where c: "limit_rules api oob (useRedis mll) ctx attrs (rules mll) w = (e, rs', w')"
    using prod_cases3 by blast
  have "later w w' \<and> (\<forall>r \<in> set rs'. \<forall>l \<in> set (cr_Levels r). level_inv (wnow w') l)"
    using limit_rules_inv [OF _ _ c] assms by (auto simp: limiter_inv_def st)
  with assms later_wnow [of w w'] show ?thesis
    by (auto simp: Limit_def Some st c limiter_inv_def)
qed

subsection \<open>Where a rule rejects\<close>

lemma check_levels_append:
  "check_levels api oob use ctx rn attrs (xs @ ys) w =
     (case check_levels api oob use ctx rn attrs xs w of
        (Some e, xs', w') \<Rightarrow> (Some e, xs' @ ys, w')
      | (None, xs', w') \<Rightarrow>
          (case check_levels api oob use ctx rn attrs ys w' of (e, ys', w'') \<Rightarrow> (e, xs' @ ys', w'')))"
  by (induction xs arbitrary: w) (auto split: prod.splits option.splits)

lemma check_levels_reject_split:
  "check_levels api oob use ctx rn attrs ls w = (Some e, ls', w') \<Longrightarrow>
   \<exists>pre l post pre' l' w1. ls = pre @ l # post \<and> ls' = pre' @ l' # post
      \<and> check_levels api oob use ctx rn attrs pre w = (None, pre', w1)
      \<and> checkLevel api oob use ctx rn attrs l w1 = (Some e, l', w')"
proof (induction ls arbitrary: w ls')
  case (Cons l ls)
  obtain e1 l1 w1 where c: "checkLevel api oob use ctx rn attrs l w = (e1, l1, w1)"
    using prod_cases3 by blast
  show ?case
  proof (cases e1)
    case (Some x)
    with Cons.prems c have "l # ls = [] @ l # ls \<and> ls' = [] @ l1 # ls
        \<and> check_levels api oob use ctx rn attrs [] w = (None, [], w)
        \<and> checkLevel api oob use ctx rn attrs l w = (Some e, l1, w')" by simp
    then show ?thesis by blast
  next
    case None
    with Cons.prems c obtain t where t: "ls' = l1 # t" "check_levels api oob use ctx rn attrs ls w1 = (Some e, t, w')"
      by (auto split: prod.splits)
    from Cons.IH [OF t(2)] obtain pre m post pre' m' w2 where
      "ls = pre @ m # post \<and> t = pre' @ m' # post
        \<and> check_levels api oob use ctx rn attrs pre w1 = (None, pre', w2)
        \<and> checkLevel api oob use ctx rn attrs m w2 = (Some e, m', w')" by blast
    with c None t have "l # ls = (l # pre) @ m # post \<and> ls' = (l1 # pre') @ m' # post
        \<and> check_levels api oob use ctx rn attrs (l # pre) w = (None, l1 # pre', w2)
        \<and> checkLevel api oob use ctx rn attrs m w2 = (Some e, m', w')" by simp
    then show ?thesis by blast
  qed
qed simp

section \<open>The Limiter interface\<close>

text \<open>
  What the interceptor and the middleware rely on: a limiter keeps its invariant, whatever it answers, and works on its own part of the
  process.  They hand the state on and call the handler exactly when the limiter answered without an error, so that a rejected request
  leaves the rest of the process as it was.
\<close>

locale limiter =
  fixes limit :: "go_ctx \<Rightarrow> 'w \<Rightarrow> gerror option \<times> 'w"
    and linv :: "'w \<Rightarrow> bool"
    and rest :: "'w \<Rightarrow> 'h"
  assumes limit_inv: "linv w \<Longrightarrow> linv (snd (limit ctx w))"
    and limit_rest: "rest (snd (limit ctx w)) = rest w"
begin

lemma interceptor_inv:
  "linv w \<Longrightarrow> (\<And>w. linv w \<Longrightarrow> linv (snd (handler ctx rq w))) \<Longrightarrow> linv (snd (UnaryServerInterceptor limit ctx rq fm handler w))"
  using limit_inv [of w ctx] by (auto simp: UnaryServerInterceptor_def split: prod.splits option.splits)

lemma middleware_inv:
  "linv w \<Longrightarrow> (\<And>w. linv w \<Longrightarrow> linv (snd (next r w))) \<Longrightarrow> linv (snd (HTTPMiddleware limit next r w))"
  using limit_inv [of w "req_ctx r"] by (auto simp: HTTPMiddleware_def Let_def split: prod.splits option.splits)

lemma interceptor_rejects:
  "fst (limit ctx w) = Some e \<Longrightarrow> rest (snd (UnaryServerInterceptor limit ctx rq fm handler w)) = rest w"
  using limit_rest [of ctx w] by (auto simp: UnaryServerInterceptor_def split: prod.splits option.splits)

lemma middleware_rejects:
  "fst (limit (req_ctx r) w) = Some e \<Longrightarrow> rest (snd (HTTPMiddleware limit next r w)) = rest w"
  using limit_rest [of "req_ctx r" w] by (auto simp: HTTPMiddleware_def Let_def split: prod.splits option.splits)

end

interpretation ml: limiter "Limit_in api oob" "\<lambda>w. limiter_inv (fst w)" snd
  for api :: "('lim, 'r) redis_api" and oob :: "rat \<Rightarrow> int"
  by unfold_locales (auto simp: Limit_in_def case_prod_beta intro: Limit_inv)

section \<open>Properties\<close>

text \<open>
  C3: the rate bound of a level.  Of all the requests a level sees in a period, at most
  \<^verbatim>\<open>BurstSize\<close> plus \<^verbatim>\<open>MaxRequests\<close> per minute (up to floating-point rounding) with the same key
  pass, whatever the requests with other keys do in between.
\<close>

theorem level_key_bound:
  assumes "level_size_ok level" and "limiters level k = None"
    and "ordered_from t0 (map (\<lambda>(key, a, b). (a, b)) reqs)"
  shows "of_nat (accepted (fst (run_requests (level_req oob k) level reqs)))
    \<le> of_int (cl_BurstSize level)
      + (1 + eps64) ^ 3 * ratePerSecond (cl_MaxRequests level) / 1000000000
        * of_int (end_of t0 (map (\<lambda>(key, a, b). (a, b)) reqs) - t0)"
proof -
  have "key_inv k level" using assms(1,2) by (simp add: key_inv_def)
  moreover have "since_key k t0 level = t0" "credit_key k level = of_int (cl_BurstSize level)"
    using assms(2) by (simp_all add: since_key_def credit_key_def)
  ultimately show ?thesis
    using lvl.run_bound [of k level t0 reqs oob] assms(3) by (simp add: level_gain_def)
qed

definition example_level :: "unit CompiledLevel" where
  "example_level = \<lparr>cl_Name = ''ip'', cl_MaxRequests = 60, cl_KeyAttributes = [''ip''], cl_BurstSize = 1,
     cl_rate = (), limiters = Map.empty\<rparr>"

theorem level_key_bound_witness:
  "of_nat (accepted (fst (run_requests (level_req (\<lambda>_. 0) ''a'') example_level [(''a'', 0, 0), (''b'', 0, 0), (''a'', 0, 0)])))
   \<le> (1::rat)"
proof -
  have "level_size_ok example_level" "limiters example_level ''a'' = None"
    "ordered_from 0 (map (\<lambda>(key, a, b). (a, b)) [(''a'', 0, 0), (''b'', 0, 0), (''a'', 0, 0)])"
    by (simp_all add: level_size_ok_def example_level_def)
  from level_key_bound [OF this, of "\<lambda>_. 0"] show ?thesis by (simp add: example_level_def)
qed

text \<open>
  C4: which requests the limiter touches.  A request without attributes, or whose path
  matches no rule, passes and changes nothing.  Otherwise the first matching rule decides
  alone: the answer is that of its levels, and the other rules keep their state.
\<close>

theorem Limit_first_match:
  assumes "GetFromContext ctx = Some attrs"
    and "rules mll = pre @ r # post"
    and "\<forall>p \<in> set pre. \<not> rule_matches (Path attrs) p" and "rule_matches (Path attrs) r"
    and "check_levels api oob (useRedis mll) ctx (cr_Name r) attrs (cr_Levels r) w = (e, ls, w')"
  shows "Limit api oob (mll, w) ctx = (e, mll\<lparr>rules := pre @ r\<lparr>cr_Levels := ls\<rparr> # post\<rparr>, w')"
proof -
  have "limit_rules api oob (useRedis mll) ctx attrs (pre @ r # post) w = (e, pre @ r\<lparr>cr_Levels := ls\<rparr> # post, w')"
    using assms(3-5) by (induction pre) auto
  then show ?thesis using assms(1,2) by (simp add: Limit_def)
qed

definition example_api :: "(unit, unit) redis_api" where
  "example_api = \<lparr>PerMinute = (\<lambda>_. ()), Allow = (\<lambda>_ _ _ r. (Inr 1, r)), Del = (\<lambda>_ _ r. (None, r)),
     CloseClient = (\<lambda>r. (None, r))\<rparr>"

definition example_rule :: "string \<Rightarrow> unit CompiledRule" where
  "example_rule p = \<lparr>cr_Name = ''r'', cr_PathPatterns = [p], cr_Levels = []\<rparr>"

definition example_attrs :: RequestAttributes where
  "example_attrs = \<lparr>IP = ''10.0.0.1'', Method = ''GET'', Path = ''/api/v1/users'', UserID = ''u7'', StaffID = [],
     DeviceID = [], Headers = Map.empty, RequestID = []\<rparr>"

theorem Limit_first_match_witness:
  "Limit example_api (\<lambda>_. 0)
     (\<lparr>rules = [example_rule ''/admin'', example_rule ''/api''], redis_client = False, useRedis = False\<rparr>,
      \<lparr>wclock = \<lparr>ticks = (\<lambda>_. 0), pos = 0\<rparr>, wredis = ()\<rparr>)
     (WithRequestAttributes background example_attrs)
   = (None, \<lparr>rules = [example_rule ''/admin'', example_rule ''/api''], redis_client = False, useRedis = False\<rparr>,
      \<lparr>wclock = \<lparr>ticks = (\<lambda>_. 0), pos = 0\<rparr>, wredis = ()\<rparr>)"
proof -
  define mll where "mll = \<lparr>rules = [example_rule ''/admin'', example_rule ''/api''], redis_client = False, useRedis = False\<rparr>"
  define w where "w = \<lparr>wclock = \<lparr>ticks = (\<lambda>_::nat. 0::int), pos = 0\<rparr>, wredis = ()\<rparr>"
  have "GetFromContext (WithRequestAttributes background example_attrs) = Some example_attrs"
    by (simp add: GetFromContext_def WithRequestAttributes_def)
  moreover have "rules mll = [example_rule ''/admin''] @ example_rule ''/api'' # []" by (simp add: mll_def)
  moreover have "\<forall>p \<in> set [example_rule ''/admin'']. \<not> rule_matches (Path example_attrs) p"
    "rule_matches (Path example_attrs) (example_rule ''/api'')"
    by (simp_all add: rule_matches_def example_rule_def pattern_matches_def example_attrs_def HasPrefix_def)
  moreover have "check_levels example_api (\<lambda>_. 0) (useRedis mll) (WithRequestAttributes background example_attrs)
      (cr_Name (example_rule ''/api'')) example_attrs (cr_Levels (example_rule ''/api'')) w = (None, [], w)"
    by (simp add: example_rule_def)
  ultimately have "Limit example_api (\<lambda>_. 0) (mll, w) (WithRequestAttributes background example_attrs)
      = (None, mll\<lparr>rules := [example_rule ''/admin''] @ (example_rule ''/api'')\<lparr>cr_Levels := []\<rparr> # []\<rparr>, w)"
    by (rule Limit_first_match)
  then show ?thesis by (simp add: mll_def w_def example_rule_def)
qed


text \<open>
  C14: the keys of a level are only as unique as its attributes.  With non-empty attribute
  values that contain no colon, two requests share a bucket of a level exactly when all the key
  attributes agree.
\<close>

theorem generateLevelKey_inj:
  assumes "ks \<noteq> []"
    and "\<forall>a \<in> set ks. attr_value r1 a \<noteq> [] \<and> CHR '':'' \<notin> set (attr_value r1 a)"
    and "\<forall>a \<in> set ks. attr_value r2 a \<noteq> [] \<and> CHR '':'' \<notin> set (attr_value r2 a)"
  shows "generateLevelKey rn lv r1 ks = generateLevelKey rn lv r2 ks \<longleftrightarrow>
    (\<forall>a \<in> set ks. attr_value r1 a = attr_value r2 a)"
proof -
  have parts: "key_parts r ks = map (attr_value r) ks" if "\<forall>a \<in> set ks. attr_value r a \<noteq> []" for r
    using that by (simp add: key_parts_def filter_id_conv)
  have p1: "key_parts r1 ks = map (attr_value r1) ks" and p2: "key_parts r2 ks = map (attr_value r2) ks"
    using parts assms by blast+
  have "generateLevelKey rn lv r1 ks = generateLevelKey rn lv r2 ks \<longleftrightarrow>
      Join (map (attr_value r1) ks) '':'' = Join (map (attr_value r2) ks) '':''"
    using assms(1) by (simp add: generateLevelKey_def p1 p2)
  also have "\<dots> \<longleftrightarrow> map (attr_value r1) ks = map (attr_value r2) ks"
  proof
    assume "Join (map (attr_value r1) ks) '':'' = Join (map (attr_value r2) ks) '':''"
    then show "map (attr_value r1) ks = map (attr_value r2) ks"
      using assms by (intro Join_inj [where c = "CHR '':''"]) auto
  qed (simp only:)
  finally show ?thesis by simp
qed

theorem generateLevelKey_inj_witness:
  "generateLevelKey ''r'' ''l'' example_attrs [''user_id'', ''ip'']
   \<noteq> generateLevelKey ''r'' ''l'' (example_attrs\<lparr>UserID := ''u8''\<rparr>) [''user_id'', ''ip'']"
proof -
  have v: "attr_value example_attrs ''user_id'' = ''u7''" "attr_value example_attrs ''ip'' = ''10.0.0.1''"
    "attr_value (example_attrs\<lparr>UserID := ''u8''\<rparr>) ''user_id'' = ''u8''"
    "attr_value (example_attrs\<lparr>UserID := ''u8''\<rparr>) ''ip'' = ''10.0.0.1''"
    by (code_simp, code_simp, code_simp, code_simp)
  then show ?thesis
    using generateLevelKey_inj [of "[''user_id'', ''ip'']" example_attrs "example_attrs\<lparr>UserID := ''u8''\<rparr>" "''r''" "''l''"]
    by simp
qed

text \<open>
  Without those conditions keys collide: an anonymous client with IP address \<open>v\<close> and a
  user whose identifier is \<open>v\<close> and who has no IP attribute share one bucket, because empty
  attributes are dropped from the key without leaving a place for them.
\<close>

theorem generateLevelKey_collision:
  "generateLevelKey rn lv (r\<lparr>UserID := [], IP := v\<rparr>) [''user_id'', ''ip'']
   = generateLevelKey rn lv (r\<lparr>UserID := v, IP := []\<rparr>) [''user_id'', ''ip'']"
  by (simp add: generateLevelKey_def key_parts_def attr_value_def ToLower_def lower_char_def)

text \<open>
  Patterns are matched as substrings of the path, with \<^verbatim>\<open>*\<close> alone as a wildcard.  The
  regular-expression pattern \<^verbatim>\<open>/api/.*\<close> of the documentation does not match \<^verbatim>\<open>/api/users\<close>.
\<close>

theorem pattern_matches_substring:
  "(pattern_matches path p \<longleftrightarrow> p = ''*'' \<or> (\<exists>a b. path = a @ p @ b))
   \<and> \<not> pattern_matches ''/api/users'' ''/api/.*''"
proof
  show "\<not> pattern_matches ''/api/users'' ''/api/.*''" by code_simp
qed (auto simp: pattern_matches_def Contains_iff)



end
