(* ===== verification/Lifecycle.thy ===== *)
theory Lifecycle
  imports Attributes
begin

text \<open>
  Components and their life cycle: \<^verbatim>\<open>lifecycle/lifecycle.go\<close> and \<^verbatim>\<open>lifecycle/group.go\<close>.

  A component is its name and its two operations on the state \<^typ>\<open>'w\<close> of everything the
  components share.  The start phase of \<^verbatim>\<open>Run\<close> is a function (one goroutine).  Its
  shutdown phase starts one goroutine per component, so it is a step relation: the main
  goroutine counts the wait group up and spawns, each spawned goroutine logs, calls
  \<^verbatim>\<open>Stop\<close>, logs a failure and counts the wait group down, in any interleaving.  A
  \<^verbatim>\<open>Stop\<close> is one step on the shared state.
\<close>

section \<open>Components\<close>

datatype log_level = LInfo | LWarn | LError | LDebug

text \<open>A line written to the logger: level, message and fields.\<close>

datatype log_line = Line log_level string "(string \<times> string) list"

record 'w component =
  Name :: string
  Start :: "go_ctx \<Rightarrow> 'w \<Rightarrow> gerror option \<times> 'w"
  Stop :: "go_ctx \<Rightarrow> 'w \<Rightarrow> gerror option \<times> 'w"

record 'w Lifecycle =
  components :: "'w component list"
  stopTimeout :: int

definition New :: "'w Lifecycle" where
  "New = \<lparr>components = [], stopTimeout = 30 * second\<rparr>"

definition SetStopTimeout :: "'w Lifecycle \<Rightarrow> int \<Rightarrow> 'w Lifecycle" where
  "SetStopTimeout lc timeout = lc\<lparr>stopTimeout := timeout\<rparr>"

definition Register :: "'w Lifecycle \<Rightarrow> 'w component list \<Rightarrow> 'w Lifecycle" where
  "Register lc cs = lc\<lparr>components := components lc @ cs\<rparr>"

section \<open>The start phase\<close>

fun start_components :: "'w component list \<Rightarrow> go_ctx \<Rightarrow> 'w \<Rightarrow> log_line list \<Rightarrow>
    gerror option \<times> 'w \<times> log_line list" where
  "start_components [] ctx w l = (None, w, l)"
| "start_components (c # cs) ctx w l =
     (let l = l @ [Line LInfo ''starting component'' [(''component'', Name c)]] in
      case Start c ctx w of
        (Some err, w') \<Rightarrow> (Some (Wrapf (''start '' @ Name c @ '': '') err), w', l)
      | (None, w') \<Rightarrow> start_components cs ctx w' l)"

section \<open>The shutdown phase\<close>

text \<open>
  The state of a stopping goroutine: it has yet to log and call \<^verbatim>\<open>Stop\<close>, has logged, has
  an error of \<^verbatim>\<open>Stop\<close> to log, or has counted the wait group down.  \<open>to_spawn\<close> is
  \<^verbatim>\<open>i + 1\<close> of the loop; \<open>stops\<close> records the calls of \<^verbatim>\<open>Stop\<close> in the order they are made.
\<close>

datatype goroutine = Spawned | Logged | StopFailed gerror | Done

record 'w shutdown =
  to_spawn :: nat
  wg :: nat
  gos :: "nat \<rightharpoonup> goroutine"
  world :: 'w
  log :: "log_line list"
  stops :: "nat list"
  returned :: bool

definition shutdown_init :: "'w component list \<Rightarrow> 'w \<Rightarrow> log_line list \<Rightarrow> 'w shutdown" where
  "shutdown_init cs w l = \<lparr>to_spawn = length cs, wg = 0, gos = Map.empty, world = w,
     log = l @ [Line LInfo ''shutdown signal received'' []], stops = [], returned = False\<rparr>"

inductive shutdown_step :: "'w component list \<Rightarrow> go_ctx \<Rightarrow> 'w shutdown \<Rightarrow> 'w shutdown \<Rightarrow> bool"
  for cs :: "'w component list" and stopCtx :: go_ctx where
  spawn: "to_spawn s = Suc i \<Longrightarrow>
    shutdown_step cs stopCtx s (s\<lparr>to_spawn := i, wg := wg s + 1, gos := (gos s)(i \<mapsto> Spawned)\<rparr>)"
| announce: "gos s i = Some Spawned \<Longrightarrow>
    shutdown_step cs stopCtx s (s\<lparr>gos := (gos s)(i \<mapsto> Logged),
      log := log s @ [Line LInfo ''stopping component'' [(''component'', Name (cs ! i))]]\<rparr>)"
| stop_ok: "gos s i = Some Logged \<Longrightarrow> Stop (cs ! i) stopCtx (world s) = (None, w') \<Longrightarrow>
    shutdown_step cs stopCtx s (s\<lparr>gos := (gos s)(i \<mapsto> Done), wg := wg s - 1, world := w', stops := stops s @ [i]\<rparr>)"
| stop_err: "gos s i = Some Logged \<Longrightarrow> Stop (cs ! i) stopCtx (world s) = (Some e, w') \<Longrightarrow>
    shutdown_step cs stopCtx s (s\<lparr>gos := (gos s)(i \<mapsto> StopFailed e), world := w', stops := stops s @ [i]\<rparr>)"
| report: "gos s i = Some (StopFailed e) \<Longrightarrow>
    shutdown_step cs stopCtx s (s\<lparr>gos := (gos s)(i \<mapsto> Done), wg := wg s - 1,
      log := log s @ [Line LError ''failed to stop component'' [(''component'', Name (cs ! i)), (''error'', err_msg e)]]\<rparr>)"
| wait: "to_spawn s = 0 \<Longrightarrow> wg s = 0 \<Longrightarrow> \<not> returned s \<Longrightarrow>
    shutdown_step cs stopCtx s (s\<lparr>log := log s @ [Line LInfo ''graceful shutdown completed'' []], returned := True\<rparr>)"

inductive_cases shutdown_stepE: "shutdown_step cs stopCtx s t"

abbreviation shutdown_steps :: "'w component list \<Rightarrow> go_ctx \<Rightarrow> 'w shutdown \<Rightarrow> 'w shutdown \<Rightarrow> bool" where
  "shutdown_steps cs stopCtx \<equiv> (shutdown_step cs stopCtx)\<^sup>*\<^sup>*"

text \<open>
  \<^verbatim>\<open>Run\<close>: the start phase; when it succeeds, at a signal (the clock reads \<open>now\<close>) a run of the
  shutdown phase, with the values of the context but neither its cancellation nor its deadline.
\<close>

inductive Run :: "'w Lifecycle \<Rightarrow> go_ctx \<Rightarrow> 'w \<Rightarrow> int \<Rightarrow> gerror option \<Rightarrow> 'w \<Rightarrow> log_line list \<Rightarrow> bool" where
  start_fails: "start_components (components lc) ctx w [] = (Some e, w', l) \<Longrightarrow> Run lc ctx w now (Some e) w' l"
| shut_down: "start_components (components lc) ctx w [] = (None, w1, l) \<Longrightarrow>
    shutdown_steps (components lc) (WithTimeout (WithoutCancel ctx) now (stopTimeout lc))
      (shutdown_init (components lc) w1 l) s \<Longrightarrow> returned s \<Longrightarrow>
    Run lc ctx w now None (world s) (log s)"

section \<open>Groups\<close>

record 'w Group =
  g_name :: string
  g_components :: "'w component list"

definition NewGroup :: "string \<Rightarrow> 'w component list \<Rightarrow> 'w Group" where
  "NewGroup name cs = \<lparr>g_name = name, g_components = cs\<rparr>"

definition Group_Name :: "'w Group \<Rightarrow> string" where
  "Group_Name g = g_name g"

fun group_start_loop :: "'w component list \<Rightarrow> go_ctx \<Rightarrow> 'w \<Rightarrow> gerror option \<times> 'w" where
  "group_start_loop [] ctx w = (None, w)"
| "group_start_loop (c # cs) ctx w =
     (case Start c ctx w of
        (Some err, w') \<Rightarrow> (Some (Wrapf (''start '' @ Name c @ '': '') err), w')
      | (None, w') \<Rightarrow> group_start_loop cs ctx w')"

definition Group_Start :: "'w Group \<Rightarrow> go_ctx \<Rightarrow> 'w \<Rightarrow> gerror option \<times> 'w" where
  "Group_Start g ctx w = group_start_loop (g_components g) ctx w"

text \<open>The loop of \<^verbatim>\<open>Group.Stop\<close> counts down from the last component: \<open>n\<close> is \<^verbatim>\<open>i + 1\<close>.\<close>

fun group_stop_loop :: "'w component list \<Rightarrow> nat \<Rightarrow> go_ctx \<Rightarrow> 'w \<Rightarrow> gerror list \<Rightarrow> gerror list \<times> 'w" where
  "group_stop_loop cs 0 ctx w errs = (errs, w)"
| "group_stop_loop cs (Suc i) ctx w errs =
     (case Stop (cs ! i) ctx w of
        (Some err, w') \<Rightarrow> group_stop_loop cs i ctx w' (errs @ [Wrapf (''stop '' @ Name (cs ! i) @ '': '') err])
      | (None, w') \<Rightarrow> group_stop_loop cs i ctx w' errs)"

text \<open>\<^verbatim>\<open>%v\<close> of a slice of errors.\<close>

definition fmt_errs :: "gerror list \<Rightarrow> string" where
  "fmt_errs errs = ''['' @ Join (map err_msg errs) '' '' @ '']''"

definition Group_Stop :: "'w Group \<Rightarrow> go_ctx \<Rightarrow> 'w \<Rightarrow> gerror option \<times> 'w" where
  "Group_Stop g ctx w =
     (case group_stop_loop (g_components g) (length (g_components g)) ctx w [] of
        (errs, w') \<Rightarrow>
          (if errs \<noteq> [] then (Some (Errorf (''group '' @ g_name g @ '' stop failed: '' @ fmt_errs errs)), w')
           else (None, w')))"

definition Components :: "'w Group \<Rightarrow> 'w component list" where
  "Components g = g_components g"

text \<open>A group is a component itself (\<^verbatim>\<open>var _ Component = (*Group)(nil)\<close>).\<close>

definition group_component :: "'w Group \<Rightarrow> 'w component" where
  "group_component g = \<lparr>Name = Group_Name g, Start = Group_Start g, Stop = Group_Stop g\<rparr>"

section \<open>What the start phase does\<close>

text \<open>The effect of starting (stopping) the listed components one after the other, whatever the calls return.\<close>

definition start_all :: "go_ctx \<Rightarrow> 'w component list \<Rightarrow> 'w \<Rightarrow> 'w" where
  "start_all ctx cs w = fold (\<lambda>c w. snd (Start c ctx w)) cs w"

definition stop_all :: "go_ctx \<Rightarrow> 'w component list \<Rightarrow> 'w \<Rightarrow> 'w" where
  "stop_all ctx cs w = fold (\<lambda>c w. snd (Stop c ctx w)) cs w"

definition start_line :: "'w component \<Rightarrow> log_line" where
  "start_line c = Line LInfo ''starting component'' [(''component'', Name c)]"

definition start_error :: "'w component \<Rightarrow> gerror \<Rightarrow> gerror" where
  "start_error c err = Wrapf (''start '' @ Name c @ '': '') err"

definition stop_error :: "'w component \<Rightarrow> gerror \<Rightarrow> gerror" where
  "stop_error c err = Wrapf (''stop '' @ Name c @ '': '') err"

lemma start_all_simps [simp]:
  "start_all ctx [] w = w"
  "start_all ctx (c # cs) w = start_all ctx cs (snd (Start c ctx w))"
  "start_all ctx (xs @ ys) w = start_all ctx ys (start_all ctx xs w)"
  by (simp_all add: start_all_def)

lemma stop_all_simps [simp]:
  "stop_all ctx [] w = w"
  "stop_all ctx (c # cs) w = stop_all ctx cs (snd (Stop c ctx w))"
  "stop_all ctx (xs @ ys) w = stop_all ctx ys (stop_all ctx xs w)"
  by (simp_all add: stop_all_def)

text \<open>All the components of \<open>cs\<close> start without an error from \<open>w\<close> on.\<close>

definition starts_ok :: "go_ctx \<Rightarrow> 'w component list \<Rightarrow> 'w \<Rightarrow> bool" where
  "starts_ok ctx cs w \<longleftrightarrow> (\<forall>i < length cs. fst (Start (cs ! i) ctx (start_all ctx (take i cs) w)) = None)"

lemma starts_ok_Nil [simp]: "starts_ok ctx [] w"
  by (simp add: starts_ok_def)

lemma starts_ok_Cons [simp]:
  "starts_ok ctx (c # cs) w \<longleftrightarrow> fst (Start c ctx w) = None \<and> starts_ok ctx cs (snd (Start c ctx w))"
  by (auto simp: starts_ok_def All_less_Suc2)

lemma start_components_ok:
  "starts_ok ctx cs w \<Longrightarrow> start_components cs ctx w l = (None, start_all ctx cs w, l @ map start_line cs)"
  by (induction cs arbitrary: w l) (auto simp: start_line_def Let_def split: prod.splits option.splits)

lemma start_components_err:
  "starts_ok ctx xs w \<Longrightarrow> fst (Start c ctx (start_all ctx xs w)) = Some err \<Longrightarrow>
   start_components (xs @ c # ys) ctx w l =
     (Some (start_error c err), start_all ctx (xs @ [c]) w, l @ map start_line (xs @ [c]))"
  by (induction xs arbitrary: w l)
    (auto simp: start_line_def start_error_def Let_def split: prod.splits option.splits)

lemma starts_cases:
  obtains "starts_ok ctx cs w"
  | xs c ys err where "cs = xs @ c # ys" "starts_ok ctx xs w" "fst (Start c ctx (start_all ctx xs w)) = Some err"
proof (induction cs arbitrary: w thesis)
  case Nil
  then show ?case by simp
next
  case (Cons c cs)
  show ?case
  proof (cases "fst (Start c ctx w)")
    case (Some err)
    then show ?thesis using Cons.prems(2) [of "[]" c cs err] by simp
  next
    case None
    show ?thesis
    proof (rule Cons.IH [of "snd (Start c ctx w)"])
      assume "starts_ok ctx cs (snd (Start c ctx w))"
      then show ?thesis using Cons.prems(1) None by simp
    next
      fix xs d ys err
      assume "cs = xs @ d # ys" "starts_ok ctx xs (snd (Start c ctx w))"
        "fst (Start d ctx (start_all ctx xs (snd (Start c ctx w)))) = Some err"
      then show ?thesis using Cons.prems(2) [of "c # xs" d ys err] None by simp
    qed
  qed
qed

lemma group_start_loop_eq: "group_start_loop cs ctx w = (case start_components cs ctx w [] of (r, w', _) \<Rightarrow> (r, w'))"
proof -
  have "group_start_loop cs ctx w = (case start_components cs ctx w l of (r, w', _) \<Rightarrow> (r, w'))" for l
  proof (induction cs arbitrary: w l)
    case (Cons c cs)
    show ?case
      by (auto simp: Let_def Cons.IH [of _ "l @ [Line LInfo ''starting component'' [(''component'', Name c)]]"]
          split: prod.splits option.splits)
  qed simp
  then show ?thesis .
qed

section \<open>What the shutdown phase does\<close>

definition finished :: "goroutine option \<Rightarrow> bool" where
  "finished g \<longleftrightarrow> (case g of None \<Rightarrow> True | Some g \<Rightarrow> g = Done)"

definition has_stopped :: "goroutine option \<Rightarrow> bool" where
  "has_stopped g \<longleftrightarrow> (case g of Some Done \<Rightarrow> True | Some (StopFailed _) \<Rightarrow> True | _ \<Rightarrow> False)"

lemma goroutine_simps [simp]:
  "finished None" "finished (Some Done)" "\<not> finished (Some Spawned)" "\<not> finished (Some Logged)"
  "\<not> finished (Some (StopFailed e))" "has_stopped (Some Done)" "has_stopped (Some (StopFailed e))"
  "\<not> has_stopped None" "\<not> has_stopped (Some Spawned)" "\<not> has_stopped (Some Logged)"
  by (auto simp: finished_def has_stopped_def)

definition unfinished :: "nat \<Rightarrow> (nat \<rightharpoonup> goroutine) \<Rightarrow> nat" where
  "unfinished n g = card {i. i < n \<and> \<not> finished (g i)}"

definition shutdown_inv :: "'w component list \<Rightarrow> go_ctx \<Rightarrow> 'w \<Rightarrow> 'w shutdown \<Rightarrow> bool" where
  "shutdown_inv cs ctx w0 s \<longleftrightarrow>
     to_spawn s \<le> length cs \<and> dom (gos s) = {to_spawn s ..< length cs} \<and>
     wg s = unfinished (length cs) (gos s) \<and>
     distinct (stops s) \<and> set (stops s) = {i. i < length cs \<and> has_stopped (gos s i)} \<and>
     world s = stop_all ctx (map ((!) cs) (stops s)) w0 \<and>
     (returned s \<longrightarrow> to_spawn s = 0 \<and> wg s = 0)"

lemma unfinished_upd:
  assumes "i < n"
  shows "unfinished n (g(i \<mapsto> x)) =
    (unfinished n g - (if finished (g i) then 0 else 1)) + (if finished (Some x) then 0 else 1)"
proof -
  let ?R = "{j. j < n \<and> j \<noteq> i \<and> \<not> finished (g j)}"
  let ?U = "{j. j < n \<and> \<not> finished (g j)}"
  have f: "finite ?U" by simp
  have "{j. j < n \<and> \<not> finished ((g(i \<mapsto> x)) j)} = ?R \<union> (if finished (Some x) then {} else {i})"
    using assms by auto
  moreover have "?R = ?U - {i}" by auto
  ultimately have "unfinished n (g(i \<mapsto> x)) = card ((?U - {i}) \<union> (if finished (Some x) then {} else {i}))"
    unfolding unfinished_def by simp
  also have "\<dots> = card (?U - {i}) + (if finished (Some x) then 0 else 1)"
    using f card.insert_remove [OF f, of i] by simp
  also have "card (?U - {i}) = card ?U - (if finished (g i) then 0 else 1)"
    using assms f by (simp add: card_Diff_singleton_if)
  finally show ?thesis unfolding unfinished_def .
qed

lemma unfinished_pos: "i < n \<Longrightarrow> \<not> finished (g i) \<Longrightarrow> 0 < unfinished n g"
  by (auto simp: unfinished_def card_gt_0_iff)

lemma unfinished_empty [simp]: "unfinished n Map.empty = 0"
  by (simp add: unfinished_def)

lemma unfinished_0: "unfinished n g = 0 \<longleftrightarrow> (\<forall>i < n. finished (g i))"
  by (auto simp: unfinished_def)

lemma shutdown_inv_init: "shutdown_inv cs ctx w (shutdown_init cs w l)"
  by (simp add: shutdown_inv_def shutdown_init_def)

lemma shutdown_inv_step:
  assumes inv: "shutdown_inv cs ctx w0 s" and step: "shutdown_step cs ctx s t"
  shows "shutdown_inv cs ctx w0 t"
proof -
  have lt: "i < length cs \<and> to_spawn s \<le> i" if "gos s i = Some g" for i g
    using that inv unfolding shutdown_inv_def by (metis atLeastLessThan_iff domI)
  show ?thesis using step
  proof cases
    case (spawn i)
    then have "i < length cs" "i \<notin> dom (gos s)" using inv by (auto simp: shutdown_inv_def)
    then have i: "i < length cs" "gos s i = None" by auto
    moreover have "insert i {Suc i..<length cs} = {i..<length cs}" using i by auto
    ultimately show ?thesis using spawn inv
      by (auto simp: shutdown_inv_def unfinished_upd)
  next
    case (announce i)
    have "insert i {to_spawn s..<length cs} = {to_spawn s..<length cs}" using lt [OF announce(2)] by auto
    then show ?thesis using announce inv lt [OF announce(2)] unfinished_pos [of i "length cs" "gos s"]
      by (auto simp: shutdown_inv_def unfinished_upd)
  next
    case (stop_ok i w')
    have "insert i {to_spawn s..<length cs} = {to_spawn s..<length cs}" using lt [OF stop_ok(2)] by auto
    then show ?thesis using stop_ok inv lt [OF stop_ok(2)]
      by (auto simp: shutdown_inv_def unfinished_upd)
  next
    case (stop_err i e w')
    have "insert i {to_spawn s..<length cs} = {to_spawn s..<length cs}" using lt [OF stop_err(2)] by auto
    then show ?thesis using stop_err inv lt [OF stop_err(2)] unfinished_pos [of i "length cs" "gos s"]
      by (auto simp: shutdown_inv_def unfinished_upd)
  next
    case (report i e)
    have "insert i {to_spawn s..<length cs} = {to_spawn s..<length cs}" using lt [OF report(2)] by auto
    then show ?thesis using report inv lt [OF report(2)]
      by (auto simp: shutdown_inv_def unfinished_upd)
  next
    case wait
    then show ?thesis using inv by (auto simp: shutdown_inv_def)
  qed
qed

lemma shutdown_inv_steps: "shutdown_steps cs ctx s t \<Longrightarrow> shutdown_inv cs ctx w0 s \<Longrightarrow> shutdown_inv cs ctx w0 t"
  by (induction rule: rtranclp_induct) (auto intro: shutdown_inv_step)

definition phase_weight :: "goroutine option \<Rightarrow> nat" where
  "phase_weight g = (case g of None \<Rightarrow> 0 | Some Spawned \<Rightarrow> 3 | Some Logged \<Rightarrow> 2 | Some (StopFailed _) \<Rightarrow> 1 | Some Done \<Rightarrow> 0)"

lemma phase_weight_simps [simp]:
  "phase_weight None = 0" "phase_weight (Some Spawned) = 3" "phase_weight (Some Logged) = 2"
  "phase_weight (Some (StopFailed e)) = 1" "phase_weight (Some Done) = 0"
  by (simp_all add: phase_weight_def)

definition shutdown_work :: "'w component list \<Rightarrow> 'w shutdown \<Rightarrow> nat" where
  "shutdown_work cs s = 4 * to_spawn s + (\<Sum>i < length cs. phase_weight (gos s i)) + (if returned s then 0 else 1)"

lemma sum_upd_less:
  fixes i n :: nat
  assumes "i < n"
  shows "(\<Sum>j < n. phase_weight ((g(i \<mapsto> x)) j)) + phase_weight (g i) = (\<Sum>j < n. phase_weight (g j)) + phase_weight (Some x)"
proof -
  have "(\<Sum>j < n. phase_weight ((g(i \<mapsto> x)) j)) = phase_weight (Some x) + (\<Sum>j \<in> {..<n} - {i}. phase_weight ((g(i \<mapsto> x)) j))"
    using assms by (subst sum.remove [of _ i]) auto
  also have "(\<Sum>j \<in> {..<n} - {i}. phase_weight ((g(i \<mapsto> x)) j)) = (\<Sum>j \<in> {..<n} - {i}. phase_weight (g j))"
    by (rule sum.cong) auto
  finally show ?thesis using assms by (subst (2) sum.remove [of _ i]) auto
qed

lemma shutdown_work_step:
  assumes inv: "shutdown_inv cs ctx w0 s" and step: "shutdown_step cs ctx s t"
  shows "shutdown_work cs t < shutdown_work cs s"
proof -
  have lt: "i < length cs" if "gos s i = Some g" for i g
    using that inv unfolding shutdown_inv_def by (metis atLeastLessThan_iff domI)
  note upd = sum_upd_less [where n = "length cs" and g = "gos s"]
  show ?thesis using step
  proof cases
    case (spawn i)
    then have "i < length cs" "i \<notin> dom (gos s)" using inv by (auto simp: shutdown_inv_def)
    then have "i < length cs" "gos s i = None" by auto
    then show ?thesis using spawn upd [of i Spawned] by (simp add: shutdown_work_def)
  next
    case (announce i)
    then show ?thesis using upd [of i Logged] lt [of i] by (simp add: shutdown_work_def)
  next
    case (stop_ok i w')
    then show ?thesis using upd [of i Done] lt [of i] by (simp add: shutdown_work_def)
  next
    case (stop_err i e w')
    then show ?thesis using upd [of i "StopFailed e"] lt [of i] by (simp add: shutdown_work_def)
  next
    case (report i e)
    then show ?thesis using upd [of i Done] lt [of i] by (simp add: shutdown_work_def)
  next
    case wait
    then show ?thesis by (simp add: shutdown_work_def)
  qed
qed

lemma shutdown_work_steps:
  "(shutdown_step cs ctx ^^ k) s t \<Longrightarrow> shutdown_inv cs ctx w0 s \<Longrightarrow>
   k + shutdown_work cs t \<le> shutdown_work cs s \<and> shutdown_inv cs ctx w0 t"
proof (induction k arbitrary: t)
  case (Suc k)
  then obtain u where u: "(shutdown_step cs ctx ^^ k) s u" "shutdown_step cs ctx u t" by auto
  then have "k + shutdown_work cs u \<le> shutdown_work cs s" "shutdown_inv cs ctx w0 u" using Suc by auto
  then show ?case using shutdown_work_step [OF _ u(2)] shutdown_inv_step [OF _ u(2)] by fastforce
qed simp

lemma shutdown_progress:
  assumes "shutdown_inv cs ctx w0 s" "\<not> returned s"
  shows "\<exists>t. shutdown_step cs ctx s t"
proof (cases "to_spawn s")
  case (Suc i)
  then show ?thesis by (blast intro: shutdown_step.spawn)
next
  case 0
  show ?thesis
  proof (cases "wg s = 0")
    case True
    then show ?thesis using 0 assms(2) by (blast intro: shutdown_step.wait)
  next
    case False
    then obtain i where "\<not> finished (gos s i)"
      using assms(1) unfinished_0 [of "length cs" "gos s"] unfolding shutdown_inv_def by metis
    then obtain g where g: "gos s i = Some g" "g \<noteq> Done" by (auto simp: finished_def split: option.splits)
    obtain r w' where "Stop (cs ! i) ctx (world s) = (r, w')" by (cases "Stop (cs ! i) ctx (world s)")
    then show ?thesis using g
      by (cases g; cases r) (auto intro: shutdown_step.announce shutdown_step.stop_ok shutdown_step.stop_err shutdown_step.report)
  qed
qed

text \<open>Everything is spawned and announced before the first \<^verbatim>\<open>Stop\<close>: one schedule of many.\<close>

lemma shutdown_spawn_all:
  "k \<le> length cs \<Longrightarrow> \<exists>s. shutdown_steps cs ctx (shutdown_init cs w l) s \<and> to_spawn s = length cs - k \<and>
     gos s = (\<lambda>i. if length cs - k \<le> i \<and> i < length cs then Some Spawned else None) \<and> stops s = [] \<and> \<not> returned s"
proof (induction k)
  case 0
  show ?case by (rule exI [of _ "shutdown_init cs w l"]) (auto simp: shutdown_init_def)
next
  case (Suc k)
  then obtain s where s: "shutdown_steps cs ctx (shutdown_init cs w l) s" "to_spawn s = Suc (length cs - Suc k)"
    "gos s = (\<lambda>i. if length cs - k \<le> i \<and> i < length cs then Some Spawned else None)" "stops s = []" "\<not> returned s"
    by fastforce
  have "(gos s)(length cs - Suc k \<mapsto> Spawned) =
      (\<lambda>i. if length cs - Suc k \<le> i \<and> i < length cs then Some Spawned else None)"
    using Suc.prems s(3) by (auto simp: fun_eq_iff)
  then show ?case using rtranclp.rtrancl_into_rtrancl [OF s(1) shutdown_step.spawn [OF s(2)]] s(4,5)
    by (intro exI conjI) (assumption, simp_all)
qed

lemma shutdown_announce_all:
  "k \<le> length cs \<Longrightarrow> \<exists>s. shutdown_steps cs ctx (shutdown_init cs w l) s \<and> to_spawn s = 0 \<and>
     gos s = (\<lambda>i. if i < k then Some Logged else if i < length cs then Some Spawned else None) \<and> stops s = [] \<and> \<not> returned s"
proof (induction k)
  case 0
  show ?case using shutdown_spawn_all [of "length cs" cs ctx w l] by simp
next
  case (Suc k)
  then obtain s where s: "shutdown_steps cs ctx (shutdown_init cs w l) s" "to_spawn s = 0"
    "gos s = (\<lambda>i. if i < k then Some Logged else if i < length cs then Some Spawned else None)" "stops s = []" "\<not> returned s"
    by fastforce
  have g: "(gos s)(k \<mapsto> Logged) = (\<lambda>i. if i < Suc k then Some Logged else if i < length cs then Some Spawned else None)"
    using s(3) by (auto simp: fun_eq_iff)
  define t where "t = s\<lparr>gos := (gos s)(k \<mapsto> Logged),
      log := log s @ [Line LInfo ''stopping component'' [(''component'', Name (cs ! k))]]\<rparr>"
  have "shutdown_step cs ctx s t" unfolding t_def by (rule shutdown_step.announce) (use Suc.prems s(3) in simp)
  moreover have "to_spawn t = 0" "stops t = []" "\<not> returned t"
    "gos t = (\<lambda>i. if i < Suc k then Some Logged else if i < length cs then Some Spawned else None)"
    using s(2,4,5) g by (simp_all add: t_def)
  ultimately show ?case using rtranclp.rtrancl_into_rtrancl [OF s(1)] by blast
qed

lemma shutdown_stop_one:
  assumes "gos s i = Some Logged"
  shows "\<exists>t. shutdown_steps cs ctx s t \<and> to_spawn t = to_spawn s \<and> gos t = (gos s)(i \<mapsto> Done) \<and>
    stops t = stops s @ [i] \<and> returned t = returned s"
proof (cases "Stop (cs ! i) ctx (world s)")
  case (Pair r w')
  show ?thesis
  proof (cases r)
    case None
    then show ?thesis using r_into_rtranclp [of "shutdown_step cs ctx", OF shutdown_step.stop_ok [OF assms]] Pair by fastforce
  next
    case (Some e)
    define u where "u = s\<lparr>gos := (gos s)(i \<mapsto> StopFailed e), world := w', stops := stops s @ [i]\<rparr>"
    have "shutdown_step cs ctx s u" unfolding u_def using shutdown_step.stop_err [OF assms] Pair Some by blast
    moreover have "shutdown_step cs ctx u (u\<lparr>gos := (gos u)(i \<mapsto> Done), wg := wg u - 1,
      log := log u @ [Line LError ''failed to stop component'' [(''component'', Name (cs ! i)), (''error'', err_msg e)]]\<rparr>)"
      by (rule shutdown_step.report) (simp add: u_def)
    ultimately show ?thesis
      by (intro exI conjI) (rule converse_rtranclp_into_rtranclp, assumption, rule r_into_rtranclp, assumption,
          simp_all add: u_def)
  qed
qed

lemma shutdown_stop_list:
  assumes "distinct q" "set q \<subseteq> {..<length cs}"
  shows "\<exists>s. shutdown_steps cs ctx (shutdown_init cs w l) s \<and> to_spawn s = 0 \<and> stops s = q \<and> \<not> returned s \<and>
     gos s = (\<lambda>i. if i \<in> set q then Some Done else if i < length cs then Some Logged else None)"
  using assms
proof (induction q rule: rev_induct)
  case Nil
  show ?case using shutdown_announce_all [of "length cs" cs ctx w l] by (fastforce simp: fun_eq_iff)
next
  case (snoc i q)
  then obtain s where s: "shutdown_steps cs ctx (shutdown_init cs w l) s" "to_spawn s = 0" "stops s = q" "\<not> returned s"
     "gos s = (\<lambda>i. if i \<in> set q then Some Done else if i < length cs then Some Logged else None)" by auto
  moreover have "gos s i = Some Logged" using snoc.prems s(5) by auto
  ultimately obtain t where "shutdown_steps cs ctx s t" "to_spawn t = 0" "gos t = (gos s)(i \<mapsto> Done)" "stops t = q @ [i]" "\<not> returned t"
    using shutdown_stop_one [of s i cs ctx] by auto
  then show ?case using s by (intro exI [of _ t]) (auto simp: fun_eq_iff intro: rtranclp_trans)
qed

lemma shutdown_complete:
  assumes "distinct q" and "set q = {..<length cs}"
  shows "\<exists>s. shutdown_steps cs ctx (shutdown_init cs w l) s \<and> returned s \<and> stops s = q"
proof -
  obtain s where s: "shutdown_steps cs ctx (shutdown_init cs w l) s" "to_spawn s = 0" "stops s = q" "\<not> returned s"
     "gos s = (\<lambda>i. if i \<in> set q then Some Done else if i < length cs then Some Logged else None)"
    using shutdown_stop_list [of q cs ctx w l] assms by auto
  have "unfinished (length cs) (gos s) = 0" using s(5) assms(2) by (auto simp: unfinished_0)
  then have "wg s = 0" using shutdown_inv_steps [OF s(1) shutdown_inv_init] by (simp add: shutdown_inv_def)
  then have "shutdown_step cs ctx s (s\<lparr>log := log s @ [Line LInfo ''graceful shutdown completed'' []], returned := True\<rparr>)"
    using s by (intro shutdown_step.wait)
  then show ?thesis using s rtranclp.rtrancl_into_rtrancl [OF s(1)] by fastforce
qed

fun stop_errs :: "go_ctx \<Rightarrow> 'w component list \<Rightarrow> 'w \<Rightarrow> gerror list" where
  "stop_errs ctx [] w = []"
| "stop_errs ctx (c # cs) w =
     (case fst (Stop c ctx w) of None \<Rightarrow> [] | Some e \<Rightarrow> [stop_error c e]) @ stop_errs ctx cs (snd (Stop c ctx w))"

lemma group_stop_loop_eq:
  "n \<le> length cs \<Longrightarrow> group_stop_loop cs n ctx w errs =
     (errs @ stop_errs ctx (rev (take n cs)) w, stop_all ctx (rev (take n cs)) w)"
  by (induction cs n ctx w errs rule: group_stop_loop.induct)
    (auto simp: take_Suc_conv_app_nth stop_error_def split: prod.splits option.splits)

lemma Group_Stop_state: "snd (Group_Stop g ctx w) = stop_all ctx (rev (g_components g)) w"
  by (simp add: Group_Stop_def group_stop_loop_eq)

lemma group_start_cases: "fst (group_start_loop cs ctx w) = None \<longleftrightarrow> starts_ok ctx cs w"
  by (induction cs arbitrary: w) (auto split: prod.splits option.splits)

lemma starts_ok_append [simp]:
  "starts_ok ctx (xs @ ys) w \<longleftrightarrow> starts_ok ctx xs w \<and> starts_ok ctx ys (start_all ctx xs w)"
  by (induction xs arbitrary: w) auto

definition example_component :: "int \<Rightarrow> int list component" where
  "example_component n = \<lparr>Name = Itoa n, Start = (\<lambda>_ w. (None, w @ [n])), Stop = (\<lambda>_ w. (None, w @ [- n]))\<rparr>"

lemma shutdown_run:
  assumes "shutdown_steps cs ctx (shutdown_init cs w l) s" and "returned s"
  shows "distinct (stops s) \<and> set (stops s) = {..<length cs} \<and>
    world s = stop_all ctx (map ((!) cs) (stops s)) w"
proof -
  have inv: "shutdown_inv cs ctx w s" using shutdown_inv_steps [OF assms(1) shutdown_inv_init] .
  then have dom: "dom (gos s) = {..<length cs}" and fin: "\<forall>i < length cs. finished (gos s i)"
    using assms(2) by (auto simp: shutdown_inv_def unfinished_0 lessThan_atLeast0)
  have "has_stopped (gos s i)" if "i < length cs" for i
  proof -
    obtain g where "gos s i = Some g" using dom \<open>i < length cs\<close> by blast
    then show ?thesis using fin \<open>i < length cs\<close> by (auto simp: finished_def)
  qed
  then show ?thesis using inv by (auto simp: shutdown_inv_def)
qed

section \<open>Properties\<close>

text \<open>
  C19: the start phase of \<^verbatim>\<open>Lifecycle.Run\<close> starts the components in the order of
  registration, each once and after its predecessors succeeded.  At the first failure it returns
  the wrapped error of that component; the components after it are not started and the started
  ones are left running (the state is that of the starts alone).
\<close>

theorem start_components_spec:
  "\<exists>n \<le> length cs. starts_ok ctx (take (n - 1) cs) w \<and>
     start_components cs ctx w l =
       (if starts_ok ctx cs w then None
        else map_option (start_error (cs ! (n - 1))) (fst (Start (cs ! (n - 1)) ctx (start_all ctx (take (n - 1) cs) w))),
        start_all ctx (take n cs) w, l @ map start_line (take n cs)) \<and>
     (if starts_ok ctx cs w then n = length cs
      else 0 < n \<and> fst (Start (cs ! (n - 1)) ctx (start_all ctx (take (n - 1) cs) w)) \<noteq> None)"
proof (rule starts_cases [of ctx cs w])
  assume ok: "starts_ok ctx cs w"
  then have "starts_ok ctx (take (length cs - 1) cs) w" by (auto simp: starts_ok_def min_def)
  then show ?thesis using ok start_components_ok [OF ok, of l] by (intro exI [of _ "length cs"]) simp
next
  fix xs c ys err
  assume cs: "cs = xs @ c # ys" "starts_ok ctx xs w" "fst (Start c ctx (start_all ctx xs w)) = Some err"
  have "\<not> starts_ok ctx cs w" unfolding starts_ok_def cs(1)
    using cs(3) by (auto intro!: exI [of _ "length xs"] simp: nth_append)
  then show ?thesis using start_components_err [OF cs(2,3), of ys l] cs
    by (intro exI [of _ "Suc (length xs)"]) (simp add: nth_append)
qed

text \<open>
  C5: when the shutdown phase returns, every component has been stopped exactly once, whatever
  the schedule and whatever the calls returned: the calls made are a permutation of the
  components and the state is their joint effect.
\<close>

theorem shutdown_stops_all:
  assumes "shutdown_steps cs ctx (shutdown_init cs w l) s" and "returned s"
  shows "distinct (stops s) \<and> set (stops s) = {..<length cs} \<and>
    world s = stop_all ctx (map ((!) cs) (stops s)) w"
  using assms by (rule shutdown_run)

theorem shutdown_stops_all_witness:
  "\<exists>s. shutdown_steps [example_component 1, example_component 2] background
     (shutdown_init [example_component 1, example_component 2] [] []) s \<and> set (stops s) = {0, 1}"
proof -
  let ?cs = "[example_component 1, example_component 2]"
  obtain s where "shutdown_steps ?cs background (shutdown_init ?cs [] []) s" "returned s"
    using shutdown_complete [of "[0, 1]" ?cs background "[]" "[]"] by (auto simp: lessThan_Suc)
  then show ?thesis using shutdown_stops_all [of ?cs background "[]" "[]" s] by (auto simp: lessThan_Suc)
qed



text \<open>
  C40: the order of the calls of \<^verbatim>\<open>Stop\<close> is not fixed: every permutation of the components is the
  order of some complete run, also the order of registration.  The documentation of the type promises
  a stop in reverse order; only the goroutines are started in that order.
\<close>

theorem shutdown_any_order:
  assumes "distinct q" and "set q = {..<length cs}"
  shows "\<exists>s. shutdown_steps cs ctx (shutdown_init cs w l) s \<and> returned s \<and> stops s = q \<and>
    world s = stop_all ctx (map ((!) cs) q) w"
proof -
  obtain s where s: "shutdown_steps cs ctx (shutdown_init cs w l) s" "returned s" "stops s = q"
    using shutdown_complete [OF assms] by blast
  moreover have "shutdown_inv cs ctx w s" using shutdown_inv_steps [OF s(1) shutdown_inv_init] .
  ultimately show ?thesis by (auto simp: shutdown_inv_def)
qed

theorem shutdown_any_order_witness:
  "\<exists>s. shutdown_steps [example_component 1, example_component 2] background
     (shutdown_init [example_component 1, example_component 2] [] []) s \<and> returned s \<and> world s = [-1, -2]"
  using shutdown_any_order [of "[0, 1]" "[example_component 1, example_component 2]" background "[]" "[]"]
  by (auto simp: example_component_def lessThan_Suc stop_all_def)

text \<open>
  \<^verbatim>\<open>Group.Stop\<close> stops every component of the group, last one first, also after failures, and
  reports all the failures in that order.
\<close>

theorem Group_Stop_spec:
  "Group_Stop g ctx w =
     (let errs = stop_errs ctx (rev (g_components g)) w in
      (if errs = [] then None else Some (Errorf (''group '' @ g_name g @ '' stop failed: '' @ fmt_errs errs)),
       stop_all ctx (rev (g_components g)) w))"
  by (simp add: Group_Stop_def group_stop_loop_eq Let_def)

text \<open>
  C20: registering a group is registering its components one by one: the start phase succeeds for
  both or for neither, and when it does, with the same effect; stopping in reverse order has the same effect too.
\<close>

theorem group_flat:
  "(starts_ok ctx (xs @ group_component g # ys) w \<longleftrightarrow> starts_ok ctx (xs @ Components g @ ys) w) \<and>
   (starts_ok ctx (xs @ Components g @ ys) w \<longrightarrow>
      start_all ctx (xs @ group_component g # ys) w = start_all ctx (xs @ Components g @ ys) w) \<and>
   stop_all ctx (rev (xs @ group_component g # ys)) w = stop_all ctx (rev (xs @ Components g @ ys)) w"
proof -
  have "fst (Group_Start g ctx v) = None \<longleftrightarrow> starts_ok ctx (g_components g) v" for v
    using group_start_cases [of "g_components g" ctx v] by (auto simp: Group_Start_def)
  moreover have "starts_ok ctx (g_components g) v \<Longrightarrow> snd (Group_Start g ctx v) = start_all ctx (g_components g) v" for v
    by (simp add: Group_Start_def group_start_loop_eq start_components_ok)
  ultimately show ?thesis
    by (auto simp: group_component_def Components_def Group_Stop_state)
qed

theorem group_flat_witness:
  "start_all background [group_component (NewGroup ''g'' [example_component 1, example_component 2]), example_component 3] []
   = [1, 2, 3]"
proof -
  let ?g = "NewGroup ''g'' [example_component 1, example_component 2]"
  have "starts_ok background ([] @ Components ?g @ [example_component 3]) []"
    by (simp add: Components_def NewGroup_def example_component_def)
  then have "start_all background ([] @ group_component ?g # [example_component 3]) []
      = start_all background ([] @ Components ?g @ [example_component 3]) []"
    using group_flat [of background "[]" ?g "[example_component 3]" "[]"] by blast
  then show ?thesis by (simp add: Components_def NewGroup_def example_component_def)
qed

end
