(* ===== verification/Telemetry.thy ===== *)
theory Telemetry
  imports Lifecycle
begin

text \<open>
  Tracing and logging: \<^verbatim>\<open>tracing/tracing.go\<close>, \<^verbatim>\<open>tracing/otel.go\<close>, \<^verbatim>\<open>tracing/provider.go\<close>,
  \<^verbatim>\<open>logger/util.go\<close>, the context fields of \<^verbatim>\<open>logger/main.go\<close>, and the two clients whose set-up depends on the
  tracing configuration, \<^verbatim>\<open>client/http/http_client.go\<close> and \<^verbatim>\<open>client/grpc/grpc_client.go\<close>.
\<close>

section \<open>The tracing configuration\<close>

record TracingConfig =
  ServiceName :: string
  EnableTracing :: bool
  EnableDBTracing :: bool
  EnableRedisTracing :: bool
  EnableKafkaTracing :: bool
  EnableHTTPTracing :: bool
  EnableGRPCTracing :: bool
  GrpcEndpoint :: string

definition IsEnableTracing :: "TracingConfig \<Rightarrow> bool" where
  "IsEnableTracing t = EnableTracing t"

definition IsEnableDBTracing :: "TracingConfig \<Rightarrow> bool" where
  "IsEnableDBTracing t = (EnableTracing t \<and> EnableDBTracing t)"

definition IsEnableRedisTracing :: "TracingConfig \<Rightarrow> bool" where
  "IsEnableRedisTracing t = (EnableTracing t \<and> EnableRedisTracing t)"

definition IsEnableKafkaTracing :: "TracingConfig \<Rightarrow> bool" where
  "IsEnableKafkaTracing t = (EnableTracing t \<and> EnableKafkaTracing t)"

definition IsEnableHTTPTracing :: "TracingConfig \<Rightarrow> bool" where
  "IsEnableHTTPTracing t = (EnableTracing t \<and> EnableHTTPTracing t)"

definition IsEnableGRPCTracing :: "TracingConfig \<Rightarrow> bool" where
  "IsEnableGRPCTracing t = (EnableTracing t \<and> EnableGRPCTracing t)"

text \<open>The environment of the process: \<^verbatim>\<open>os.Getenv\<close> of an unset variable is the empty string.\<close>

type_synonym env = "string \<Rightarrow> string"

definition getBoolFromEnv :: "env \<Rightarrow> string \<Rightarrow> bool \<Rightarrow> bool" where
  "getBoolFromEnv Getenv v defaultValue =
     (if Getenv v = [] then defaultValue else ToUpper (Getenv v) = ''TRUE'')"

definition loadTracingConfigFromEnv :: "env \<Rightarrow> TracingConfig" where
  "loadTracingConfigFromEnv Getenv =
     \<lparr>ServiceName = Getenv ''SERVICE_NAME'',
      EnableTracing = getBoolFromEnv Getenv ''ENABLE_TRACING'' False,
      EnableDBTracing = getBoolFromEnv Getenv ''ENABLE_DB_TRACING'' False,
      EnableRedisTracing = getBoolFromEnv Getenv ''ENABLE_REDIS_TRACING'' False,
      EnableKafkaTracing = getBoolFromEnv Getenv ''ENABLE_KAFKA_TRACING'' False,
      EnableHTTPTracing = getBoolFromEnv Getenv ''ENABLE_HTTP_TRACING'' False,
      EnableGRPCTracing = getBoolFromEnv Getenv ''ENABLE_GRPC_TRACING'' False,
      GrpcEndpoint = []\<rparr>"

section \<open>The OpenTelemetry set-up\<close>

text \<open>
  The process-wide state: the tracing configuration, the tracer provider set in the SDK, the SDK providers
  that have been shut down, and the propagators.  A provider is the no-op one or one of the SDK, named by a number, with its endpoint
  and service name.  \<open>new_exporter\<close> stands for \<^verbatim>\<open>otlptracegrpc.New\<close> and \<open>Shutdown\<close> for the provider's method.
\<close>

datatype tracer_provider = NoopProvider | SdkProvider nat string string

record otel_state =
  globalTracingConfig :: TracingConfig
  current_provider :: tracer_provider
  created :: nat
  shut :: "nat list"
  propagators :: "string list"

definition SetGlobalTracingConfig :: "TracingConfig \<Rightarrow> otel_state \<Rightarrow> otel_state" where
  "SetGlobalTracingConfig cfg s = s\<lparr>globalTracingConfig := cfg\<rparr>"

definition GetGlobalTracingConfig :: "otel_state \<Rightarrow> TracingConfig" where
  "GetGlobalTracingConfig s = globalTracingConfig s"

definition newPropagator :: "string list" where
  "newPropagator = [''tracecontext'', ''baggage'']"

definition newTracerProvider :: "(string \<Rightarrow> gerror option) \<Rightarrow> TracingConfig option \<Rightarrow> otel_state \<Rightarrow> tracer_provider res \<times> otel_state" where
  "newTracerProvider new_exporter config s =
     (case config of
        None \<Rightarrow> (Inr NoopProvider, s)
      | Some c \<Rightarrow>
          (if \<not> EnableTracing c then (Inr NoopProvider, s)
           else (let grpcEndpoint = (if GrpcEndpoint c = [] then ''localhost:4317'' else GrpcEndpoint c) in
                 case new_exporter grpcEndpoint of
                   Some err \<Rightarrow> (Inl err, s)
                 | None \<Rightarrow> (Inr (SdkProvider (created s) grpcEndpoint (ServiceName (globalTracingConfig s))),
                             s\<lparr>created := created s + 1\<rparr>))))"

text \<open>The closure \<^verbatim>\<open>shutdown\<close>: the list of functions it captured, each a provider to shut down.\<close>

fun run_shutdown :: "(nat \<Rightarrow> gerror option) \<Rightarrow> nat list \<Rightarrow> gerror list \<Rightarrow> otel_state \<Rightarrow> gerror list \<times> otel_state" where
  "run_shutdown Shutdown [] errs s = (errs, s)"
| "run_shutdown Shutdown (p # ps) errs s =
     run_shutdown Shutdown ps (case Shutdown p of None \<Rightarrow> errs | Some e \<Rightarrow> errs @ [e]) (s\<lparr>shut := shut s @ [p]\<rparr>)"

text \<open>\<^verbatim>\<open>errors.Join\<close>: \<^verbatim>\<open>nil\<close> when there is nothing to join.\<close>

definition errors_Join :: "gerror list \<Rightarrow> gerror option" where
  "errors_Join errs = (if errs = [] then None else Some (Errorf (Join (map err_msg errs) [CHR 0x0A])))"

definition SetupOTelSDK :: "(string \<Rightarrow> gerror option) \<Rightarrow> TracingConfig option \<Rightarrow> otel_state \<Rightarrow> (nat list res) \<times> otel_state" where
  "SetupOTelSDK new_exporter config s =
     (let s1 = (case config of None \<Rightarrow> s | Some c \<Rightarrow> SetGlobalTracingConfig c s)\<lparr>propagators := newPropagator\<rparr> in
      case newTracerProvider new_exporter config s1 of
        (Inl err, s2) \<Rightarrow> (Inl (Wrapf [] err), s2)
      | (Inr tp, s2) \<Rightarrow>
          (Inr (case tp of NoopProvider \<Rightarrow> [] | SdkProvider n _ _ \<Rightarrow> [n]), s2\<lparr>current_provider := tp\<rparr>))"

text \<open>
  The provider as a component.  Its field \<^verbatim>\<open>shutdown\<close> is \<^verbatim>\<open>nil\<close> or the closure with the functions it still
  has to call, which it drops when it has run.
\<close>

record Provider =
  p_config :: "TracingConfig option"
  p_shutdown :: "nat list option"

definition NewProvider :: "TracingConfig option \<Rightarrow> Provider" where
  "NewProvider config = \<lparr>p_config = config, p_shutdown = None\<rparr>"

definition Provider_Name :: "Provider \<Rightarrow> string" where
  "Provider_Name p = ''tracing''"

definition Provider_Start :: "(string \<Rightarrow> gerror option) \<Rightarrow> Provider \<times> otel_state \<Rightarrow> gerror option \<times> Provider \<times> otel_state" where
  "Provider_Start new_exporter = (\<lambda>(p, s).
     (case SetupOTelSDK new_exporter (p_config p) s of
        (Inl err, s') \<Rightarrow> (Some err, p, s')
      | (Inr fns, s') \<Rightarrow> (None, p\<lparr>p_shutdown := Some fns\<rparr>, s')))"

definition Provider_Stop :: "(nat \<Rightarrow> gerror option) \<Rightarrow> Provider \<times> otel_state \<Rightarrow> gerror option \<times> Provider \<times> otel_state" where
  "Provider_Stop Shutdown = (\<lambda>(p, s).
     (case p_shutdown p of
        None \<Rightarrow> (None, p, s)
      | Some fns \<Rightarrow>
          (case run_shutdown Shutdown fns [] s of
             (errs, s') \<Rightarrow> (errors_Join errs, p\<lparr>p_shutdown := Some []\<rparr>, s'))))"

definition provider_component :: "(string \<Rightarrow> gerror option) \<Rightarrow> (nat \<Rightarrow> gerror option) \<Rightarrow> (Provider \<times> otel_state) component" where
  "provider_component new_exporter Shutdown =
     \<lparr>Name = ''tracing'', Start = (\<lambda>_. Provider_Start new_exporter), Stop = (\<lambda>_. Provider_Stop Shutdown)\<rparr>"

lemma run_shutdown_shut: "shut (snd (run_shutdown Shutdown ps errs s)) = shut s @ ps"
  by (induction Shutdown ps errs s rule: run_shutdown.induct) auto

section \<open>Clients\<close>

text \<open>
  \<^verbatim>\<open>http.Client\<close>: its timeout and its transport, where \<^verbatim>\<open>nil\<close> means the default transport of the
  process; a transport is the default one, a custom one, or one wrapped by the kit's instrumentation.
\<close>

datatype transport = DefaultTransport | CustomTransport nat | Instrumented transport

record http_client =
  Timeout :: int
  Transport :: "transport option"

definition NewHttpClient :: "TracingConfig \<Rightarrow> transport option \<Rightarrow> int \<Rightarrow> http_client" where
  "NewHttpClient tc cfgTransport timeout =
     (let cl = \<lparr>Timeout = timeout, Transport = None\<rparr>;
          base = (case cfgTransport of None \<Rightarrow> DefaultTransport | Some t \<Rightarrow> t)
      in if IsEnableHTTPTracing tc then cl\<lparr>Transport := Some (Instrumented base)\<rparr> else cl)"

text \<open>The transport a request goes through.\<close>

definition effective_transport :: "http_client \<Rightarrow> transport" where
  "effective_transport c = (case Transport c of None \<Rightarrow> DefaultTransport | Some t \<Rightarrow> t)"

text \<open>
  Dial options in the order they are given to \<^verbatim>\<open>grpc.NewClient\<close>; of several options that set the unary
  interceptor the last one counts.
\<close>

datatype dial_option = UnaryInterceptor string | StreamInterceptor string | InsecureCredentials | StatsHandler | OtherOption nat

record GrpcClientConfig =
  Address :: string
  Prefix :: string
  Insecure :: bool

definition grpc_NewClient_options :: "TracingConfig \<Rightarrow> GrpcClientConfig \<Rightarrow> dial_option list \<Rightarrow> dial_option list" where
  "grpc_NewClient_options tc config options =
     (let opts = [UnaryInterceptor ''prometheus'', StreamInterceptor ''prometheus''];
          opts = (if Insecure config then opts @ [InsecureCredentials] else opts);
          opts = (if IsEnableGRPCTracing tc then opts @ [StatsHandler] else opts);
          opts = (if Prefix config \<noteq> [] then opts @ [UnaryInterceptor (''prefix:'' @ Prefix config)] else opts)
      in options @ opts)"

text \<open>\<open>dial\<close> is \<^verbatim>\<open>grpc.NewClient\<close>.\<close>

definition grpc_NewClient :: "(string \<Rightarrow> dial_option list \<Rightarrow> 'c res) \<Rightarrow> TracingConfig \<Rightarrow> GrpcClientConfig \<Rightarrow> dial_option list \<Rightarrow> 'c res" where
  "grpc_NewClient dial tc config options =
     (case dial (Address config) (grpc_NewClient_options tc config options) of Inl err \<Rightarrow> Inl err | Inr conn \<Rightarrow> Inr conn)"

fun last_unary :: "dial_option list \<Rightarrow> string option" where
  "last_unary [] = None"
| "last_unary (x # xs) = (case last_unary xs of Some i \<Rightarrow> Some i | None \<Rightarrow> (case x of UnaryInterceptor i \<Rightarrow> Some i | _ \<Rightarrow> None))"

definition WithUnaryPrefixInterceptor :: "string \<Rightarrow> (go_ctx \<Rightarrow> string \<Rightarrow> 'q \<Rightarrow> 'r) \<Rightarrow> go_ctx \<Rightarrow> string \<Rightarrow> 'q \<Rightarrow> 'r" where
  "WithUnaryPrefixInterceptor pfx invoker ctx method req = invoker ctx (pfx @ method) req"

text \<open>\<open>AppendToOutgoingContext\<close> is that of the gRPC library.\<close>

definition WithUnaryInjectServiceNameInterceptor :: "(go_ctx \<Rightarrow> string \<Rightarrow> string \<Rightarrow> go_ctx) \<Rightarrow> string \<Rightarrow> (go_ctx \<Rightarrow> string \<Rightarrow> 'q \<Rightarrow> 'r)
    \<Rightarrow> go_ctx \<Rightarrow> string \<Rightarrow> 'q \<Rightarrow> 'r" where
  "WithUnaryInjectServiceNameInterceptor AppendToOutgoingContext serviceName invoker ctx method req =
     invoker (AppendToOutgoingContext ctx ''x-caller-base_service'' serviceName) method req"

section \<open>The logger\<close>

definition MappingLogLevel :: "string \<Rightarrow> log_level" where
  "MappingLogLevel logLevel =
     (let l = ToUpper logLevel in
      if l = ''DEBUG'' then LDebug else if l = ''INFO'' then LInfo else if l = ''WARN'' then LWarn
      else if l = ''ERROR'' then LError else LInfo)"

definition MappingEnv :: "string \<Rightarrow> string" where
  "MappingEnv env =
     (let e = ToUpper env in
      if e = ''P'' then ''P'' else if e = ''D'' then ''D'' else if e = ''S'' then ''S'' else ''D'')"

definition MaskString :: "string \<Rightarrow> string" where
  "MaskString val =
     (let l = length val in
      if l = 0 then []
      else if l < 4 then ''****''
      else if l < 8 then take 2 val @ ''****'' @ drop (l - 2) val
      else take 3 val @ ''****'' @ drop (l - 3) val)"

text \<open>A span context: its identifiers, empty when zero; it is valid when both are set.\<close>

record span_context =
  TraceID :: string
  SpanID :: string

definition span_IsValid :: "span_context \<Rightarrow> bool" where
  "span_IsValid sc \<longleftrightarrow> TraceID sc \<noteq> [] \<and> SpanID sc \<noteq> []"

definition getSpanFromContext :: "span_context \<Rightarrow> string \<times> string \<times> bool" where
  "getSpanFromContext sc =
     (if \<not> span_IsValid sc then ([], [], False)
      else (let spanId = (if SpanID sc \<noteq> [] then SpanID sc else []);
                tracingId = (if TraceID sc \<noteq> [] then TraceID sc else [])
            in (tracingId, spanId, True)))"

text \<open>A logger is the list of fields added to it with \<^verbatim>\<open>With\<close>.  The span of the context is an argument.\<close>

type_synonym logger = "(string \<times> string) list"

definition With :: "logger \<Rightarrow> (string \<times> string) list \<Rightarrow> logger" where
  "With lg flds = lg @ flds"

definition InjectAttributes :: "go_ctx \<Rightarrow> span_context \<Rightarrow> logger \<Rightarrow> logger" where
  "InjectAttributes ctx sc lg =
     (case GetFromContext ctx of
        None \<Rightarrow> lg
      | Some attribute \<Rightarrow>
          (let flds = [];
               flds = (if RequestID attribute \<noteq> [] then flds @ [(''x_request_id'', RequestID attribute)] else flds);
               flds = (if UserID attribute \<noteq> [] then flds @ [(''x_user_id'', UserID attribute)] else flds);
               flds = (if StaffID attribute \<noteq> [] then flds @ [(''x_staff_id'', StaffID attribute)] else flds);
               flds = (if DeviceID attribute \<noteq> [] then flds @ [(''x_device_id'', DeviceID attribute)] else flds);
               (tracingId, spanId, ok) = getSpanFromContext sc;
               flds = (if \<not> ok then
                           (if tracingId \<noteq> [] then flds @ [(''x_trace_id'', tracingId), (''x_span_id'', spanId)] else flds)
                         else flds)
           in With lg flds))"

text \<open>The level and the encoding that \<^verbatim>\<open>New\<close> configures from the environment.\<close>

definition New_config :: "env \<Rightarrow> log_level \<times> string" where
  "New_config Getenv =
     (let zapLogLevel = MappingLogLevel (Getenv ''LOG_LEVEL'');
          logEncoding = (if Getenv ''LOG_ENCODING'' = [] then ''json'' else Getenv ''LOG_ENCODING'')
      in (zapLogLevel, logEncoding))"

text \<open>The configuration of the logger that \<^verbatim>\<open>New\<close> builds, as far as the kit sets it.\<close>

record zap_config =
  zap_Level :: log_level
  zap_Encoding :: string
  zap_TimeKey :: string
  zap_OutputPaths :: "string list"

definition logger_New :: "env \<Rightarrow> zap_config" where
  "logger_New Getenv =
     (let (zapLogLevel, logEncoding) = New_config Getenv
      in \<lparr>zap_Level = zapLogLevel, zap_Encoding = logEncoding, zap_TimeKey = ''timestamp'', zap_OutputPaths = [''stderr'']\<rparr>)"

text \<open>
  Fields with the types of the logging library: integers with their width in bits, floats by their value, times and durations in nanoseconds, and
  values the library gets by reflection.  A \<^verbatim>\<open>nil\<close> error gives a field that is skipped.
\<close>

datatype 'v zap_value =
    ZString string | ZBool bool | ZInt nat int | ZUint nat int | ZFloat nat rat | ZTime int | ZDuration int | ZAny 'v | ZError gerror | ZSkip

type_synonym 'v zap_field = "string \<times> 'v zap_value"

definition field_String :: "string \<Rightarrow> string \<Rightarrow> 'v zap_field" where
  "field_String key v = (key, ZString v)"

definition field_Int :: "string \<Rightarrow> int \<Rightarrow> 'v zap_field" where
  "field_Int key v = (key, ZInt 64 v)"

definition field_IntN :: "nat \<Rightarrow> string \<Rightarrow> int \<Rightarrow> 'v zap_field" where
  "field_IntN width key v = (key, ZInt width v)"

definition field_UintN :: "nat \<Rightarrow> string \<Rightarrow> int \<Rightarrow> 'v zap_field" where
  "field_UintN width key v = (key, ZUint width v)"

definition field_FloatN :: "nat \<Rightarrow> string \<Rightarrow> rat \<Rightarrow> 'v zap_field" where
  "field_FloatN width key v = (key, ZFloat width v)"

definition field_Bool :: "string \<Rightarrow> bool \<Rightarrow> 'v zap_field" where
  "field_Bool key v = (key, ZBool v)"

definition field_Duration :: "string \<Rightarrow> int \<Rightarrow> 'v zap_field" where
  "field_Duration key v = (key, ZDuration v)"

definition field_Time :: "string \<Rightarrow> int \<Rightarrow> 'v zap_field" where
  "field_Time key v = (key, ZTime v)"

definition field_Any :: "string \<Rightarrow> 'v \<Rightarrow> 'v zap_field" where
  "field_Any key v = (key, ZAny v)"

definition ErrorField :: "gerror option \<Rightarrow> 'v zap_field" where
  "ErrorField err = (case err of None \<Rightarrow> ([], ZSkip) | Some e \<Rightarrow> (''error'', ZError e))"

definition field_MaskString :: "string \<Rightarrow> string \<Rightarrow> 'v zap_field" where
  "field_MaskString key v = (key, ZString (MaskString v))"

text \<open>\<^verbatim>\<open>Print\<close> and \<^verbatim>\<open>Println\<close> are the same: \<open>Sprint\<close> formats the arguments; both log at the info level with the fields of the logger.\<close>

definition logger_Print :: "('v list \<Rightarrow> string) \<Rightarrow> 'v list \<Rightarrow> logger \<Rightarrow> log_line" where
  "logger_Print Sprint vs lg = Line LInfo (Sprint vs) lg"

definition logger_Printf :: "(string \<Rightarrow> 'v list \<Rightarrow> string) \<Rightarrow> string \<Rightarrow> 'v list \<Rightarrow> logger \<Rightarrow> log_line" where
  "logger_Printf Sprintf fmt vs lg = Line LInfo (Sprintf fmt vs) lg"

definition WithContext :: "go_ctx \<Rightarrow> span_context \<Rightarrow> logger \<Rightarrow> logger" where
  "WithContext ctx sc lg = InjectAttributes ctx sc lg"

definition GetLogger :: "go_ctx \<Rightarrow> span_context \<Rightarrow> logger \<Rightarrow> logger" where
  "GetLogger ctx sc logger = InjectAttributes ctx sc logger"

text \<open>The fields of the request attributes, without the empty ones.\<close>

definition attribute_fields :: "RequestAttributes \<Rightarrow> (string \<times> string) list" where
  "attribute_fields a = filter (\<lambda>(k, v). v \<noteq> [])
     [(''x_request_id'', RequestID a), (''x_user_id'', UserID a), (''x_staff_id'', StaffID a), (''x_device_id'', DeviceID a)]"

section \<open>Properties\<close>

text \<open>
  The tracing component.  A successful start installs an SDK provider exactly when tracing is enabled, with the
  default endpoint when none is configured, and a stop shuts down exactly the providers started since: stopping
  twice, or before a start, shuts nothing down again.
\<close>

theorem provider_start_stop:
  assumes "Provider_Start new_exporter (NewProvider config, s) = (None, p, s')"
  shows "(case config of
      Some c \<Rightarrow> (if EnableTracing c
        then current_provider s' = SdkProvider (created s) (if GrpcEndpoint c = [] then ''localhost:4317'' else GrpcEndpoint c) (ServiceName c)
          \<and> shut (snd (snd (Provider_Stop Shutdown (p, s')))) = shut s @ [created s]
        else current_provider s' = NoopProvider \<and> shut (snd (snd (Provider_Stop Shutdown (p, s')))) = shut s)
    | None \<Rightarrow> current_provider s' = NoopProvider \<and> shut (snd (snd (Provider_Stop Shutdown (p, s')))) = shut s) \<and>
    Provider_Stop Shutdown (snd (Provider_Stop Shutdown (p, s'))) = (None, snd (Provider_Stop Shutdown (p, s')))"
proof -
  have "snd (run_shutdown Shutdown [] [] x) = x" for x by simp
  then show ?thesis using assms
    by (auto simp: Provider_Start_def SetupOTelSDK_def newTracerProvider_def NewProvider_def Provider_Stop_def
        SetGlobalTracingConfig_def Let_def errors_Join_def split: option.splits sum.splits if_splits prod.splits)
qed

theorem provider_start_stop_witness:
  "\<exists>p s'. Provider_Start (\<lambda>_. None) (NewProvider (Some (loadTracingConfigFromEnv (\<lambda>v. ''true''))),
       \<lparr>globalTracingConfig = loadTracingConfigFromEnv (\<lambda>_. []), current_provider = NoopProvider, created = 4, shut = [], propagators = []\<rparr>) = (None, p, s') \<and>
     shut (snd (snd (Provider_Stop (\<lambda>_. None) (p, s')))) = [4]"
proof -
  let ?c = "loadTracingConfigFromEnv (\<lambda>v. ''true'')"
  let ?s = "\<lparr>globalTracingConfig = loadTracingConfigFromEnv (\<lambda>_. []), current_provider = NoopProvider, created = 4, shut = [], propagators = []\<rparr>"
  have c: "EnableTracing ?c" by code_simp
  obtain p s' where s: "Provider_Start (\<lambda>_. None) (NewProvider (Some ?c), ?s) = (None, p, s')"
    using c by (simp add: Provider_Start_def SetupOTelSDK_def newTracerProvider_def NewProvider_def SetGlobalTracingConfig_def Let_def)
  then show ?thesis using provider_start_stop [OF s, of "\<lambda>_. None"] c by auto
qed

text \<open>
  The transport given to \<^verbatim>\<open>NewHttpClient\<close> is used only when HTTP tracing is enabled; otherwise the client
  silently falls back to the default transport, whatever was configured.
\<close>

theorem NewHttpClient_transport:
  "effective_transport (NewHttpClient tc t timeout) =
     (if IsEnableHTTPTracing tc then Instrumented (case t of None \<Rightarrow> DefaultTransport | Some b \<Rightarrow> b) else DefaultTransport)"
  by (simp add: NewHttpClient_def effective_transport_def Let_def)

text \<open>
  With a prefix configured, the gRPC client's only unary interceptor is the one that adds the prefix: it replaces
  the metrics interceptor set before, and any that the caller passed.
\<close>

theorem grpc_client_prefix_replaces_metrics:
  "last_unary (grpc_NewClient_options tc config options) =
     Some (if Prefix config = [] then ''prometheus'' else ''prefix:'' @ Prefix config)"
proof -
  have app: "last_unary (xs @ ys) = (case last_unary ys of Some i \<Rightarrow> Some i | None \<Rightarrow> last_unary xs)" for xs ys
    by (induction xs) (auto split: option.splits)
  show ?thesis by (simp add: grpc_NewClient_options_def Let_def app)
qed

text \<open>
  What a masked value shows.  Of a value of eight or more bytes only the first and the last three are shown, so
  values that agree there are masked alike; a value of fewer than four bytes is hidden altogether; but a value of
  exactly four bytes is shown completely.
\<close>

theorem MaskString_shows:
  "(8 \<le> length v \<and> 8 \<le> length w \<longrightarrow>
      (MaskString v = MaskString w \<longleftrightarrow> take 3 v = take 3 w \<and> drop (length v - 3) v = drop (length w - 3) w)) \<and>
   (0 < length v \<and> length v < 4 \<longrightarrow> MaskString v = ''****'') \<and>
   (length v = 4 \<longrightarrow> take 2 (MaskString v) @ drop 6 (MaskString v) = v)"
proof (intro conjI impI)
  assume "8 \<le> length v \<and> 8 \<le> length w"
  then show "MaskString v = MaskString w \<longleftrightarrow> take 3 v = take 3 w \<and> drop (length v - 3) v = drop (length w - 3) w"
    by (auto simp: MaskString_def Let_def)
qed (auto simp: MaskString_def Let_def min_def)

theorem MaskString_shows_witness:
  "MaskString ''0123456789'' = MaskString ''012abcd789'' \<and> MaskString ''pin'' = ''****'' \<and>
   take 2 (MaskString ''1234'') @ drop 6 (MaskString ''1234'') = ''1234''"
  using MaskString_shows [of "''0123456789''" "''012abcd789''"] MaskString_shows [of "''pin''" "''pin''"]
    MaskString_shows [of "''1234''" "''1234''"] by simp

text \<open>
  The logger of a request gets the non-empty request, user, staff and device identifiers and nothing else.  In
  particular it never gets the trace and span identifiers: \<^verbatim>\<open>InjectAttributes\<close> adds them only when there is no
  valid span, and then they are empty.
\<close>

theorem InjectAttributes_no_trace:
  "InjectAttributes ctx sc lg =
     (case GetFromContext ctx of None \<Rightarrow> lg | Some a \<Rightarrow> lg @ attribute_fields a) \<and>
   fst ` set (attribute_fields a) \<inter> {''x_trace_id'', ''x_span_id''} = {}"
proof -
  have "getSpanFromContext sc = ([], [], False) \<or> (\<exists>t sp. getSpanFromContext sc = (t, sp, True))"
    by (simp add: getSpanFromContext_def Let_def)
  then have "InjectAttributes ctx sc lg = (case GetFromContext ctx of None \<Rightarrow> lg | Some a \<Rightarrow> lg @ attribute_fields a)"
    by (elim disjE exE) (simp_all add: InjectAttributes_def With_def attribute_fields_def Let_def split: option.split)
  moreover have "fst ` set (attribute_fields a) \<subseteq> {''x_request_id'', ''x_user_id'', ''x_staff_id'', ''x_device_id''}"
    by (auto simp: attribute_fields_def)
  ultimately show ?thesis by auto
qed

end
