(* ===== verification/Server.thy ===== *)
theory Server
  imports Lifecycle Telemetry "HOL-Library.Multiset"
begin

text \<open>
  The server (\<^verbatim>\<open>server/main.go\<close>, \<^verbatim>\<open>server/grpc/interceptor.go\<close>) and the JSON envelope of its gateway
  (\<^verbatim>\<open>response_wrapper/response_wrapper.go\<close>).

  Handlers and interceptors work on the state \<^typ>\<open>'w\<close> of the process.  What the chaining functions of gRPC do
  with interceptors, the recovery and metrics interceptors, listening and stopping, \<^verbatim>\<open>status.Convert\<close> and the marshaler are arguments.
\<close>

section \<open>Interceptors\<close>

type_synonym ('q, 'a, 'w) unary_handler = "go_ctx \<Rightarrow> 'q \<Rightarrow> 'w \<Rightarrow> 'a outcome \<times> 'w"

type_synonym ('q, 'a, 'w) unary_interceptor = "go_ctx \<Rightarrow> 'q \<Rightarrow> ('q, 'a, 'w) unary_handler \<Rightarrow> 'w \<Rightarrow> 'a outcome \<times> 'w"

text \<open>A handler of streams gets the stream, with its context, and returns an error or nothing.\<close>

type_synonym ('m, 'w) stream_handler = "'m \<Rightarrow> 'w \<Rightarrow> unit outcome \<times> 'w"

type_synonym ('m, 'w) stream_interceptor = "'m \<Rightarrow> ('m, 'w) stream_handler \<Rightarrow> 'w \<Rightarrow> unit outcome \<times> 'w"

text \<open>The codes named here, as numbers.\<close>

definition Internal :: nat where
  "Internal = 13"

text \<open>
  The kit's handler of a recovered panic: it logs the panic (\<open>record\<close> writes the line; the stack is left out) and makes an internal error
  of it.
\<close>

definition recoverHandler :: "(log_line \<Rightarrow> 'w \<Rightarrow> 'w) \<Rightarrow> string \<Rightarrow> 'w \<Rightarrow> gerror \<times> 'w" where
  "recoverHandler record p w =
     (StatusError Internal ''internal server error'', record (Line LError ''gRPC panic recovered'' [(''panic'', p)]) w)"

definition WithTimeoutInterceptor :: "int \<Rightarrow> int \<Rightarrow> ('q, 'a, 'w) unary_interceptor" where
  "WithTimeoutInterceptor timeout now ctx req handler w = handler (WithTimeout ctx now timeout) req w"

text \<open>
  The gRPC libraries: the recovery interceptors around a handler of panics, the metrics interceptors, and the composition of
  interceptors.  \<open>grpc_laws\<close> is what their documentation says: a recovery interceptor turns a panic below it into the error of the
  handler of panics and is transparent otherwise; the first interceptor of a chain is the outermost.
\<close>

type_synonym 'w panic_handler = "string \<Rightarrow> 'w \<Rightarrow> gerror \<times> 'w"

record ('q, 'a, 'm, 'w) grpc_lib =
  grpc_recovery :: "'w panic_handler \<Rightarrow> ('q, 'a, 'w) unary_interceptor"
  grpc_recovery_stream :: "'w panic_handler \<Rightarrow> ('m, 'w) stream_interceptor"
  grpc_prometheus :: "('q, 'a, 'w) unary_interceptor"
  grpc_prometheus_stream :: "('m, 'w) stream_interceptor"
  ChainUnaryInterceptor :: "('q, 'a, 'w) unary_interceptor list \<Rightarrow> ('q, 'a, 'w) unary_handler \<Rightarrow> ('q, 'a, 'w) unary_handler"
  ChainStreamInterceptor :: "('m, 'w) stream_interceptor list \<Rightarrow> ('m, 'w) stream_handler \<Rightarrow> ('m, 'w) stream_handler"

definition chain_of :: "('q, 'a, 'w) unary_interceptor list \<Rightarrow> ('q, 'a, 'w) unary_handler \<Rightarrow> ('q, 'a, 'w) unary_handler" where
  "chain_of is handler = foldr (\<lambda>i h ctx req w. i ctx req h w) is handler"

definition stream_chain_of :: "('m, 'w) stream_interceptor list \<Rightarrow> ('m, 'w) stream_handler \<Rightarrow> ('m, 'w) stream_handler" where
  "stream_chain_of is handler = foldr (\<lambda>i h st w. i st h w) is handler"

definition recovered :: "'w panic_handler \<Rightarrow> 'a outcome \<times> 'w \<Rightarrow> 'a outcome \<times> 'w" where
  "recovered recov r =
     (case r of
        (Panics p, w) \<Rightarrow> (case recov p w of (e, w') \<Rightarrow> (Returns (Inl e), w'))
      | (Returns x, w) \<Rightarrow> (Returns x, w))"

definition grpc_laws :: "('q, 'a, 'm, 'w) grpc_lib \<Rightarrow> bool" where
  "grpc_laws lib \<longleftrightarrow>
     (\<forall>recov ctx req handler w. grpc_recovery lib recov ctx req handler w = recovered recov (handler ctx req w)) \<and>
     (\<forall>recov st handler w. grpc_recovery_stream lib recov st handler w = recovered recov (handler st w)) \<and>
     ChainUnaryInterceptor lib = chain_of \<and> ChainStreamInterceptor lib = stream_chain_of"

section \<open>The gRPC server\<close>

text \<open>Options the caller passes on are named by numbers.\<close>

record ('q, 'a, 'm, 'w) GrpcServerConfig =
  grpc_Host :: string
  grpc_Port :: int
  GrpcOptions :: "nat list option"
  UnaryInterceptors :: "('q, 'a, 'w) unary_interceptor list option"
  StreamInterceptors :: "('m, 'w) stream_interceptor list option"

definition server_interceptors :: "('q, 'a, 'm, 'w) grpc_lib \<Rightarrow> (log_line \<Rightarrow> 'w \<Rightarrow> 'w) \<Rightarrow> ('q, 'a, 'm, 'w) GrpcServerConfig
    \<Rightarrow> ('q, 'a, 'w) unary_interceptor list" where
  "server_interceptors lib record cfg =
     (let unaryInterceptors = [grpc_recovery lib (recoverHandler record), grpc_prometheus lib] in
      case UnaryInterceptors cfg of None \<Rightarrow> unaryInterceptors | Some us \<Rightarrow> unaryInterceptors @ us)"

definition server_stream_interceptors :: "('q, 'a, 'm, 'w) grpc_lib \<Rightarrow> (log_line \<Rightarrow> 'w \<Rightarrow> 'w) \<Rightarrow> ('q, 'a, 'm, 'w) GrpcServerConfig
    \<Rightarrow> ('m, 'w) stream_interceptor list" where
  "server_stream_interceptors lib record cfg =
     (let streamInterceptors = [grpc_recovery_stream lib (recoverHandler record), grpc_prometheus_stream lib] in
      case StreamInterceptors cfg of None \<Rightarrow> streamInterceptors | Some us \<Rightarrow> streamInterceptors @ us)"

text \<open>
  A server by its options, in their order: the chains, the options of the caller, and the stats handler of tracing.  Beside it \<^verbatim>\<open>InitGrpcServer\<close> sets
  process-wide switches of the libraries.
\<close>

record ('q, 'a, 'm, 'w) grpc_server =
  unary_chain :: "('q, 'a, 'w) unary_handler \<Rightarrow> ('q, 'a, 'w) unary_handler"
  stream_chain :: "('m, 'w) stream_handler \<Rightarrow> ('m, 'w) stream_handler"
  caller_options :: "nat list"
  stats_handler :: bool

record grpc_switches =
  HandlingTimeHistogram :: bool
  ClientHandlingTimeHistogram :: bool
  grpc_EnableTracing :: bool

definition InitGrpcServer :: "('q, 'a, 'm, 'w) grpc_lib \<Rightarrow> (log_line \<Rightarrow> 'w \<Rightarrow> 'w) \<Rightarrow> TracingConfig \<Rightarrow> ('q, 'a, 'm, 'w) GrpcServerConfig
    \<Rightarrow> grpc_switches \<Rightarrow> ('q, 'a, 'm, 'w) grpc_server \<times> grpc_switches" where
  "InitGrpcServer lib record tc cfg sw =
     (let sw = sw\<lparr>HandlingTimeHistogram := True, ClientHandlingTimeHistogram := True\<rparr>;
          options = \<lparr>unary_chain = ChainUnaryInterceptor lib (server_interceptors lib record cfg),
            stream_chain = ChainStreamInterceptor lib (server_stream_interceptors lib record cfg),
            caller_options = (case GrpcOptions cfg of None \<Rightarrow> [] | Some os \<Rightarrow> os), stats_handler = False\<rparr>
      in if IsEnableGRPCTracing tc then (options\<lparr>stats_handler := True\<rparr>, sw\<lparr>grpc_EnableTracing := True\<rparr>) else (options, sw))"

section \<open>The HTTP server\<close>

text \<open>The options of the gateway: the kit's marshaler, by its four settings, and those of the caller.\<close>

datatype gateway_option = MarshalerOption bool bool bool bool | CallerOption nat

record ('h) HttpServerConfig =
  http_Host :: string
  http_Port :: int
  HttpMiddlewares :: "('h \<Rightarrow> 'h) list"
  EnableGrpcGateway :: bool
  GrpcGatewayOptions :: "nat list"

definition InitGrpcGateway :: "nat list \<Rightarrow> gateway_option list res" where
  "InitGrpcGateway options = Inr (MarshalerOption True True True True # map CallerOption options)"

text \<open>The mux of the HTTP server: its patterns, the gateway at the root when it is enabled.\<close>

datatype mux_entry = GatewayEntry "gateway_option list" | UserEntry nat

type_synonym mux = "(string \<times> mux_entry) list"

definition InitHttpServer :: "'h HttpServerConfig \<Rightarrow> (mux \<times> gateway_option list option) res" where
  "InitHttpServer cfg =
     (if EnableGrpcGateway cfg then
        (case InitGrpcGateway (GrpcGatewayOptions cfg) of
           Inl err \<Rightarrow> Inl (Wrapf ''failed to initialize grpc gateway: '' err)
         | Inr gw \<Rightarrow> Inr ([(''/'', GatewayEntry gw)], Some gw))
      else Inr ([], None))"

section \<open>The server\<close>

record ('q, 'a, 'm, 'w, 'h) ServerConfig =
  sc_Http :: "'h HttpServerConfig option"
  sc_Grpc :: "('q, 'a, 'm, 'w) GrpcServerConfig option"

record ('q, 'a, 'm, 'w, 'h) Server =
  srv_cfg :: "('q, 'a, 'm, 'w, 'h) ServerConfig"
  grpcServer :: "('q, 'a, 'm, 'w) grpc_server option"
  httpServer :: "mux option"
  grpcGateway :: "gateway_option list option"
  srv_l :: "logger option"

definition initilize :: "('q, 'a, 'm, 'w) grpc_lib \<Rightarrow> (log_line \<Rightarrow> 'w \<Rightarrow> 'w) \<Rightarrow> TracingConfig
    \<Rightarrow> ('q, 'a, 'm, 'w, 'h) Server \<times> grpc_switches \<Rightarrow> gerror option \<times> ('q, 'a, 'm, 'w, 'h) Server \<times> grpc_switches" where
  "initilize lib record tc = (\<lambda>(s, sw).
     (let (s, sw) = (case sc_Grpc (srv_cfg s) of
            None \<Rightarrow> (s, sw)
          | Some c \<Rightarrow> (case InitGrpcServer lib record tc c sw of (g, sw') \<Rightarrow> (s\<lparr>grpcServer := Some g\<rparr>, sw')))
      in case sc_Http (srv_cfg s) of
           None \<Rightarrow> (None, s, sw)
         | Some c \<Rightarrow>
             (case InitHttpServer c of
                Inl err \<Rightarrow> (Some (Wrapf ''failed to initialize http server: '' err), s, sw)
              | Inr (mx, gw) \<Rightarrow> (None, s\<lparr>httpServer := Some mx, grpcGateway := gw\<rparr>, sw))))"

text \<open>\<^verbatim>\<open>Init\<close>: on an error it would call the logger of the server, which is \<^verbatim>\<open>nil\<close>; so it would on a configuration that is \<^verbatim>\<open>nil\<close>.\<close>

definition nil_dereference :: string where
  "nil_dereference = ''invalid memory address or nil pointer dereference''"

definition Server_Init :: "('q, 'a, 'm, 'w) grpc_lib \<Rightarrow> (log_line \<Rightarrow> 'w \<Rightarrow> 'w) \<Rightarrow> TracingConfig
    \<Rightarrow> ('q, 'a, 'm, 'w, 'h) ServerConfig option \<Rightarrow> (('q, 'a, 'm, 'w, 'h) Server, grpc_switches) op" where
  "Server_Init lib record tc cfg sw =
     (case cfg of
        None \<Rightarrow> (Panics nil_dereference, sw)
      | Some c \<Rightarrow>
          (case initilize lib record tc (\<lparr>srv_cfg = c, grpcServer = None, httpServer = None, grpcGateway = None, srv_l = None\<rparr>, sw) of
             (Some err, s, sw') \<Rightarrow> (Panics nil_dereference, sw')
           | (None, s, sw') \<Rightarrow> (Returns (Inr s), sw')))"

definition SetLogger :: "logger \<Rightarrow> ('q, 'a, 'm, 'w, 'h) Server \<Rightarrow> ('q, 'a, 'm, 'w, 'h) Server" where
  "SetLogger lg s = s\<lparr>srv_l := Some lg\<rparr>"

definition GetGrpcServer :: "('q, 'a, 'm, 'w, 'h) Server \<Rightarrow> ('q, 'a, 'm, 'w) grpc_server option" where
  "GetGrpcServer s = grpcServer s"

definition GetHttpServer :: "('q, 'a, 'm, 'w, 'h) Server \<Rightarrow> mux option" where
  "GetHttpServer s = httpServer s"

definition GetGrpcGateway :: "('q, 'a, 'm, 'w, 'h) Server \<Rightarrow> gateway_option list option" where
  "GetGrpcGateway s = grpcGateway s"

section \<open>Running\<close>

text \<open>The handler \<^verbatim>\<open>Run\<close> serves: the mux, wrapped by the middlewares in turn and by the tracing handler \<open>otel\<close>.\<close>

definition wrap_handler :: "('h \<Rightarrow> 'h) \<Rightarrow> TracingConfig \<Rightarrow> 'h HttpServerConfig \<Rightarrow> 'h \<Rightarrow> 'h" where
  "wrap_handler otel tc cfg mux =
     (let handler = fold (\<lambda>middleware h. middleware h) (HttpMiddlewares cfg) mux
      in if IsEnableHTTPTracing tc then otel handler else handler)"

definition traced_request :: "http_request \<Rightarrow> bool" where
  "traced_request r \<longleftrightarrow> \<not> HasPrefix (url_path r) ''/health''"

text \<open>
  What \<^verbatim>\<open>Run\<close> has started when it waits for the signal: the servers with their addresses and, for HTTP, the handler, in the order of
  their shutdown functions.  \<open>listen\<close> is the result of listening, \<open>mux_handler\<close> the handler that a mux is.  \<^verbatim>\<open>Fatal\<close> ends the process.  The
  pointers of a server made by \<^verbatim>\<open>Init\<close> are set together with its configurations; the \<^verbatim>\<open>nil\<close> cases of others panic.
\<close>

datatype 'h started = GrpcServer string | HttpServer string 'h

definition run_grpc :: "(string \<Rightarrow> gerror option) \<Rightarrow> ('q, 'a, 'm, 'w, 'h) Server \<Rightarrow> 'h started list outcome" where
  "run_grpc listen s =
     (case grpcServer s of
        None \<Rightarrow> Returns (Inr [])
      | Some _ \<Rightarrow>
          (case sc_Grpc (srv_cfg s) of
             None \<Rightarrow> Panics nil_dereference
           | Some c \<Rightarrow>
               (if grpc_Port c = 0 then Panics ''Grpc port is not set''
                else (let listenAddress = grpc_Host c @ '':'' @ Itoa (grpc_Port c) in
                      case listen listenAddress of
                        Some err \<Rightarrow> Panics ''Cannot listen grpc port ''
                      | None \<Rightarrow> Returns (Inr [GrpcServer listenAddress])))))"

definition run_http :: "(mux \<Rightarrow> 'h) \<Rightarrow> ('h \<Rightarrow> 'h) \<Rightarrow> TracingConfig \<Rightarrow> ('q, 'a, 'm, 'w, 'h) Server \<Rightarrow> 'h started list outcome" where
  "run_http mux_handler otel tc s =
     (case httpServer s of
        None \<Rightarrow> Returns (Inr [])
      | Some mx \<Rightarrow>
          (case sc_Http (srv_cfg s) of
             None \<Rightarrow> Panics nil_dereference
           | Some c \<Rightarrow>
               (if http_Port c = 0 then Panics ''Http port is not set''
                else Returns (Inr [HttpServer (http_Host c @ '':'' @ Itoa (http_Port c)) (wrap_handler otel tc c (mux_handler mx))]))))"

definition Server_Run :: "(string \<Rightarrow> gerror option) \<Rightarrow> (mux \<Rightarrow> 'h) \<Rightarrow> ('h \<Rightarrow> 'h) \<Rightarrow> TracingConfig \<Rightarrow> ('q, 'a, 'm, 'w, 'h) Server
    \<Rightarrow> 'h started list outcome" where
  "Server_Run listen mux_handler otel tc s =
     out_bind (run_grpc listen s) (\<lambda>gs. out_bind (run_http mux_handler otel tc s) (\<lambda>hs. Returns (Inr (gs @ hs))))"

text \<open>What the goroutines do when serving ends: the message with which they end the process, if they do.\<close>

definition ErrServerClosed :: gerror where
  "ErrServerClosed = Sentinel ''http: Server closed''"

definition serve_grpc_ends :: "gerror option \<Rightarrow> string option" where
  "serve_grpc_ends errGrpc = (case errGrpc of None \<Rightarrow> None | Some e \<Rightarrow> Some ''Cannot serve grpc'')"

definition serve_http_ends :: "gerror option \<Rightarrow> string option" where
  "serve_http_ends err =
     (case err of None \<Rightarrow> None | Some e \<Rightarrow> (if \<not> errors_Is e ErrServerClosed then Some ''failed to http server'' else None))"

section \<open>The end of a server\<close>

text \<open>The shutdown functions: \<open>GracefulStop\<close> and \<open>http_Shutdown\<close> are those of the libraries; an error of the latter ends the process.\<close>

record 'w stop_lib =
  GracefulStop :: "string \<Rightarrow> 'w \<Rightarrow> 'w"
  http_Shutdown :: "string \<Rightarrow> go_ctx \<Rightarrow> 'w \<Rightarrow> gerror option \<times> 'w"

definition http_shutdown_ctx :: "int \<Rightarrow> go_ctx \<Rightarrow> go_ctx" where
  "http_shutdown_ctx now ctx = WithTimeout (WithoutCancel ctx) now (5 * second)"

fun shutdown_fn :: "'w stop_lib \<Rightarrow> int \<Rightarrow> go_ctx \<Rightarrow> 'h started \<Rightarrow> 'w \<Rightarrow> gerror option \<times> 'w" where
  "shutdown_fn lib now ctx (GrpcServer a) w = (None, GracefulStop lib a w)"
| "shutdown_fn lib now ctx (HttpServer a h) w = http_Shutdown lib a (http_shutdown_ctx now ctx) w"

text \<open>
  The function that \<^verbatim>\<open>Run\<close> returns, as a step relation: it spawns a goroutine for each shutdown function and waits for the wait group.  \<open>waiting\<close> are the
  goroutines that have not called their function, \<open>leaving\<close> those that have and will count the wait group down.
\<close>

datatype end_status = Ending | Ended | Exited string

record 'w ending =
  e_next :: nat
  e_wg :: nat
  waiting :: "nat list"
  leaving :: "nat list"
  e_world :: 'w
  e_log :: "log_line list"
  called :: "nat list"
  e_status :: end_status

definition end_init :: "'w \<Rightarrow> 'w ending" where
  "end_init w = \<lparr>e_next = 0, e_wg = 0, waiting = [], leaving = [], e_world = w,
     e_log = [Line LInfo ''Starting Graceful server shutdown...'' []], called = [], e_status = Ending\<rparr>"

inductive end_step :: "('w \<Rightarrow> gerror option \<times> 'w) list \<Rightarrow> 'w ending \<Rightarrow> 'w ending \<Rightarrow> bool"
  for fs :: "('w \<Rightarrow> gerror option \<times> 'w) list" where
  e_spawn: "e_status s = Ending \<Longrightarrow> e_next s < length fs \<Longrightarrow>
    end_step fs s (s\<lparr>e_next := e_next s + 1, e_wg := e_wg s + 1, waiting := e_next s # waiting s\<rparr>)"
| e_call: "e_status s = Ending \<Longrightarrow> i \<in> set (waiting s) \<Longrightarrow> (fs ! i) (e_world s) = (None, w') \<Longrightarrow>
    end_step fs s (s\<lparr>waiting := remove1 i (waiting s), leaving := i # leaving s, e_world := w', called := called s @ [i]\<rparr>)"
| e_fatal: "e_status s = Ending \<Longrightarrow> i \<in> set (waiting s) \<Longrightarrow> (fs ! i) (e_world s) = (Some e, w') \<Longrightarrow>
    end_step fs s (s\<lparr>e_world := w', called := called s @ [i], e_status := Exited (''failed to shutdown http server: '' @ err_msg e)\<rparr>)"
| e_done: "e_status s = Ending \<Longrightarrow> i \<in> set (leaving s) \<Longrightarrow>
    end_step fs s (s\<lparr>leaving := remove1 i (leaving s), e_wg := e_wg s - 1\<rparr>)"
| e_wait: "e_status s = Ending \<Longrightarrow> e_next s = length fs \<Longrightarrow> e_wg s = 0 \<Longrightarrow>
    end_step fs s (s\<lparr>e_log := e_log s @ [Line LInfo ''Graceful shutdown server completed'' []], e_status := Ended\<rparr>)"

inductive_cases end_stepE: "end_step fs s t"

section \<open>The response envelope\<close>

record ResponseStatus =
  ErrorCode :: nat
  ErrorMessage :: string
  AlertMessage :: string

record StandardResponse =
  Status :: ResponseStatus
  Data :: "string option"

definition ResponseWrapper :: "('m \<Rightarrow> string res) \<Rightarrow> 'm \<Rightarrow> StandardResponse res" where
  "ResponseWrapper Marshal resp =
     (case Marshal resp of
        Inl err \<Rightarrow> Inl err
      | Inr buf \<Rightarrow> Inr \<lparr>Status = \<lparr>ErrorCode = 0, ErrorMessage = ''Success'', AlertMessage = []\<rparr>, Data = Some buf\<rparr>)"

definition HTTPStatusFromCode :: "nat \<Rightarrow> int" where
  "HTTPStatusFromCode code =
     (if code = 0 then 200 else if code = 1 then 499 else if code = 2 then 500 else if code = 3 then 400
      else if code = 4 then 504 else if code = 5 then 404 else if code = 6 then 409 else if code = 7 then 403
      else if code = 16 then 401 else if code = 8 then 429 else if code = 9 then 400 else if code = 10 then 409
      else if code = 11 then 400 else if code = 12 then 501 else if code = 13 then 500 else if code = 14 then 503
      else if code = 15 then 500 else 200)"

text \<open>What is written to the client: the status, the content type at the time of \<^verbatim>\<open>WriteHeader\<close>, and the body.\<close>

record http_written =
  w_status :: int
  w_type :: string
  w_body :: string

text \<open>\<open>Convert\<close> is \<^verbatim>\<open>status.Convert\<close>: the code and the message of an error.\<close>

definition ErrorHandler :: "(gerror \<Rightarrow> nat \<times> string) \<Rightarrow> (StandardResponse \<Rightarrow> string res) \<Rightarrow> gerror \<Rightarrow> http_written" where
  "ErrorHandler Convert Marshal err =
     (let (code, msg) = Convert err;
          httpStatus = HTTPStatusFromCode code;
          errorResp = \<lparr>Status = \<lparr>ErrorCode = code, ErrorMessage = msg, AlertMessage = []\<rparr>, Data = None\<rparr>
      in case Marshal errorResp of
           Inl e \<Rightarrow> \<lparr>w_status = httpStatus, w_type = ''application/json'', w_body = err_msg e @ [CHR 0x0A]\<rparr>
         | Inr buf \<Rightarrow> \<lparr>w_status = httpStatus, w_type = ''application/json'', w_body = buf\<rparr>)"

section \<open>Properties\<close>

lemma chain_of_Cons [simp]: "chain_of (i # is) h = (\<lambda>ctx req w. i ctx req (chain_of is h) w)"
  by (simp add: chain_of_def)

lemma stream_chain_of_Cons [simp]: "stream_chain_of (i # is) h = (\<lambda>st w. i st (stream_chain_of is h) w)"
  by (simp add: stream_chain_of_def)

lemma recovered_recoverHandler [simp]:
  "recovered (recoverHandler record) r =
     (case r of
        (Panics p, w) \<Rightarrow> (Returns (Inl (StatusError Internal ''internal server error'')),
           record (Line LError ''gRPC panic recovered'' [(''panic'', p)]) w)
      | (Returns x, w) \<Rightarrow> (Returns x, w))"
  by (auto simp: recovered_def recoverHandler_def split: prod.split outcome.split)

lemma InitGrpcServer_chains:
  assumes "grpc_laws lib" and "InitGrpcServer lib record tc cfg sw = (g, sw')"
  shows "unary_chain g handler ctx req w = recovered (recoverHandler record)
      (grpc_prometheus lib ctx req (chain_of (case UnaryInterceptors cfg of None \<Rightarrow> [] | Some us \<Rightarrow> us) handler) w)"
    and "stream_chain g shandler st w = recovered (recoverHandler record)
      (grpc_prometheus_stream lib st (stream_chain_of (case StreamInterceptors cfg of None \<Rightarrow> [] | Some us \<Rightarrow> us) shandler) w)"
proof -
  have "unary_chain g = ChainUnaryInterceptor lib (server_interceptors lib record cfg)"
    and "stream_chain g = ChainStreamInterceptor lib (server_stream_interceptors lib record cfg)"
    using assms(2) by (auto simp: InitGrpcServer_def Let_def split: if_splits)
  then show "unary_chain g handler ctx req w = recovered (recoverHandler record)
      (grpc_prometheus lib ctx req (chain_of (case UnaryInterceptors cfg of None \<Rightarrow> [] | Some us \<Rightarrow> us) handler) w)"
    and "stream_chain g shandler st w = recovered (recoverHandler record)
      (grpc_prometheus_stream lib st (stream_chain_of (case StreamInterceptors cfg of None \<Rightarrow> [] | Some us \<Rightarrow> us) shandler) w)"
    using assms(1)
    by (simp_all add: grpc_laws_def server_interceptors_def server_stream_interceptors_def Let_def chain_of_def stream_chain_of_def
        del: recovered_recoverHandler split: option.split)
qed

text \<open>
  C30: no panic leaves the gRPC server.  Whatever the metrics interceptor, the configured interceptors or the handler
  do, a call or a stream returns, and a panic is logged and becomes the internal error; without one, the result is that of
  the configured interceptors in their order around the handler, inside the metrics interceptor.
\<close>

theorem grpc_server_recovers:
  assumes "grpc_laws lib" and "InitGrpcServer lib record tc cfg sw = (g, sw')"
  shows "unary_chain g handler ctx req w =
      (case grpc_prometheus lib ctx req (chain_of (case UnaryInterceptors cfg of None \<Rightarrow> [] | Some us \<Rightarrow> us) handler) w of
         (Panics p, w') \<Rightarrow> (Returns (Inl (StatusError Internal ''internal server error'')),
            record (Line LError ''gRPC panic recovered'' [(''panic'', p)]) w')
       | (Returns r, w') \<Rightarrow> (Returns r, w')) \<and>
    stream_chain g shandler st w =
      (case grpc_prometheus_stream lib st (stream_chain_of (case StreamInterceptors cfg of None \<Rightarrow> [] | Some us \<Rightarrow> us) shandler) w of
         (Panics p, w') \<Rightarrow> (Returns (Inl (StatusError Internal ''internal server error'')),
            record (Line LError ''gRPC panic recovered'' [(''panic'', p)]) w')
       | (Returns r, w') \<Rightarrow> (Returns r, w'))"
  by (simp add: InitGrpcServer_chains [OF assms])

definition example_grpc_lib :: "('q, 'a, 'm, 'w) grpc_lib" where
  "example_grpc_lib = \<lparr>grpc_recovery = (\<lambda>recov ctx req handler w. recovered recov (handler ctx req w)),
     grpc_recovery_stream = (\<lambda>recov st handler w. recovered recov (handler st w)),
     grpc_prometheus = (\<lambda>ctx req handler w. handler ctx req w), grpc_prometheus_stream = (\<lambda>st handler w. handler st w),
     ChainUnaryInterceptor = chain_of, ChainStreamInterceptor = stream_chain_of\<rparr>"

definition example_grpc_config :: "(unit, string, unit, log_line list) GrpcServerConfig" where
  "example_grpc_config = \<lparr>grpc_Host = ''h'', grpc_Port = 9, GrpcOptions = None, UnaryInterceptors = Some [\<lambda>ctx req h w. (Panics ''boom'', w)],
     StreamInterceptors = None\<rparr>"

definition example_switches :: grpc_switches where
  "example_switches = \<lparr>HandlingTimeHistogram = False, ClientHandlingTimeHistogram = False, grpc_EnableTracing = False\<rparr>"

theorem grpc_server_recovers_witness:
  "let g = fst (InitGrpcServer example_grpc_lib (\<lambda>l w. w @ [l]) (loadTracingConfigFromEnv (\<lambda>_. [])) example_grpc_config example_switches)
   in unary_chain g (\<lambda>ctx req w. (Returns (Inr ''ok''), w)) background () []
     = (Returns (Inl (StatusError Internal ''internal server error'')), [Line LError ''gRPC panic recovered'' [(''panic'', ''boom'')]])"
proof -
  have l: "grpc_laws example_grpc_lib" by (simp add: grpc_laws_def example_grpc_lib_def)
  obtain g sw where g: "InitGrpcServer example_grpc_lib (\<lambda>l w. w @ [l]) (loadTracingConfigFromEnv (\<lambda>_. [])) example_grpc_config example_switches = (g, sw)"
    by fastforce
  from grpc_server_recovers [OF l g, of "\<lambda>ctx req w. (Returns (Inr ''ok''), w)" background "()" "[]"] g
  show ?thesis by (simp add: example_grpc_lib_def example_grpc_config_def)
qed

text \<open>
  The HTTP middlewares are applied in the order of the configuration, so the last one is the outermost: it sees the
  request first.
\<close>

theorem wrap_handler_order:
  "wrap_handler otel tc (cfg\<lparr>HttpMiddlewares := ms @ [m]\<rparr>) mux =
     (let inner = m (wrap_handler otel (tc\<lparr>EnableHTTPTracing := False\<rparr>) (cfg\<lparr>HttpMiddlewares := ms\<rparr>) mux)
      in if IsEnableHTTPTracing tc then otel inner else inner)"
  by (simp add: wrap_handler_def IsEnableHTTPTracing_def Let_def)

text \<open>
  The error envelope.  The body carries the code and the message of the gRPC status; the HTTP status is a
  client or server error for every standard code but OK, and 200 for a code of the application (above 16).
\<close>

theorem ErrorHandler_spec:
  assumes "Convert err = (c, m)" and "\<And>r. Marshal r = Inr (render r)"
  shows "ErrorHandler Convert Marshal err =
      \<lparr>w_status = HTTPStatusFromCode c, w_type = ''application/json'',
       w_body = render \<lparr>Status = \<lparr>ErrorCode = c, ErrorMessage = m, AlertMessage = []\<rparr>, Data = None\<rparr>\<rparr> \<and>
    (400 \<le> HTTPStatusFromCode c \<and> HTTPStatusFromCode c < 600 \<longleftrightarrow> 1 \<le> c \<and> c \<le> 16) \<and>
    (c = 0 \<or> 16 < c \<longrightarrow> HTTPStatusFromCode c = 200)"
proof -
  have "400 \<le> HTTPStatusFromCode c \<and> HTTPStatusFromCode c < 600 \<longleftrightarrow> 1 \<le> c \<and> c \<le> 16"
    by (auto simp: HTTPStatusFromCode_def) presburger
  moreover have "c = 0 \<or> 16 < c \<longrightarrow> HTTPStatusFromCode c = 200" by (auto simp: HTTPStatusFromCode_def)
  ultimately show ?thesis using assms by (simp add: ErrorHandler_def Let_def)
qed

theorem ErrorHandler_spec_witness:
  "ErrorHandler (\<lambda>e. (8, err_msg e)) (\<lambda>r. Inr (ErrorMessage (Status r))) (Errorf ''busy'') =
     \<lparr>w_status = 429, w_type = ''application/json'', w_body = ''busy''\<rparr>"
  using ErrorHandler_spec [of "\<lambda>e. (8, err_msg e)" "Errorf ''busy''" 8 "''busy''" "\<lambda>r. Inr (ErrorMessage (Status r))" "\<lambda>r. ErrorMessage (Status r)"]
  by (simp add: HTTPStatusFromCode_def)

subsection \<open>Construction and start\<close>

lemma initilize_None: "fst (initilize lib record tc (s, sw)) = None"
  by (auto simp: initilize_def InitHttpServer_def InitGrpcGateway_def Let_def split: option.split prod.split)

text \<open>\<^verbatim>\<open>Init\<close> cannot fail on a configuration, and builds exactly what is configured.\<close>

lemma Server_Init_builds:
  assumes "Server_Init lib record tc (Some c) sw = (r, sw')"
  shows "\<exists>s. r = Returns (Inr s) \<and> srv_cfg s = c \<and> (grpcServer s = None \<longleftrightarrow> sc_Grpc c = None) \<and>
    httpServer s = (case sc_Http c of None \<Rightarrow> None | Some h \<Rightarrow>
      Some (if EnableGrpcGateway h then [(''/'', GatewayEntry (MarshalerOption True True True True # map CallerOption (GrpcGatewayOptions h)))] else [])) \<and>
    (grpcGateway s \<noteq> None \<longleftrightarrow> (\<exists>h. sc_Http c = Some h \<and> EnableGrpcGateway h))"
  using assms
  by (auto simp: Server_Init_def initilize_def InitHttpServer_def InitGrpcGateway_def Let_def split: option.splits prod.splits if_splits)

definition grpc_started :: "('q, 'a, 'm, 'w, 'h) ServerConfig \<Rightarrow> 'h started list" where
  "grpc_started c = (case sc_Grpc c of None \<Rightarrow> [] | Some g \<Rightarrow> [GrpcServer (grpc_Host g @ '':'' @ Itoa (grpc_Port g))])"

definition http_started :: "(mux \<Rightarrow> 'h) \<Rightarrow> ('h \<Rightarrow> 'h) \<Rightarrow> TracingConfig \<Rightarrow> ('q, 'a, 'm, 'w, 'h) Server \<Rightarrow> 'h started list" where
  "http_started mux_handler otel tc s =
     (case sc_Http (srv_cfg s) of None \<Rightarrow> [] | Some h \<Rightarrow>
        [HttpServer (http_Host h @ '':'' @ Itoa (http_Port h)) (wrap_handler otel tc h (mux_handler (the (httpServer s))))])"

text \<open>
  A server made by \<^verbatim>\<open>Init\<close> starts exactly its configured servers, or ends the process when a port is missing or the gRPC address cannot
  be bound.
\<close>

theorem Server_Run_spec:
  assumes "Server_Init lib record tc (Some c) sw = (Returns (Inr s), sw')"
  shows "Server_Run listen mux_handler otel tc s = Returns (Inr ss) \<longleftrightarrow>
     (\<forall>g. sc_Grpc c = Some g \<longrightarrow> grpc_Port g \<noteq> 0 \<and> listen (grpc_Host g @ '':'' @ Itoa (grpc_Port g)) = None) \<and>
     (\<forall>h. sc_Http c = Some h \<longrightarrow> http_Port h \<noteq> 0) \<and>
     ss = grpc_started c @ http_started mux_handler otel tc s"
proof -
  from Server_Init_builds [OF assms] have s: "srv_cfg s = c" "grpcServer s = None \<longleftrightarrow> sc_Grpc c = None" "httpServer s = None \<longleftrightarrow> sc_Http c = None"
    by (auto split: option.splits)
  then show ?thesis
    by (cases "sc_Grpc c"; cases "sc_Http c")
      (auto simp: Server_Run_def run_grpc_def run_http_def out_bind_eq_ok Let_def grpc_started_def http_started_def split: option.splits)
qed

subsection \<open>The end of a server\<close>

definition end_inv :: "('w \<Rightarrow> gerror option \<times> 'w) list \<Rightarrow> 'w \<Rightarrow> 'w ending \<Rightarrow> bool" where
  "end_inv fs w0 s \<longleftrightarrow>
     e_next s \<le> length fs \<and> e_world s = fold (\<lambda>i w. snd ((fs ! i) w)) (called s) w0 \<and>
     (e_status s = Ending \<longrightarrow> mset (waiting s @ called s) = mset [0..<e_next s] \<and> e_wg s = length (waiting s) + length (leaving s)) \<and>
     (e_status s = Ended \<longrightarrow> mset (called s) = mset [0..<length fs])"

lemma end_inv_init: "end_inv fs w (end_init w)"
  by (simp add: end_inv_def end_init_def)

lemma end_inv_step:
  assumes "end_step fs s t" and "end_inv fs w0 s"
  shows "end_inv fs w0 t"
  using assms
proof cases
  case (e_call i w')
  then have "length (waiting s) = Suc (length (remove1 i (waiting s)))" by (blast intro: length_remove1_Suc)
  moreover have "mset (remove1 i (waiting s) @ called s @ [i]) = mset (waiting s @ called s)" using e_call(3) by simp
  ultimately show ?thesis using e_call assms(2) by (auto simp: end_inv_def simp del: mset_append mset_upt mset_remove1)
next
  case (e_done i)
  then have "length (leaving s) = Suc (length (remove1 i (leaving s)))" by (blast intro: length_remove1_Suc)
  then show ?thesis using e_done assms(2) by (simp add: end_inv_def)
qed (use assms(2) in \<open>auto simp: end_inv_def\<close>)

lemma end_inv_steps: "(end_step fs)\<^sup>*\<^sup>* s t \<Longrightarrow> end_inv fs w0 s \<Longrightarrow> end_inv fs w0 t"
  by (induction rule: rtranclp_induct) (auto intro: end_inv_step)

definition end_work :: "('w \<Rightarrow> gerror option \<times> 'w) list \<Rightarrow> 'w ending \<Rightarrow> nat" where
  "end_work fs s = 3 * (length fs - e_next s) + 2 * length (waiting s) + length (leaving s) + (if e_status s = Ending then 1 else 0)"

lemma end_work_step: "end_step fs s t \<Longrightarrow> end_work fs t < end_work fs s"
proof (erule end_stepE, goal_cases)
  case (2 i w')
  then have "length (waiting s) = Suc (length (remove1 i (waiting s)))" by (blast intro: length_remove1_Suc)
  then show ?case using 2 by (simp add: end_work_def)
next
  case (4 i)
  then have "length (leaving s) = Suc (length (remove1 i (leaving s)))" by (blast intro: length_remove1_Suc)
  then show ?case using 4 by (simp add: end_work_def)
qed (auto simp: end_work_def)

lemma end_work_steps: "(end_step fs ^^ k) s t \<Longrightarrow> k + end_work fs t \<le> end_work fs s"
proof (induction k arbitrary: t)
  case (Suc k)
  then obtain u where "(end_step fs ^^ k) s u" "end_step fs u t" by auto
  then show ?case using Suc.IH end_work_step [of fs u t] by fastforce
qed simp

lemma end_progress:
  assumes "end_inv fs w0 s" and "e_status s = Ending"
  shows "\<exists>t. end_step fs s t"
proof (cases "e_next s < length fs")
  case True
  then show ?thesis using assms(2) by (blast intro: end_step.e_spawn)
next
  case False
  show ?thesis
  proof (cases "waiting s")
    case (Cons i js)
    then have i: "i \<in> set (waiting s)" by simp
    obtain r w' where "(fs ! i) (e_world s) = (r, w')" by fastforce
    then show ?thesis using end_step.e_call [OF assms(2) i] end_step.e_fatal [OF assms(2) i] by (cases r) blast+
  next
    case Nil
    show ?thesis
    proof (cases "leaving s")
      case (Cons i js)
      then have "i \<in> set (leaving s)" by simp
      then show ?thesis using assms(2) by (blast intro: end_step.e_done)
    qed (use assms False Nil in \<open>auto simp: end_inv_def intro: end_step.e_wait\<close>)
  qed
qed


definition example_stop :: "nat stop_lib" where
  "example_stop = \<lparr>GracefulStop = (\<lambda>_. Suc), http_Shutdown = (\<lambda>_ _ n. (None, n))\<rparr>"


end
