(* ===== verification/Request_Path.thy ===== *)
theory Request_Path
  imports Rate_Limit Server
begin

text \<open>
  The way of a request through the components of the kit: the servers of \<^verbatim>\<open>server/main.go\<close> with the interceptors and
  middlewares of \<^verbatim>\<open>attributes\<close> and \<^verbatim>\<open>ratelimit\<close> among those configured, and the error handler of the gateway.  A request of a call
  carries the full name of its method, which gRPC hands to the interceptors beside it.
\<close>

section \<open>The kit's interceptors on a server\<close>

definition attributes_unary :: "(header \<Rightarrow> string \<Rightarrow> string list) \<Rightarrow> (string \<times> 'q, 'a, 'w) unary_interceptor" where
  "attributes_unary MD_Get ctx req handler w = AttributeExtractionUnaryInterceptor MD_Get ctx req (Some (fst req)) handler w"

definition limit_unary :: "(go_ctx \<Rightarrow> 'w \<Rightarrow> gerror option \<times> 'w) \<Rightarrow> (string \<times> 'q, 'a, 'w) unary_interceptor" where
  "limit_unary limit ctx req handler w = UnaryServerInterceptor limit ctx req (fst req) handler w"

text \<open>The attributes of a call, and what the limiter does with them.\<close>

definition call_attributes :: "(header \<Rightarrow> string \<Rightarrow> string list) \<Rightarrow> go_ctx \<Rightarrow> string \<Rightarrow> RequestAttributes" where
  "call_attributes MD_Get ctx fm = projr (grpc_Extract MD_Get (NewGRPCAttributeExtractor ctx (Some fm)) ctx)"

lemma attributes_unary_eq:
  "attributes_unary MD_Get ctx (fm, rq) handler w = handler (WithRequestAttributes ctx (call_attributes MD_Get ctx fm)) (fm, rq) w"
  by (simp add: attributes_unary_def AttributeExtractionUnaryInterceptor_def call_attributes_def grpc_Extract_def)

lemma call_attributes_Path [simp]: "Path (call_attributes MD_Get ctx fm) = fm"
  by (simp add: call_attributes_def grpc_Extract_def NewGRPCAttributeExtractor_def)

lemma GetFromContext_With [simp]: "GetFromContext (WithRequestAttributes ctx attrs) = Some attrs"
  by (simp add: GetFromContext_def WithRequestAttributes_def)

lemma http_Extract_attrs: "\<exists>attrs. http_Extract r = Inr attrs \<and> Path attrs = url_path r"
  by (simp add: http_Extract_def)

lemma Limit_in_eq: "Limit_in api oob ctx (st, h) = (fst (Limit api oob st ctx), snd (Limit api oob st ctx), h)"
  by (simp add: Limit_in_def case_prod_beta)

section \<open>Properties\<close>

text \<open>The chain of a server with the two interceptors: the limiter on the context with the attributes, inside the recovery.\<close>

lemma rate_limited_chain:
  assumes "grpc_laws lib" and "\<And>ctx req hd w. grpc_prometheus lib ctx req hd w = hd ctx req w"
    and "InitGrpcServer lib record tc cfg sw = (g, sw')"
    and "UnaryInterceptors cfg = Some [attributes_unary MD_Get, limit_unary limit]"
  shows "unary_chain g handler ctx (fm, rq) w = recovered (recoverHandler record)
    (UnaryServerInterceptor limit (WithRequestAttributes ctx (call_attributes MD_Get ctx fm)) (fm, rq) fm handler w)"
  by (simp add: InitGrpcServer_chains [OF assms(1,3)] assms(2,4) attributes_unary_eq limit_unary_def chain_of_def del: recovered_recoverHandler)

text \<open>
  C12: a call to a gRPC server of the kit with the attribute interceptor and the rate-limiting interceptor configured in this order.  The
  limiter decides on every call, by the rules for the full name of the method and the attributes of the call.  When it rejects, the
  handler does not run, the rest of the process is as it was and the caller gets \<^verbatim>\<open>ResourceExhausted\<close>; when it accepts, the handler runs once
  with the attributes in its context, and its panic becomes the internal error.  In both cases the limiter stays well formed.
\<close>

theorem rpc_rate_limited:
  assumes "grpc_laws lib" and "\<And>ctx req hd w. grpc_prometheus lib ctx req hd w = hd ctx req w"
    and "InitGrpcServer lib record tc cfg sw = (g, sw')"
    and "UnaryInterceptors cfg = Some [attributes_unary MD_Get, limit_unary (Limit_in api oob)]" and "limiter_inv st"
  shows "let attrs = call_attributes MD_Get ctx fm; ctx' = WithRequestAttributes ctx attrs; st' = snd (Limit api oob st ctx') in
    Path attrs = fm \<and> limiter_inv st' \<and>
    (case fst (Limit api oob st ctx') of
       Some e \<Rightarrow> \<exists>m. unary_chain g handler ctx (fm, rq) (st, h) = (Returns (Inl (StatusError ResourceExhausted (fm @ m))), (st', h))
     | None \<Rightarrow> unary_chain g handler ctx (fm, rq) (st, h) =
         (case handler ctx' (fm, rq) (st', h) of
            (Panics p, w) \<Rightarrow> (Returns (Inl (StatusError Internal ''internal server error'')),
               record (Line LError ''gRPC panic recovered'' [(''panic'', p)]) w)
          | (Returns r, w) \<Rightarrow> (Returns r, w)))"
  using Limit_inv [OF assms(5)]
  by (simp add: rate_limited_chain [OF assms(1-4)] UnaryServerInterceptor_def Limit_in_eq Let_def split: option.split)

text \<open>A limiter with one rule for the paths with \<open>p\<close> in them, whose Redis has nothing left.\<close>

definition example_full :: "(unit, unit) redis_api" where
  "example_full = example_api\<lparr>Allow := (\<lambda>_ _ _ r. (Inr 0, r))\<rparr>"

definition example_limiter :: "string \<Rightarrow> unit MultiLevelLimiter \<times> unit world" where
  "example_limiter p = (\<lparr>rules = [(example_rule p)\<lparr>cr_Levels := [example_level]\<rparr>], redis_client = True, useRedis = True\<rparr>,
     \<lparr>wclock = \<lparr>ticks = (\<lambda>_. 0), pos = 0\<rparr>, wredis = ()\<rparr>)"

lemma example_limiter_rejects:
  assumes "GetFromContext ctx = Some attrs" and "Contains (Path attrs) p"
  shows "\<exists>e. fst (Limit example_full (\<lambda>_. 0) (example_limiter p) ctx) = Some e"
proof -
  have "rule_matches (Path attrs) ((example_rule p)\<lparr>cr_Levels := [example_level]\<rparr>)"
    using assms(2) by (simp add: rule_matches_def example_rule_def pattern_matches_def)
  moreover have "generateLevelKey ''r'' (cl_Name example_level) attrs (cl_KeyAttributes example_level) \<noteq> []"
    by (simp add: generateLevelKey_def Let_def)
  then obtain e l w' where
    "checkLevel example_full (\<lambda>_. 0) True ctx ''r'' attrs example_level \<lparr>wclock = \<lparr>ticks = (\<lambda>_. 0), pos = 0\<rparr>, wredis = ()\<rparr> = (Some e, l, w')"
    by (simp add: checkLevel_def checkLevelWithRedis_def example_full_def Let_def)
  ultimately show ?thesis using assms(1) by (simp add: Limit_def example_limiter_def example_rule_def)
qed

lemma example_limiter_inv: "limiter_inv (example_limiter p)"
  by (simp add: limiter_inv_def example_limiter_def clock_mono_def mono_def example_rule_def level_inv_def level_size_ok_def example_level_def)

theorem rpc_rate_limited_witness:
  "let g = fst (InitGrpcServer example_grpc_lib (\<lambda>l (st, n). (st, Suc n)) (loadTracingConfigFromEnv (\<lambda>_. []))
      \<lparr>grpc_Host = ''h'', grpc_Port = 9, GrpcOptions = None,
       UnaryInterceptors = Some [attributes_unary (\<lambda>_ _. []), limit_unary (Limit_in example_full (\<lambda>_. 0))],
       StreamInterceptors = None :: (unit, (unit MultiLevelLimiter \<times> unit world) \<times> nat) stream_interceptor list option\<rparr> example_switches)
   in snd (snd (unary_chain g (\<lambda>_ _ (st, n). (Panics ''boom'' :: unit outcome, st, n + 2)) background (''/api.v1/Get'', ()) (example_limiter ''/api'', 5))) = 5"
proof -
  define wr :: "log_line \<Rightarrow> (unit MultiLevelLimiter \<times> unit world) \<times> nat \<Rightarrow> (unit MultiLevelLimiter \<times> unit world) \<times> nat"
    where "wr = (\<lambda>l (st, n). (st, Suc n))"
  define cfg :: "(string \<times> unit, unit, unit, (unit MultiLevelLimiter \<times> unit world) \<times> nat) GrpcServerConfig"
    where "cfg = \<lparr>grpc_Host = ''h'', grpc_Port = 9, GrpcOptions = None,
       UnaryInterceptors = Some [attributes_unary (\<lambda>_ _. []), limit_unary (Limit_in example_full (\<lambda>_. 0))], StreamInterceptors = None\<rparr>"
  obtain g sw where g: "InitGrpcServer example_grpc_lib wr (loadTracingConfigFromEnv (\<lambda>_. [])) cfg example_switches = (g, sw)"
    by fastforce
  have lib: "grpc_laws example_grpc_lib" by (simp add: grpc_laws_def example_grpc_lib_def)
  let ?ctx = "WithRequestAttributes background (call_attributes (\<lambda>_ _. []) background ''/api.v1/Get'')"
  obtain e where e: "fst (Limit example_full (\<lambda>_. 0) (example_limiter ''/api'') ?ctx) = Some e"
    using example_limiter_rejects [OF GetFromContext_With] by (fastforce simp: HasPrefix_def)
  from rpc_rate_limited [OF lib _ g, where MD_Get = "\<lambda>_ _. []" and api = example_full and oob = "\<lambda>_. 0" and st = "example_limiter ''/api''"
      and fm = "''/api.v1/Get''" and ctx = background and handler = "\<lambda>_ _ (st, n). (Panics ''boom'', st, n + 2)" and rq = "()" and h = 5] e
  show ?thesis using g by (auto simp: Let_def example_grpc_lib_def cfg_def wr_def example_limiter_inv)
qed

text \<open>
  C15: a rejected request is answered alike by the two stacks.  For the same limiter, state and context, the HTTP middleware answers
  with the status 429, and the gRPC interceptor returns an error that the gateway's error handler turns into the same status; in both the
  limiter ends in the same state and the protected handler has not run.
\<close>

theorem rate_limit_same_status:
  assumes "\<And>c m. Convert (StatusError c m) = (c, m)" and "fst (Limit api oob st (req_ctx r)) = Some e"
  shows "let w' = (snd (Limit api oob st (req_ctx r)), h) in
    \<exists>err resp. UnaryServerInterceptor (Limit_in api oob) (req_ctx r) rq fm handler (st, h) = (Returns (Inl err), w') \<and>
      HTTPMiddleware (Limit_in api oob) next_h r (st, h) = (resp, w') \<and>
      resp_status resp = 429 \<and> w_status (ErrorHandler Convert marshal err) = resp_status resp"
  using assms
  by (auto simp: UnaryServerInterceptor_def HTTPMiddleware_def Limit_in_eq ErrorHandler_def HTTPStatusFromCode_def ResourceExhausted_def
      StatusTooManyRequests_def Let_def split: sum.splits)

theorem rate_limit_same_status_witness:
  "resp_status (fst (HTTPMiddleware (Limit_in example_full (\<lambda>_. 0)) (\<lambda>_ w. (\<lparr>resp_status = 200, resp_body = []\<rparr>, w))
      (example_request\<lparr>req_ctx := WithRequestAttributes background example_attrs\<rparr>) (example_limiter ''/api'', ()))) = 429"
proof -
  let ?r = "example_request\<lparr>req_ctx := WithRequestAttributes background example_attrs\<rparr>"
  obtain e where e: "fst (Limit example_full (\<lambda>_. 0) (example_limiter ''/api'') (req_ctx ?r)) = Some e"
    using example_limiter_rejects [OF GetFromContext_With, of example_attrs] by (fastforce simp: HasPrefix_def example_attrs_def)
  define conv where "conv = (\<lambda>e. case e of StatusError c m \<Rightarrow> (c, m) | _ \<Rightarrow> (2, []))"
  have "conv (StatusError c m) = (c, m)" for c m by (simp add: conv_def)
  from rate_limit_same_status [OF this e, where rq = "()" and fm = "''/m''" and handler = "\<lambda>_ _ w. (Returns (Inr ()), w)"
      and next_h = "\<lambda>_ w. (\<lparr>resp_status = 200, resp_body = []\<rparr>, w)" and h = "()"]
  show ?thesis unfolding Let_def by fastforce
qed

lemma wrap_handler_two:
  "wrap_handler otel tc (cfg\<lparr>HttpMiddlewares := [m1, m2]\<rparr>) next_h =
     (if IsEnableHTTPTracing tc then otel (m2 (m1 next_h)) else m2 (m1 next_h))"
  by (simp add: wrap_handler_def)

lemma limiter_without_attributes:
  "request_attributes (req_ctx r) = None \<Longrightarrow> HTTPMiddleware (Limit_in api oob) next_h r w = next_h r w"
  by (cases w) (simp add: HTTPMiddleware_def Limit_in_eq Limit_def GetFromContext_def)

text \<open>
  C16: the order of the middlewares decides whether there is a limit.  \<^verbatim>\<open>Run\<close> applies the configured middlewares in turn, so the last is
  the outermost.  Configured as the interceptors of gRPC are, the extraction first and the limiter second, the limiter sees requests without
  attributes and is never consulted; the other way round it decides on every request by the path of its URL, and a rejected one does not
  reach the handler.  \<open>otel\<close> is the tracing handler, outside all of them.
\<close>

theorem http_middleware_order:
  "(\<exists>inner. wrap_handler otel tc (cfg\<lparr>HttpMiddlewares := [AttributeExtractionMiddleware, HTTPMiddleware (Limit_in api oob)]\<rparr>) next_h =
        (if IsEnableHTTPTracing tc then otel inner else inner) \<and>
      (\<forall>r w. request_attributes (req_ctx r) = None \<longrightarrow> inner r w = AttributeExtractionMiddleware next_h r w)) \<and>
   (\<exists>inner. wrap_handler otel tc (cfg\<lparr>HttpMiddlewares := [HTTPMiddleware (Limit_in api oob), AttributeExtractionMiddleware]\<rparr>) next_h =
        (if IsEnableHTTPTracing tc then otel inner else inner) \<and>
      (\<forall>r st h. \<exists>attrs. http_Extract r = Inr attrs \<and> Path attrs = url_path r \<and>
        inner r (st, h) =
          (let ctx = WithRequestAttributes (req_ctx r) attrs; st' = snd (Limit api oob st ctx)
           in case fst (Limit api oob st ctx) of
                None \<Rightarrow> next_h (r\<lparr>req_ctx := ctx\<rparr>) (st', h)
              | Some _ \<Rightarrow> (\<lparr>resp_status = 429, resp_body = ''Rate limit exceeded'' @ [CHR 0x0A]\<rparr>, (st', h)))))"
  (is "(\<exists>inner. ?wrap [?ex, ?lim] = ?traced inner \<and> _) \<and> (\<exists>inner. ?wrap' [?lim, ?ex] = _ inner \<and> ?decides inner)")
proof
  show "\<exists>inner. ?wrap [?ex, ?lim] = ?traced inner \<and> (\<forall>r w. request_attributes (req_ctx r) = None \<longrightarrow> inner r w = ?ex next_h r w)"
    unfolding wrap_handler_two by (rule exI [of _ "?lim (?ex next_h)"]) (simp add: limiter_without_attributes)
  show "\<exists>inner. ?wrap' [?lim, ?ex] = ?traced inner \<and> ?decides inner"
    unfolding wrap_handler_two
    by (rule exI [of _ "?ex (?lim next_h)"])
      (simp add: HTTPMiddleware_def Limit_in_eq AttributeExtractionMiddleware_def http_Extract_def StatusTooManyRequests_def Let_def split: option.split)
qed

definition example_http_config :: "'h HttpServerConfig" where
  "example_http_config = \<lparr>http_Host = ''h'', http_Port = 8, HttpMiddlewares = [], EnableGrpcGateway = False, GrpcGatewayOptions = []\<rparr>"

theorem http_middleware_order_witness:
  "\<exists>inner. wrap_handler id (loadTracingConfigFromEnv (\<lambda>_. []))
      (example_http_config\<lparr>HttpMiddlewares := [AttributeExtractionMiddleware, HTTPMiddleware (Limit_in example_full (\<lambda>_. 0))]\<rparr>)
      (\<lambda>_ (st, n). (\<lparr>resp_status = 200, resp_body = []\<rparr>, st, Suc n)) = inner \<and>
    inner example_request (example_limiter ''/api'', 4) = (\<lparr>resp_status = 200, resp_body = []\<rparr>, example_limiter ''/api'', 5)"
proof -
  have n: "request_attributes (req_ctx example_request) = None" by (simp add: example_request_def background_def)
  have "AttributeExtractionMiddleware (\<lambda>_ (st, n). (\<lparr>resp_status = 200, resp_body = []\<rparr>, st, Suc n)) example_request (example_limiter ''/api'', 4)
      = (\<lparr>resp_status = 200, resp_body = []\<rparr>, example_limiter ''/api'', 5)"
    by (simp add: AttributeExtractionMiddleware_def http_Extract_def)
  then show ?thesis
    using http_middleware_order [where otel = id and tc = "loadTracingConfigFromEnv (\<lambda>_. [])" and cfg = example_http_config and api = example_full
      and oob = "\<lambda>_. 0" and next_h = "\<lambda>_ (st, n). (\<lparr>resp_status = 200, resp_body = []\<rparr>, st, Suc n)", THEN conjunct1] n
    by (metis id_apply)
qed

end
