(* ===== verification/Base_Service.thy ===== *)
theory Base_Service
  imports Request_Path
begin

text \<open>
  The base service (\<^verbatim>\<open>base_service/services/main.go\<close>) with the code generated for it: the client and the server side of its method
  (\<^verbatim>\<open>base_grpc.pb.go\<close>), the handlers of the gateway (\<^verbatim>\<open>base.pb.gw.go\<close>), the validation (\<^verbatim>\<open>base.pb.validate.go\<close>) and the
  getter of its message; and the way of a health request through the gateway and the gRPC server.  The runtime of the gateway and
  the connection are arguments.
\<close>

section \<open>Messages\<close>

datatype HealthRequest = HealthRequest

record HealthResponse =
  hr_Status :: string

definition GetStatus :: "HealthResponse option \<Rightarrow> string" where
  "GetStatus x = (case x of Some r \<Rightarrow> hr_Status r | None \<Rightarrow> [])"

text \<open>
  Validation.  A violation by its field, reason, cause and whether it is one of a map's key; there are no rules for the two messages, so the
  list of violations stays empty.
\<close>

record validation_error =
  v_field :: string
  v_reason :: string
  v_cause :: "gerror option"
  v_key :: bool

definition HealthRequestMultiError_Error :: "gerror list \<Rightarrow> string" where
  "HealthRequestMultiError_Error m = Join (map err_msg m) ''; ''"

definition HealthResponseMultiError_Error :: "gerror list \<Rightarrow> string" where
  "HealthResponseMultiError_Error m = Join (map err_msg m) ''; ''"

definition HealthRequest_validate :: "HealthRequest option \<Rightarrow> bool \<Rightarrow> gerror option" where
  "HealthRequest_validate m all =
     (case m of
        None \<Rightarrow> None
      | Some _ \<Rightarrow> (let errors = [] in if length errors > 0 then Some (Errorf (HealthRequestMultiError_Error errors)) else None))"

definition HealthResponse_validate :: "HealthResponse option \<Rightarrow> bool \<Rightarrow> gerror option" where
  "HealthResponse_validate m all =
     (case m of
        None \<Rightarrow> None
      | Some _ \<Rightarrow> (let errors = [] in if length errors > 0 then Some (Errorf (HealthResponseMultiError_Error errors)) else None))"

definition HealthRequest_Validate :: "HealthRequest option \<Rightarrow> gerror option" where
  "HealthRequest_Validate m = HealthRequest_validate m False"

definition HealthRequest_ValidateAll :: "HealthRequest option \<Rightarrow> gerror option" where
  "HealthRequest_ValidateAll m = HealthRequest_validate m True"

definition HealthResponse_Validate :: "HealthResponse option \<Rightarrow> gerror option" where
  "HealthResponse_Validate m = HealthResponse_validate m False"

definition HealthResponse_ValidateAll :: "HealthResponse option \<Rightarrow> gerror option" where
  "HealthResponse_ValidateAll m = HealthResponse_validate m True"

definition HealthRequestValidationError_Error :: "validation_error \<Rightarrow> string" where
  "HealthRequestValidationError_Error e =
     (let cause = (case v_cause e of Some c \<Rightarrow> '' | caused by: '' @ err_msg c | None \<Rightarrow> []);
          key = (if v_key e then ''key for '' else [])
      in ''invalid '' @ key @ ''HealthRequest.'' @ v_field e @ '': '' @ v_reason e @ cause)"

definition HealthResponseValidationError_Error :: "validation_error \<Rightarrow> string" where
  "HealthResponseValidationError_Error e =
     (let cause = (case v_cause e of Some c \<Rightarrow> '' | caused by: '' @ err_msg c | None \<Rightarrow> []);
          key = (if v_key e then ''key for '' else [])
      in ''invalid '' @ key @ ''HealthResponse.'' @ v_field e @ '': '' @ v_reason e @ cause)"

section \<open>The service\<close>

definition HskBase_Health_FullMethodName :: string where
  "HskBase_Health_FullMethodName = ''/hskbasepb.HskBase/Health''"

text \<open>A server of the service by its method, which works on the state of the process and may panic.\<close>

record 'w HskBaseServer =
  srv_Health :: "go_ctx \<Rightarrow> HealthRequest \<Rightarrow> 'w \<Rightarrow> HealthResponse outcome \<times> 'w"

definition Health :: "go_ctx \<Rightarrow> HealthRequest \<Rightarrow> 'w \<Rightarrow> HealthResponse outcome \<times> 'w" where
  "Health ctx req w = (Returns (Inr \<lparr>hr_Status = ''OK''\<rparr>), w)"

definition BaseService_New :: "'w HskBaseServer" where
  "BaseService_New = \<lparr>srv_Health = Health\<rparr>"

definition Unimplemented :: nat where
  "Unimplemented = 12"

definition Unimplemented_Health :: "go_ctx \<Rightarrow> HealthRequest \<Rightarrow> 'w \<Rightarrow> HealthResponse outcome \<times> 'w" where
  "Unimplemented_Health ctx req w = (Returns (Inl (StatusError Unimplemented ''method Health not implemented'')), w)"

text \<open>The generated handler: \<open>dec\<close> is what decoding the request gives, \<open>interceptor\<close> the chain of the server.\<close>

definition Health_Handler :: "'w HskBaseServer \<Rightarrow> go_ctx \<Rightarrow> HealthRequest res
    \<Rightarrow> ((string \<times> HealthRequest, HealthResponse, 'w) unary_handler \<Rightarrow> (string \<times> HealthRequest, HealthResponse, 'w) unary_handler) option
    \<Rightarrow> 'w \<Rightarrow> HealthResponse outcome \<times> 'w" where
  "Health_Handler srv ctx dec interceptor w =
     (case dec of
        Inl err \<Rightarrow> (Returns (Inl err), w)
      | Inr req \<Rightarrow>
          (case interceptor of
             None \<Rightarrow> srv_Health srv ctx req w
           | Some i \<Rightarrow>
               (let handler = (\<lambda>ctx req. srv_Health srv ctx (snd req))
                in i handler ctx (HskBase_Health_FullMethodName, req) w)))"

text \<open>The client: \<open>invoke\<close> is \<^verbatim>\<open>Invoke\<close> of its connection, which returns the metadata of the server beside the response.\<close>

datatype call_option = StaticMethod | HeaderOption | TrailerOption

record ServerMetadata =
  HeaderMD :: header
  TrailerMD :: header

type_synonym 'w invocation =
  "go_ctx \<Rightarrow> string \<Rightarrow> HealthRequest \<Rightarrow> call_option list \<Rightarrow> 'w \<Rightarrow> (HealthResponse res \<times> ServerMetadata) \<times> 'w"

definition Client_Health :: "'w invocation \<Rightarrow> go_ctx \<Rightarrow> HealthRequest \<Rightarrow> call_option list \<Rightarrow> 'w
    \<Rightarrow> (HealthResponse res \<times> ServerMetadata) \<times> 'w" where
  "Client_Health invoke ctx req opts w =
     (let cOpts = [StaticMethod] @ opts
      in case invoke ctx HskBase_Health_FullMethodName req cOpts w of
           ((Inl err, smd), w') \<Rightarrow> ((Inl err, smd), w')
         | ((Inr out, smd), w') \<Rightarrow> ((Inr out, smd), w'))"

section \<open>The gateway\<close>

definition request_HskBase_Health_0 :: "'w invocation \<Rightarrow> go_ctx \<Rightarrow> 'w \<Rightarrow> (HealthResponse res \<times> ServerMetadata) \<times> 'w" where
  "request_HskBase_Health_0 invoke ctx w = Client_Health invoke ctx HealthRequest [HeaderOption, TrailerOption] w"

definition local_request_HskBase_Health_0 :: "'w HskBaseServer \<Rightarrow> go_ctx \<Rightarrow> 'w \<Rightarrow> HealthResponse outcome \<times> 'w" where
  "local_request_HskBase_Health_0 srv ctx w = srv_Health srv ctx HealthRequest w"

text \<open>
  The runtime: the annotation of the context with the metadata of the request, the writing of errors and of responses, and the metadata that
  a method called locally has left in its stream.  \<open>Forward\<close> gets the metadata that \<^verbatim>\<open>NewServerMetadataContext\<close> puts into the context.
\<close>

record gateway_lib =
  AnnotateContext :: "go_ctx \<Rightarrow> http_request \<Rightarrow> string \<Rightarrow> string \<Rightarrow> go_ctx res"
  AnnotateIncomingContext :: "go_ctx \<Rightarrow> http_request \<Rightarrow> string \<Rightarrow> string \<Rightarrow> go_ctx res"
  HTTPError :: "go_ctx \<Rightarrow> http_request \<Rightarrow> gerror \<Rightarrow> http_written"
  Forward :: "go_ctx \<Rightarrow> ServerMetadata \<Rightarrow> http_request \<Rightarrow> HealthResponse \<Rightarrow> http_written"

definition HealthPath :: string where
  "HealthPath = ''/health''"

text \<open>The handlers that the two registrations install for \<^verbatim>\<open>GET /health\<close>: one calls the server itself, the other a client.\<close>

definition handle_local :: "gateway_lib \<Rightarrow> 'w HskBaseServer \<Rightarrow> ServerMetadata \<Rightarrow> http_request \<Rightarrow> 'w \<Rightarrow> http_written outcome \<times> 'w" where
  "handle_local gw srv stream req w =
     (let ctx = req_ctx req
      in case AnnotateIncomingContext gw ctx req HskBase_Health_FullMethodName HealthPath of
           Inl err \<Rightarrow> (Returns (Inr (HTTPError gw ctx req err)), w)
         | Inr annotatedContext \<Rightarrow>
             (case local_request_HskBase_Health_0 srv annotatedContext w of
                (Panics p, w') \<Rightarrow> (Panics p, w')
              | (Returns (Inl err), w') \<Rightarrow> (Returns (Inr (HTTPError gw annotatedContext req err)), w')
              | (Returns (Inr resp), w') \<Rightarrow> (Returns (Inr (Forward gw annotatedContext stream req resp)), w')))"

definition handle_client :: "gateway_lib \<Rightarrow> 'w invocation \<Rightarrow> http_request \<Rightarrow> 'w \<Rightarrow> http_written \<times> 'w" where
  "handle_client gw invoke req w =
     (let ctx = req_ctx req
      in case AnnotateContext gw ctx req HskBase_Health_FullMethodName HealthPath of
           Inl err \<Rightarrow> (HTTPError gw ctx req err, w)
         | Inr annotatedContext \<Rightarrow>
             (case request_HskBase_Health_0 invoke annotatedContext w of
                ((Inl err, smd), w') \<Rightarrow> (HTTPError gw annotatedContext req err, w')
              | ((Inr resp, smd), w') \<Rightarrow> (Forward gw annotatedContext smd req resp, w')))"

text \<open>
  The registrations on a mux, the list of its routes with their handlers.  None of them fails.  \<open>stream\<close> is the metadata that the method leaves in
  the stream of a request, \<open>client_of\<close> makes the client's calls of a connection.
\<close>

type_synonym 'w gw_handler = "http_request \<Rightarrow> 'w \<Rightarrow> http_written outcome \<times> 'w"

type_synonym 'w gw_mux = "(string \<times> string \<times> 'w gw_handler) list"

definition RegisterHskBaseHandlerServer :: "gateway_lib \<Rightarrow> (http_request \<Rightarrow> ServerMetadata) \<Rightarrow> 'w HskBaseServer \<Rightarrow> 'w gw_mux \<Rightarrow> gerror option \<times> 'w gw_mux" where
  "RegisterHskBaseHandlerServer gw stream srv mx = (None, mx @ [(''GET'', HealthPath, \<lambda>req. handle_local gw srv (stream req) req)])"

definition RegisterHskBaseHandlerClient :: "gateway_lib \<Rightarrow> 'w invocation \<Rightarrow> 'w gw_mux \<Rightarrow> gerror option \<times> 'w gw_mux" where
  "RegisterHskBaseHandlerClient gw invoke mx =
     (None, mx @ [(''GET'', HealthPath, \<lambda>req w. case handle_client gw invoke req w of (r, w') \<Rightarrow> (Returns (Inr r), w'))])"

definition RegisterHskBaseHandler :: "gateway_lib \<Rightarrow> ('c \<Rightarrow> 'w invocation) \<Rightarrow> 'c \<Rightarrow> 'w gw_mux \<Rightarrow> gerror option \<times> 'w gw_mux" where
  "RegisterHskBaseHandler gw client_of conn mx = RegisterHskBaseHandlerClient gw (client_of conn) mx"

text \<open>
  The registration by address.  The connections it has closed, the lines it has logged, and the connection a goroutine closes when the
  context is done.
\<close>

record 'c dialed =
  conns_closed :: "'c list"
  dial_log :: "string list"
  awaiting :: "'c option"

definition close_conn :: "('c \<Rightarrow> gerror option) \<Rightarrow> string \<Rightarrow> 'c \<Rightarrow> 'c dialed \<Rightarrow> 'c dialed" where
  "close_conn Close endpoint conn d =
     (let d = d\<lparr>conns_closed := conns_closed d @ [conn]\<rparr>
      in case Close conn of
           Some cerr \<Rightarrow> d\<lparr>dial_log := dial_log d @ [''Failed to close conn to '' @ endpoint @ '': '' @ err_msg cerr]\<rparr>
         | None \<Rightarrow> d)"

definition RegisterHskBaseHandlerFromEndpoint :: "gateway_lib \<Rightarrow> ('c \<Rightarrow> 'w invocation) \<Rightarrow> (string \<Rightarrow> 'c res) \<Rightarrow> ('c \<Rightarrow> gerror option)
    \<Rightarrow> string \<Rightarrow> 'w gw_mux \<Rightarrow> 'c dialed \<Rightarrow> gerror option \<times> 'w gw_mux \<times> 'c dialed" where
  "RegisterHskBaseHandlerFromEndpoint gw client_of NewClient Close endpoint mx d =
     (case NewClient endpoint of
        Inl err \<Rightarrow> (Some err, mx, d)
      | Inr conn \<Rightarrow>
          (case RegisterHskBaseHandler gw client_of conn mx of
             (Some err, mx') \<Rightarrow> (Some err, mx', close_conn Close endpoint conn d)
           | (None, mx') \<Rightarrow> (None, mx', d\<lparr>awaiting := Some conn\<rparr>)))"

text \<open>What the goroutine does when the context is done.\<close>

definition endpoint_ctx_done :: "('c \<Rightarrow> gerror option) \<Rightarrow> string \<Rightarrow> 'c dialed \<Rightarrow> 'c dialed" where
  "endpoint_ctx_done Close endpoint d =
     (case awaiting d of None \<Rightarrow> d | Some conn \<Rightarrow> close_conn Close endpoint conn (d\<lparr>awaiting := None\<rparr>))"

section \<open>The registration by address\<close>

text \<open>
  The connection that the registration dials is closed exactly once and exactly when the context is done; until then it stays open.  When
  dialing fails, nothing is registered.
\<close>

theorem endpoint_conn_closed:
  assumes "RegisterHskBaseHandlerFromEndpoint gw client_of NewClient Close endpoint mx d = (err, mx', d')" and "awaiting d = None"
  shows "(case NewClient endpoint of
      Inl e \<Rightarrow> err = Some e \<and> mx' = mx \<and> d' = d
    | Inr conn \<Rightarrow> err = None \<and> mx' = snd (RegisterHskBaseHandlerClient gw (client_of conn) mx) \<and> conns_closed d' = conns_closed d \<and>
        conns_closed (endpoint_ctx_done Close endpoint d') = conns_closed d @ [conn] \<and>
        endpoint_ctx_done Close endpoint (endpoint_ctx_done Close endpoint d') = endpoint_ctx_done Close endpoint d')"
  using assms
  by (auto simp: RegisterHskBaseHandlerFromEndpoint_def RegisterHskBaseHandler_def RegisterHskBaseHandlerClient_def endpoint_ctx_done_def
      close_conn_def Let_def split: sum.splits option.splits)

section \<open>A health request end to end\<close>

text \<open>
  The gateway with the kit's error handler and response wrapper among its options: errors are written by the one, responses are rewritten
  by the other and written with the status 200.  A connection to a server delivers the calls: the server sees a context made from the caller's
  and the request as it was sent, and what it returns comes back, an error as its status.
\<close>

definition gateway_laws :: "gateway_lib \<Rightarrow> (gerror \<Rightarrow> nat \<times> string) \<Rightarrow> (HealthResponse \<Rightarrow> string res) \<Rightarrow> (StandardResponse \<Rightarrow> string res) \<Rightarrow> bool" where
  "gateway_laws gw Convert Marshal marshal \<longleftrightarrow>
     (\<forall>ctx r e. HTTPError gw ctx r e = ErrorHandler Convert marshal e) \<and>
     (\<forall>ctx smd r resp. Forward gw ctx smd r resp =
        (case ResponseWrapper Marshal resp of
           Inl err \<Rightarrow> ErrorHandler Convert marshal err
         | Inr sr \<Rightarrow>
             (case marshal sr of
                Inl err \<Rightarrow> ErrorHandler Convert marshal err
              | Inr buf \<Rightarrow> \<lparr>w_status = 200, w_type = ''application/json'', w_body = buf\<rparr>)))"

definition connected :: "(gerror \<Rightarrow> nat \<times> string) \<Rightarrow> 'w invocation \<Rightarrow> (string \<times> HealthRequest, HealthResponse, 'm, 'w) grpc_server
    \<Rightarrow> 'w HskBaseServer \<Rightarrow> (go_ctx \<Rightarrow> go_ctx) \<Rightarrow> bool" where
  "connected Convert invoke g srv server_ctx \<longleftrightarrow>
     (\<forall>ctx req opts w r w'. Health_Handler srv (server_ctx ctx) (Inr req) (Some (unary_chain g)) w = (Returns r, w') \<longrightarrow>
        (\<exists>smd. invoke ctx HskBase_Health_FullMethodName req opts w =
           ((case r of Inl e \<Rightarrow> Inl (case Convert e of (c, m) \<Rightarrow> StatusError c m) | Inr x \<Rightarrow> Inr x, smd), w')))"

definition health_page :: "string \<Rightarrow> StandardResponse" where
  "health_page body = \<lparr>Status = \<lparr>ErrorCode = 0, ErrorMessage = ''Success'', AlertMessage = []\<rparr>, Data = Some body\<rparr>"

text \<open>
  C17: a health request end to end.  Through the gateway and a connection to the gRPC server of the kit, whose interceptors extract the
  attributes and limit the rate, the limiter decides by the name of the method and not by the path of the request; the client gets the
  wrapped response with the status 200, or the status 429 and the service is not reached.  The handler that is registered with the server itself
  answers without any of the interceptors, so the limiter is not asked.
\<close>

theorem health_end_to_end:
  assumes "grpc_laws lib" and "\<And>ctx req hd w. grpc_prometheus lib ctx req hd w = hd ctx req w"
    and "InitGrpcServer lib record tc cfg sw = (g, sw')"
    and "UnaryInterceptors cfg = Some [attributes_unary MD_Get, limit_unary (Limit_in api oob)]"
    and "gateway_laws gw Convert Marshal marshal" and "\<And>c m. Convert (StatusError c m) = (c, m)"
    and "connected Convert invoke g BaseService_New server_ctx"
    and "AnnotateContext gw (req_ctx r) r HskBase_Health_FullMethodName HealthPath = Inr actx"
    and "AnnotateIncomingContext gw (req_ctx r) r HskBase_Health_FullMethodName HealthPath = Inr ictx"
    and "Marshal \<lparr>hr_Status = ''OK''\<rparr> = Inr body" and "marshal (health_page body) = Inr page"
  shows "let attrs = call_attributes MD_Get (server_ctx actx) HskBase_Health_FullMethodName;
        ctx = WithRequestAttributes (server_ctx actx) attrs; st' = snd (Limit api oob st ctx);
        ok = \<lparr>w_status = 200, w_type = ''application/json'', w_body = page\<rparr>
    in Path attrs = ''/hskbasepb.HskBase/Health'' \<and>
      snd (handle_client gw invoke r (st, h)) = (st', h) \<and>
      (case fst (Limit api oob st ctx) of
         None \<Rightarrow> fst (handle_client gw invoke r (st, h)) = ok
       | Some _ \<Rightarrow> w_status (fst (handle_client gw invoke r (st, h))) = 429) \<and>
      handle_local gw BaseService_New stream r (st, h) = (Returns (Inr ok), (st, h))"
proof -
  define ctx where "ctx = WithRequestAttributes (server_ctx actx) (call_attributes MD_Get (server_ctx actx) HskBase_Health_FullMethodName)"
  have chain: "Health_Handler BaseService_New (server_ctx actx) (Inr HealthRequest) (Some (unary_chain g)) (st, h) =
      recovered (recoverHandler record) (UnaryServerInterceptor (Limit_in api oob) ctx (HskBase_Health_FullMethodName, HealthRequest)
        HskBase_Health_FullMethodName (\<lambda>ctx req. Health ctx (snd req)) (st, h))"
    by (simp add: Health_Handler_def BaseService_New_def ctx_def rate_limited_chain [OF assms(1-4)] del: recovered_recoverHandler)
  have fwd: "Forward gw c smd r \<lparr>hr_Status = ''OK''\<rparr> = \<lparr>w_status = 200, w_type = ''application/json'', w_body = page\<rparr>" for c smd
    using assms(5,10,11) by (simp add: gateway_laws_def ResponseWrapper_def health_page_def)
  have err: "w_status (HTTPError gw c r (StatusError ResourceExhausted m)) = 429" for c m
    using assms(5,6) by (auto simp: gateway_laws_def ErrorHandler_def HTTPStatusFromCode_def ResourceExhausted_def Let_def split: sum.splits)
  have local: "handle_local gw BaseService_New stream r (st, h) =
      (Returns (Inr \<lparr>w_status = 200, w_type = ''application/json'', w_body = page\<rparr>), (st, h))"
    using assms(9) fwd by (simp add: handle_local_def local_request_HskBase_Health_0_def BaseService_New_def Health_def)
  note step = assms(7) [unfolded connected_def, rule_format, of actx HealthRequest "(st, h)"]
  have "snd (handle_client gw invoke r (st, h)) = (snd (Limit api oob st ctx), h) \<and>
      (case fst (Limit api oob st ctx) of
         None \<Rightarrow> fst (handle_client gw invoke r (st, h)) = \<lparr>w_status = 200, w_type = ''application/json'', w_body = page\<rparr>
       | Some _ \<Rightarrow> w_status (fst (handle_client gw invoke r (st, h))) = 429)"
  proof (cases "fst (Limit api oob st ctx)")
    case None
    then have "Health_Handler BaseService_New (server_ctx actx) (Inr HealthRequest) (Some (unary_chain g)) (st, h)
        = (Returns (Inr \<lparr>hr_Status = ''OK''\<rparr>), (snd (Limit api oob st ctx), h))"
      by (simp add: chain UnaryServerInterceptor_def Limit_in_eq Health_def)
    from step [OF this, of "[StaticMethod, HeaderOption, TrailerOption]"] obtain smd where "invoke actx HskBase_Health_FullMethodName HealthRequest [StaticMethod, HeaderOption, TrailerOption] (st, h)
        = ((Inr \<lparr>hr_Status = ''OK''\<rparr>, smd), (snd (Limit api oob st ctx), h))" by auto
    then show ?thesis using None assms(8) fwd
      by (simp add: handle_client_def request_HskBase_Health_0_def Client_Health_def)
  next
    case (Some e)
    define m where "m = HskBase_Health_FullMethodName @ '' is rejected by grpc_ratelimit middleware, please retry later. '' @ err_msg e"
    have "Health_Handler BaseService_New (server_ctx actx) (Inr HealthRequest) (Some (unary_chain g)) (st, h)
        = (Returns (Inl (StatusError ResourceExhausted m)), (snd (Limit api oob st ctx), h))"
      by (simp add: chain UnaryServerInterceptor_def Limit_in_eq Some m_def)
    from step [OF this, of "[StaticMethod, HeaderOption, TrailerOption]"] obtain smd where "invoke actx HskBase_Health_FullMethodName HealthRequest [StaticMethod, HeaderOption, TrailerOption] (st, h)
        = ((Inl (StatusError ResourceExhausted m), smd), (snd (Limit api oob st ctx), h))" using assms(6) by auto
    then show ?thesis using Some assms(8) err
      by (simp add: handle_client_def request_HskBase_Health_0_def Client_Health_def)
  qed
  then show ?thesis using local by (simp add: Let_def ctx_def HskBase_Health_FullMethodName_def)
qed

text \<open>A gateway and a connection that satisfy the laws.\<close>

definition example_convert :: "gerror \<Rightarrow> nat \<times> string" where
  "example_convert e = (case e of StatusError c m \<Rightarrow> (c, m) | _ \<Rightarrow> (2, err_msg e))"

definition example_marshal :: "StandardResponse \<Rightarrow> string res" where
  "example_marshal r = Inr (case Data r of Some d \<Rightarrow> d | None \<Rightarrow> [])"

definition example_gateway :: gateway_lib where
  "example_gateway = \<lparr>AnnotateContext = (\<lambda>ctx _ _ _. Inr ctx), AnnotateIncomingContext = (\<lambda>ctx _ _ _. Inr ctx),
     HTTPError = (\<lambda>_ _ e. ErrorHandler example_convert example_marshal e),
     Forward = (\<lambda>_ _ _ resp. \<lparr>w_status = 200, w_type = ''application/json'', w_body = hr_Status resp\<rparr>)\<rparr>"

definition example_invoke :: "(string \<times> HealthRequest, HealthResponse, 'm, 'w) grpc_server \<Rightarrow> 'w invocation" where
  "example_invoke g ctx fm req opts w =
     (case Health_Handler BaseService_New ctx (Inr req) (Some (unary_chain g)) w of
        (Returns (Inl e), w') \<Rightarrow> ((Inl (case example_convert e of (c, m) \<Rightarrow> StatusError c m), \<lparr>HeaderMD = [], TrailerMD = []\<rparr>), w')
      | (Returns (Inr x), w') \<Rightarrow> ((Inr x, \<lparr>HeaderMD = [], TrailerMD = []\<rparr>), w')
      | (Panics p, w') \<Rightarrow> ((Inl (StatusError Internal p), \<lparr>HeaderMD = [], TrailerMD = []\<rparr>), w'))"

lemma example_connected: "connected example_convert (example_invoke g) g BaseService_New (\<lambda>c. c)"
  by (auto simp: connected_def example_invoke_def split: sum.split)

definition example_health_config :: "(string \<times> HealthRequest, HealthResponse, unit, (unit MultiLevelLimiter \<times> unit world) \<times> unit) GrpcServerConfig" where
  "example_health_config = \<lparr>grpc_Host = ''h'', grpc_Port = 9, GrpcOptions = None,
     UnaryInterceptors = Some [attributes_unary (\<lambda>_ _. []), limit_unary (Limit_in example_full (\<lambda>_. 0))], StreamInterceptors = None\<rparr>"

theorem health_end_to_end_witness:
  "let g = fst (InitGrpcServer example_grpc_lib (\<lambda>_ w. w) (loadTracingConfigFromEnv (\<lambda>_. [])) example_health_config example_switches);
       st = example_limiter ''/hsk''
   in w_status (fst (handle_client example_gateway (example_invoke g) example_request (st, ()))) = 429 \<and>
     handle_local example_gateway BaseService_New \<lparr>HeaderMD = [], TrailerMD = []\<rparr> example_request (st, ())
       = (Returns (Inr \<lparr>w_status = 200, w_type = ''application/json'', w_body = ''OK''\<rparr>), (st, ()))"
proof -
  obtain g sw where g: "InitGrpcServer example_grpc_lib (\<lambda>_ w. w) (loadTracingConfigFromEnv (\<lambda>_. [])) example_health_config example_switches = (g, sw)"
    by fastforce
  have laws: "grpc_laws example_grpc_lib" "gateway_laws example_gateway example_convert (\<lambda>r. Inr (hr_Status r)) example_marshal"
    by (simp_all add: grpc_laws_def example_grpc_lib_def gateway_laws_def example_gateway_def ResponseWrapper_def example_marshal_def)
  have prom: "grpc_prometheus example_grpc_lib ctx req hd w = hd ctx req w" for ctx req hd w
    by (simp add: example_grpc_lib_def)
  have cfg: "UnaryInterceptors example_health_config = Some [attributes_unary (\<lambda>_ _. []), limit_unary (Limit_in example_full (\<lambda>_. 0))]"
    by (simp add: example_health_config_def)
  have conv: "example_convert (StatusError c m) = (c, m)" for c m by (simp add: example_convert_def)
  have ann: "AnnotateContext example_gateway (req_ctx example_request) example_request HskBase_Health_FullMethodName HealthPath = Inr background"
    "AnnotateIncomingContext example_gateway (req_ctx example_request) example_request HskBase_Health_FullMethodName HealthPath = Inr background"
    by (simp_all add: example_gateway_def example_request_def)
  have page: "example_marshal (health_page ''OK'') = Inr ''OK''" by (simp add: example_marshal_def health_page_def)
  obtain e where "fst (Limit example_full (\<lambda>_. 0) (example_limiter ''/hsk'')
      (WithRequestAttributes background (call_attributes (\<lambda>_ _. []) background HskBase_Health_FullMethodName))) = Some e"
    using example_limiter_rejects [OF GetFromContext_With, of _ "''/hsk''"] by (fastforce simp: HasPrefix_def HskBase_Health_FullMethodName_def)
  with health_end_to_end [OF laws(1) prom g cfg laws(2) conv example_connected ann _ page, of "example_limiter ''/hsk''" "()"]
  show ?thesis using g by (simp add: Let_def)
qed

end
