(* ===== verification/Worker.thy ===== *)
theory Worker
  imports Lifecycle
begin

text \<open>
  Background tasks that a component starts under a cancellable context and waits for, and the
  worker pool built on them: \<^verbatim>\<open>worker/main.go\<close> and \<^verbatim>\<open>worker/attribute.go\<close>.

  A run-time state holds the contexts cancelled so far and the goroutines that have not returned,
  each with the number of its run context.  That a goroutine returns is an event: the \<open>k\<close>-th one
  leaves the list and counts the wait group down.  \<^verbatim>\<open>wg.Wait()\<close> passes when the wait group is zero.
\<close>

section \<open>Goroutines under cancellable contexts\<close>

record 'a runtime =
  next_ctx :: nat
  cancelled :: "nat set"
  running :: "(nat \<times> 'a) list"
  waitgroup :: nat

definition empty_runtime :: "'a runtime" where
  "empty_runtime = \<lparr>next_ctx = 0, cancelled = {}, running = [], waitgroup = 0\<rparr>"

text \<open>\<^verbatim>\<open>context.WithCancel\<close>, the cancel function, \<^verbatim>\<open>wg.Add(1); go f\<close>, and the return of a goroutine.\<close>

definition WithCancel :: "'a runtime \<Rightarrow> nat \<times> 'a runtime" where
  "WithCancel rt = (next_ctx rt, rt\<lparr>next_ctx := next_ctx rt + 1\<rparr>)"

definition cancel_ctx :: "nat \<Rightarrow> 'a runtime \<Rightarrow> 'a runtime" where
  "cancel_ctx c rt = rt\<lparr>cancelled := insert c (cancelled rt)\<rparr>"

definition go_spawn :: "nat \<Rightarrow> 'a \<Rightarrow> 'a runtime \<Rightarrow> 'a runtime" where
  "go_spawn c t rt = rt\<lparr>waitgroup := waitgroup rt + 1, running := running rt @ [(c, t)]\<rparr>"

definition go_return :: "nat \<Rightarrow> 'a runtime \<Rightarrow> 'a runtime" where
  "go_return k rt = rt\<lparr>waitgroup := waitgroup rt - 1, running := take k (running rt) @ drop (Suc k) (running rt)\<rparr>"

definition runtime_inv :: "'a runtime \<Rightarrow> bool" where
  "runtime_inv rt \<longleftrightarrow> waitgroup rt = length (running rt) \<and> (\<forall>(c, t) \<in> set (running rt). c < next_ctx rt)"

lemma runtime_inv_empty [go_inv]: "runtime_inv empty_runtime"
  by (simp add: runtime_inv_def empty_runtime_def)

lemma runtime_inv_cancel [go_inv]: "runtime_inv rt \<Longrightarrow> runtime_inv (cancel_ctx c rt)"
  by (simp add: runtime_inv_def cancel_ctx_def)

lemma runtime_inv_spawn [go_inv]: "runtime_inv rt \<Longrightarrow> c < next_ctx rt \<Longrightarrow> runtime_inv (go_spawn c t rt)"
  by (auto simp: runtime_inv_def go_spawn_def)

lemma runtime_inv_return [go_inv]: "runtime_inv rt \<Longrightarrow> k < length (running rt) \<Longrightarrow> runtime_inv (go_return k rt)"
  by (auto simp: runtime_inv_def go_return_def dest!: in_set_takeD in_set_dropD)

text \<open>The goroutines that run belong to the context \<open>c\<close>.\<close>

definition owned_by :: "nat \<Rightarrow> 'a runtime \<Rightarrow> bool" where
  "owned_by c rt \<longleftrightarrow> (\<forall>(d, t) \<in> set (running rt). d = c)"

definition all_cancelled :: "'a runtime \<Rightarrow> bool" where
  "all_cancelled rt \<longleftrightarrow> (\<forall>(d, t) \<in> set (running rt). d \<in> cancelled rt)"

lemma cancel_owned: "owned_by c rt \<Longrightarrow> all_cancelled (cancel_ctx c rt)"
  by (auto simp: owned_by_def all_cancelled_def cancel_ctx_def)

lemma all_cancelled_Nil: "running rt = [] \<Longrightarrow> all_cancelled rt"
  by (simp add: all_cancelled_def)

lemma return_owned: "owned_by c rt \<Longrightarrow> owned_by c (go_return k rt)"
  by (auto simp: owned_by_def go_return_def dest!: in_set_takeD in_set_dropD)

lemma return_Nil: "running rt = [] \<Longrightarrow> running (go_return k rt) = []"
  by (simp add: go_return_def)

lemma return_all_cancelled: "all_cancelled rt \<Longrightarrow> all_cancelled (go_return k rt)"
  by (auto simp: all_cancelled_def go_return_def dest!: in_set_takeD in_set_dropD)

section \<open>Stopping a component that owns background tasks\<close>

text \<open>A schedule: at each point, the position of the task that returns.\<close>

fun schedule_ok :: "(nat \<Rightarrow> 's \<Rightarrow> 's) \<Rightarrow> ('s \<Rightarrow> nat) \<Rightarrow> nat list \<Rightarrow> 's \<Rightarrow> bool" where
  "schedule_ok finish pending [] s \<longleftrightarrow> True"
| "schedule_ok finish pending (k # ks) s \<longleftrightarrow> k < pending s \<and> schedule_ok finish pending ks (finish k s)"

text \<open>
  What \<^verbatim>\<open>Stop\<close> of the worker pool and of the Kafka components relies on: the call begins by cancelling
  the context of the tasks it owns, and then waits while tasks return one at a time.
\<close>

locale task_group =
  fixes valid :: "'s \<Rightarrow> bool"
    and owns_all :: "'s \<Rightarrow> bool"
    and begin_stop :: "'s \<Rightarrow> 's"
    and finish :: "nat \<Rightarrow> 's \<Rightarrow> 's"
    and pending :: "'s \<Rightarrow> nat"
    and told_to_stop :: "'s \<Rightarrow> bool"
  assumes begin_valid: "valid s \<Longrightarrow> valid (begin_stop s)"
    and finish_valid: "valid s \<Longrightarrow> k < pending s \<Longrightarrow> valid (finish k s)"
    and begin_pending: "valid s \<Longrightarrow> pending (begin_stop s) = pending s"
    and begin_tells: "valid s \<Longrightarrow> owns_all s \<Longrightarrow> told_to_stop (begin_stop s)"
    and finish_pending: "valid s \<Longrightarrow> k < pending s \<Longrightarrow> pending (finish k s) = pending s - 1"
    and finish_tells: "valid s \<Longrightarrow> told_to_stop s \<Longrightarrow> k < pending s \<Longrightarrow> told_to_stop (finish k s)"
    and finish_owns: "owns_all s \<Longrightarrow> k < pending s \<Longrightarrow> owns_all (finish k s)"
begin

lemma drain:
  "schedule_ok finish pending ks s \<Longrightarrow> valid s \<Longrightarrow>
   valid (fold finish ks s) \<and> pending (fold finish ks s) + length ks = pending s \<and>
   (told_to_stop s \<longrightarrow> told_to_stop (fold finish ks s))"
proof (induction ks arbitrary: s)
  case (Cons k ks)
  then have "valid (finish k s)" "pending (finish k s) = pending s - 1" "k < pending s"
    by (auto simp: finish_valid finish_pending)
  then show ?case using Cons.IH [of "finish k s"] Cons.prems finish_tells [of s k] by auto
qed simp

lemma stop_drains:
  assumes "valid s" "owns_all s" "schedule_ok finish pending ks (begin_stop s)"
  shows "told_to_stop (fold finish ks (begin_stop s))"
    and "pending (fold finish ks (begin_stop s)) = 0 \<longleftrightarrow> length ks = pending s"
  using drain [OF assms(3) begin_valid [OF assms(1)]] begin_tells [OF assms(1,2)] begin_pending [OF assms(1)]
  by auto

end

section \<open>The worker pool\<close>

definition InjectWorkerName :: "go_ctx \<Rightarrow> string \<Rightarrow> int \<Rightarrow> go_ctx" where
  "InjectWorkerName ctx workerName index =
     (let val = workerName @ ''-'' @ Itoa index in ctx\<lparr>worker_value := Some val\<rparr>)"

definition ExtractWorkerName :: "go_ctx \<Rightarrow> string" where
  "ExtractWorkerName ctx = (case worker_value ctx of None \<Rightarrow> '''' | Some workerName \<Rightarrow> workerName)"

text \<open>A running task of the pool: the context it was given (its values) and its index.\<close>

record Worker =
  WorkerName :: string
  Ctx :: "go_ctx option"
  NumOfWorker :: int
  cancel :: "nat option"
  rt :: "(go_ctx \<times> int) runtime"
  wlog :: "log_line list"

definition Init :: "go_ctx option \<Rightarrow> string \<Rightarrow> int \<Rightarrow> Worker" where
  "Init ctx name numWorker = \<lparr>WorkerName = name, Ctx = ctx, NumOfWorker = numWorker, cancel = None,
     rt = empty_runtime, wlog = []\<rparr>"

definition Worker_Name :: "Worker \<Rightarrow> string" where
  "Worker_Name w = (if WorkerName w \<noteq> '''' then WorkerName w else ''worker'')"

text \<open>The loop of \<^verbatim>\<open>Start\<close>; the goroutine names its context as soon as it runs.\<close>

function spawn_workers :: "nat \<Rightarrow> go_ctx \<Rightarrow> string \<Rightarrow> int \<Rightarrow> int \<Rightarrow> (go_ctx \<times> int) runtime \<Rightarrow> (go_ctx \<times> int) runtime" where
  "spawn_workers c runCtx name i n r =
     (if i < n then spawn_workers c runCtx name (i + 1) n (go_spawn c (InjectWorkerName runCtx name i, i) r) else r)"
  by auto
termination by (relation "measure (\<lambda>(c, x, nm, i, n, r). nat (n - i))") auto

declare spawn_workers.simps [simp del]

definition Worker_Start :: "go_ctx \<Rightarrow> Worker \<Rightarrow> gerror option \<times> Worker" where
  "Worker_Start ctx w =
     (let baseCtx = (case Ctx w of None \<Rightarrow> ctx | Some c \<Rightarrow> c);
          (c, r) = WithCancel (rt w)
      in (None, w\<lparr>cancel := Some c, rt := spawn_workers c baseCtx (WorkerName w) 0 (NumOfWorker w) r\<rparr>))"

text \<open>The first half of \<^verbatim>\<open>Stop\<close>; it returns \<^verbatim>\<open>nil\<close> once the wait group is zero.\<close>

definition Worker_begin_stop :: "Worker \<Rightarrow> Worker" where
  "Worker_begin_stop w = (case cancel w of None \<Rightarrow> w | Some c \<Rightarrow> w\<lparr>rt := cancel_ctx c (rt w)\<rparr>)"

definition Worker_Stop_returns :: "Worker \<Rightarrow> bool" where
  "Worker_Stop_returns w \<longleftrightarrow> waitgroup (rt w) = 0"

definition Worker_Run :: "Worker \<Rightarrow> Worker" where
  "Worker_Run w = snd (Worker_Start background w)"

text \<open>
  The \<open>k\<close>-th running goroutine returns from the handler (a parameter), which sees the cancellation
  of its context; an error is logged.
\<close>

definition Worker_finish :: "(go_ctx \<Rightarrow> int \<Rightarrow> gerror option) \<Rightarrow> nat \<Rightarrow> Worker \<Rightarrow> Worker" where
  "Worker_finish Handle k w =
     (let (c, ctx, index) = running (rt w) ! k;
          workerCtx = (if c \<in> cancelled (rt w) \<and> ctx_err ctx = None then ctx\<lparr>ctx_err := Some Canceled\<rparr> else ctx);
          w' = w\<lparr>rt := go_return k (rt w)\<rparr>
      in case Handle workerCtx index of
           None \<Rightarrow> w'
         | Some err \<Rightarrow> w'\<lparr>wlog := wlog w @ [Line LError ''worker error'' [(''index'', Itoa index), (''error'', err_msg err)]]\<rparr>)"

definition worker_inv :: "Worker \<Rightarrow> bool" where
  "worker_inv w \<longleftrightarrow> runtime_inv (rt w)"

definition worker_owns_all :: "Worker \<Rightarrow> bool" where
  "worker_owns_all w \<longleftrightarrow> (case cancel w of None \<Rightarrow> running (rt w) = [] | Some c \<Rightarrow> owned_by c (rt w))"

lemma spawn_workers_eq:
  "spawn_workers c x name i n r =
     r\<lparr>waitgroup := waitgroup r + nat (n - i), running := running r @ map (\<lambda>j. (c, InjectWorkerName x name j, j)) [i..n - 1]\<rparr>"
proof (induction c x name i n r rule: spawn_workers.induct)
  case (1 c x name i n r)
  show ?case
  proof (cases "i < n")
    case True
    then have "nat (n - i) = Suc (nat (n - (i + 1)))" "[i..n - 1] = i # [i + 1..n - 1]"
      by (simp_all add: upto_rec1)
    then show ?thesis using True 1 by (subst spawn_workers.simps) (simp add: go_spawn_def)
  next
    case False
    then show ?thesis by (subst spawn_workers.simps) simp
  qed
qed

lemma Worker_Start_inv [go_inv]: "worker_inv w \<Longrightarrow> worker_inv (snd (Worker_Start ctx w))"
  by (auto simp: worker_inv_def Worker_Start_def WithCancel_def spawn_workers_eq runtime_inv_def)

lemma Worker_finish_rt [simp]: "rt (Worker_finish H k w) = go_return k (rt w)"
  by (auto simp: Worker_finish_def Let_def split: prod.splits option.splits)

interpretation wk: task_group worker_inv worker_owns_all Worker_begin_stop "Worker_finish H"
  "\<lambda>w. waitgroup (rt w)" "\<lambda>w. all_cancelled (rt w)"
proof unfold_locales
  fix s :: Worker and k
  assume inv: "worker_inv s"
  show "worker_inv (Worker_begin_stop s)"
    using inv by (auto simp: worker_inv_def Worker_begin_stop_def intro: go_inv split: option.splits)
  show "waitgroup (rt (Worker_begin_stop s)) = waitgroup (rt s)"
    by (auto simp: Worker_begin_stop_def cancel_ctx_def split: option.splits)
  show "worker_owns_all s \<Longrightarrow> all_cancelled (rt (Worker_begin_stop s))"
    by (auto simp: Worker_begin_stop_def worker_owns_all_def all_cancelled_def cancel_owned [unfolded all_cancelled_def]
        split: option.splits)
  assume k: "k < waitgroup (rt s)"
  show "worker_inv (Worker_finish H k s)"
    using inv k by (auto simp: worker_inv_def runtime_inv_def intro!: go_inv [unfolded runtime_inv_def])
  show "waitgroup (rt (Worker_finish H k s)) = waitgroup (rt s) - 1" by (simp add: go_return_def)
  show "all_cancelled (rt s) \<Longrightarrow> all_cancelled (rt (Worker_finish H k s))" by (simp add: return_all_cancelled)
next
  fix s :: Worker and k
  have "cancel (Worker_finish H k s) = cancel s" by (simp add: Worker_finish_def Let_def split: prod.split option.split)
  then show "worker_owns_all s \<Longrightarrow> worker_owns_all (Worker_finish H k s)"
    by (auto simp: worker_owns_all_def return_owned return_Nil split: option.splits)
qed

lemma Worker_Start_owns: "running (rt w) = [] \<Longrightarrow> worker_owns_all (snd (Worker_Start ctx w))"
  by (auto simp: worker_owns_all_def Worker_Start_def WithCancel_def spawn_workers_eq owned_by_def)

lemma Worker_Start_pending: "waitgroup (rt (snd (Worker_Start ctx w))) = waitgroup (rt w) + nat (NumOfWorker w)"
  by (simp add: Worker_Start_def WithCancel_def spawn_workers_eq)

section \<open>Properties\<close>

text \<open>
  \<^verbatim>\<open>Worker.Start\<close> starts \<^verbatim>\<open>NumOfWorker\<close> goroutines (none when it is not positive), each under the
  pool's own context when it has one, and each with a different worker name in its context, which
  \<^verbatim>\<open>ExtractWorkerName\<close> reads back.
\<close>

theorem Worker_Start_names:
  "let tasks = drop (length (running (rt w))) (running (rt (snd (Worker_Start ctx w))));
       names = map (\<lambda>t. ExtractWorkerName (fst (snd t))) tasks
   in names = map (\<lambda>i. WorkerName w @ ''-'' @ Itoa i) [0..NumOfWorker w - 1] \<and> distinct names \<and>
     map (\<lambda>t. (fst (snd t))\<lparr>worker_value := None\<rparr>) tasks =
       replicate (length tasks) ((case Ctx w of None \<Rightarrow> ctx | Some c \<Rightarrow> c)\<lparr>worker_value := None\<rparr>)"
proof -
  define base where "base = (case Ctx w of None \<Rightarrow> ctx | Some c \<Rightarrow> c)"
  have "distinct (map (\<lambda>i. WorkerName w @ ''-'' @ Itoa i) [0..NumOfWorker w - 1])"
    by (simp add: distinct_map inj_on_def)
  moreover have "drop (length (running (rt w))) (running (rt (snd (Worker_Start ctx w)))) =
      map (\<lambda>j. (next_ctx (rt w), InjectWorkerName base (WorkerName w) j, j)) [0..NumOfWorker w - 1]"
    by (simp add: base_def Worker_Start_def WithCancel_def spawn_workers_eq)
  moreover have "ExtractWorkerName (InjectWorkerName c n j) = n @ ''-'' @ Itoa j"
    "(InjectWorkerName c n j)\<lparr>worker_value := None\<rparr> = c\<lparr>worker_value := None\<rparr>" for c n j
    by (simp_all add: ExtractWorkerName_def InjectWorkerName_def Let_def)
  ultimately show ?thesis by (simp add: comp_def map_replicate_const Let_def flip: base_def)
qed

text \<open>
  \<^verbatim>\<open>Worker.Stop\<close> after a start of an idle pool cancels the context of every task, and returns
  exactly when as many tasks have returned as were started, in whatever order they do.
\<close>

theorem Worker_Stop_drains:
  assumes "worker_inv w" and "running (rt w) = []"
    and "s = Worker_begin_stop (snd (Worker_Start ctx w))"
    and "schedule_ok (Worker_finish Handle) (\<lambda>w. waitgroup (rt w)) ks s"
  shows "all_cancelled (rt (fold (Worker_finish Handle) ks s)) \<and>
    (Worker_Stop_returns (fold (Worker_finish Handle) ks s) \<longleftrightarrow> length ks = nat (NumOfWorker w))"
proof -
  have "worker_inv (snd (Worker_Start ctx w))" "worker_owns_all (snd (Worker_Start ctx w))"
    using assms Worker_Start_inv Worker_Start_owns by auto
  from wk.stop_drains [OF this, of Handle ks] show ?thesis
    using assms Worker_Start_pending [of ctx w]
    by (auto simp: Worker_Stop_returns_def worker_inv_def runtime_inv_def)
qed

theorem Worker_Stop_drains_witness:
  "Worker_Stop_returns (fold (Worker_finish (\<lambda>_ _. None)) [1, 0]
     (Worker_begin_stop (snd (Worker_Start background (Init None ''w'' 2)))))"
proof -
  let ?w = "Init None ''w'' 2"
  have i: "worker_inv ?w" "running (rt ?w) = []" "NumOfWorker ?w = 2"
    by (simp_all add: Init_def worker_inv_def runtime_inv_empty) (simp add: empty_runtime_def)
  have "waitgroup (rt (Worker_begin_stop (snd (Worker_Start background ?w)))) = 2"
    using wk.begin_pending [OF Worker_Start_inv [OF i(1)]] Worker_Start_pending [of background ?w] i
    by (simp add: Init_def empty_runtime_def)
  then have sched: "schedule_ok (Worker_finish (\<lambda>_ _. None)) (\<lambda>w. waitgroup (rt w)) [1, 0]
      (Worker_begin_stop (snd (Worker_Start background ?w)))" by (simp add: go_return_def)
  show ?thesis using Worker_Stop_drains [OF i(1,2) refl sched] i(3) by simp
qed

text \<open>
  A second \<^verbatim>\<open>Start\<close> before \<^verbatim>\<open>Stop\<close> replaces the cancel function of the first: the tasks of
  the first start are still waited for, but \<^verbatim>\<open>Stop\<close> no longer cancels their context.
\<close>

theorem Worker_restart_not_cancelled:
  assumes "worker_inv w" and "t \<in> set (running (rt w))" and "fst t \<notin> cancelled (rt w)"
  shows "let s = Worker_begin_stop (snd (Worker_Start ctx w))
    in t \<in> set (running (rt s)) \<and> fst t \<notin> cancelled (rt s) \<and> \<not> Worker_Stop_returns s"
proof -
  have "fst t < next_ctx (rt w)" "waitgroup (rt w) > 0" using assms by (auto simp: worker_inv_def runtime_inv_def)
  then show ?thesis using assms
    by (auto simp: Worker_Start_def WithCancel_def spawn_workers_eq Worker_begin_stop_def cancel_ctx_def
        Worker_Stop_returns_def Let_def)
qed

theorem Worker_restart_not_cancelled_witness:
  "let s = Worker_begin_stop (snd (Worker_Start background (snd (Worker_Start background (Init None ''w'' 1)))))
   in \<not> Worker_Stop_returns s \<and> (0, InjectWorkerName background ''w'' 0, 0) \<in> set (running (rt s))"
proof -
  let ?w = "snd (Worker_Start background (Init None ''w'' 1))" and ?t = "(0, InjectWorkerName background ''w'' 0, 0)"
  have "worker_inv ?w" by (intro Worker_Start_inv) (simp add: worker_inv_def Init_def go_inv)
  moreover have "?t \<in> set (running (rt ?w))" "fst ?t \<notin> cancelled (rt ?w)"
    by (simp_all add: Worker_Start_def WithCancel_def spawn_workers_eq Init_def empty_runtime_def)
  ultimately show ?thesis
    using Worker_restart_not_cancelled [of ?w ?t background] by (simp add: Let_def)
qed

end
