(* ===== verification/Kafka.thy ===== *)
theory Kafka
  imports Worker Telemetry "HOL-Library.AList"
begin

text \<open>
  The Kafka client: \<^verbatim>\<open>kafka/kafka.go\<close>, \<^verbatim>\<open>kafka/tls.go\<close>, \<^verbatim>\<open>kafka/scram.go\<close>,
  \<^verbatim>\<open>kafka/consumer_component.go\<close> and \<^verbatim>\<open>kafka/producer_component.go\<close>.

  The \<^verbatim>\<open>sarama\<close> library is an argument.  The producers and consumer groups it makes are numbers, its
  configuration is the part the kit writes.  The SCRAM library, the wrappers of the tracing instrumentation and its propagator are
  arguments too.  What arrives on a channel, and which branch a \<^verbatim>\<open>select\<close> takes, is a
  list of events.
\<close>

section \<open>Configuration\<close>

record KafkaAuth =
  auth_Enabled :: bool
  Mechanism :: string
  Username :: string
  Password :: string
  RequireSASL :: bool

record KafkaTLS =
  tls_Enabled :: bool
  CAFile :: string
  tls_ServerName :: string
  InsecureSkipVerify :: bool

record KafkaConfig =
  cfg_Brokers :: string
  GroupID :: string
  Auth :: "KafkaAuth option"
  TLS :: "KafkaTLS option"
  ClientID :: string

text \<open>\<^verbatim>\<open>tls.Config\<close>: the roots are \<^verbatim>\<open>nil\<close> (the system pool) or the pool read from a file.\<close>

record tls_config =
  RootCAs :: "string option"
  SkipVerify :: bool
  ServerNameOverride :: string

text \<open>The hash function of the SCRAM clients that a connection makes; the library's default configuration has no generator.\<close>

datatype hash_fn = SHA256 | SHA512

record sasl_config =
  sasl_Enable :: bool
  sasl_User :: string
  sasl_Password :: string
  sasl_Mechanism :: string
  SCRAMClientGenerator :: "hash_fn option"

record sarama_config =
  net_SASL :: sasl_config
  net_TLS :: "bool \<times> tls_config option"
  Version :: string
  Consumer_Return_Errors :: bool
  Rebalance_Strategy :: string
  Offsets_Initial :: string
  Producer_Return_Successes :: bool
  Producer_Return_Errors :: bool
  RequiredAcks :: string

definition createTLSConfiguration :: "(string \<Rightarrow> string res) \<Rightarrow> KafkaTLS option \<Rightarrow> tls_config option outcome" where
  "createTLSConfiguration ReadFile cfg =
     (case cfg of
        None \<Rightarrow> Returns (Inr None)
      | Some c \<Rightarrow>
          (if \<not> tls_Enabled c then Returns (Inr None)
           else (let t = \<lparr>RootCAs = None, SkipVerify = InsecureSkipVerify c, ServerNameOverride = []\<rparr> in
                 if CAFile c \<noteq> [] \<and> tls_ServerName c \<noteq> [] \<and> InsecureSkipVerify c then
                   (case ReadFile (CAFile c) of
                      Inl _ \<Rightarrow> Panics ''log.Fatal''
                    | Inr caCert \<Rightarrow>
                        Returns (Inr (Some \<lparr>RootCAs = Some caCert, SkipVerify = InsecureSkipVerify c, ServerNameOverride = []\<rparr>)))
                 else Returns (Inr (Some t)))))"

definition ApplyKafkaTLS :: "(string \<Rightarrow> string res) \<Rightarrow> sarama_config \<Rightarrow> KafkaTLS option \<Rightarrow> sarama_config outcome" where
  "ApplyKafkaTLS ReadFile sc cfg =
     (case cfg of
        None \<Rightarrow> Returns (Inr sc)
      | Some c \<Rightarrow>
          (if \<not> tls_Enabled c then Returns (Inr sc)
           else out_bind (createTLSConfiguration ReadFile cfg) (\<lambda>t. Returns (Inr (sc\<lparr>net_TLS := (True, t)\<rparr>)))))"

definition ApplyKafkaAuth :: "sarama_config \<Rightarrow> KafkaAuth option \<Rightarrow> sarama_config" where
  "ApplyKafkaAuth sc cfg =
     (case cfg of
        None \<Rightarrow> sc
      | Some c \<Rightarrow>
          (if \<not> auth_Enabled c then sc
           else (let s = (net_SASL sc)\<lparr>sasl_Enable := True, sasl_User := Username c, sasl_Password := Password c\<rparr>;
                     s = (if Mechanism c = ''SCRAM-SHA-512'' then s\<lparr>sasl_Mechanism := ''SCRAM-SHA-512'', SCRAMClientGenerator := Some SHA512\<rparr>
                          else if Mechanism c = ''SCRAM-SHA-256'' then s\<lparr>sasl_Mechanism := ''SCRAM-SHA-256'', SCRAMClientGenerator := Some SHA256\<rparr>
                          else s)
                 in sc\<lparr>net_SASL := s\<rparr>)))"

text \<open>
  A SCRAM client and its conversation: \<open>scram_NewClient\<close>, \<open>NewConversation\<close>, \<open>conv_Step\<close> and \<open>conv_Done\<close> are those of the SCRAM library.  A step without a
  conversation is a call on \<^verbatim>\<open>nil\<close>.
\<close>

record ('c, 'v) scram_lib =
  scram_NewClient :: "hash_fn \<Rightarrow> string \<Rightarrow> string \<Rightarrow> string \<Rightarrow> 'c res"
  NewConversation :: "'c \<Rightarrow> 'v"
  conv_Step :: "string \<Rightarrow> 'v \<Rightarrow> string res \<times> 'v"
  conv_Done :: "'v \<Rightarrow> bool"

record ('c, 'v) XDGSCRAMClient =
  scram_Client :: "'c option"
  ClientConversation :: "'v option"
  HashGeneratorFcn :: hash_fn

definition scram_Begin :: "('c, 'v) scram_lib \<Rightarrow> string \<Rightarrow> string \<Rightarrow> string \<Rightarrow> ('c, 'v) XDGSCRAMClient \<Rightarrow> gerror option \<times> ('c, 'v) XDGSCRAMClient" where
  "scram_Begin lib userName password authzID x =
     (case scram_NewClient lib (HashGeneratorFcn x) userName password authzID of
        Inl err \<Rightarrow> (Some err, x\<lparr>scram_Client := None\<rparr>)
      | Inr c \<Rightarrow> (None, x\<lparr>scram_Client := Some c, ClientConversation := Some (NewConversation lib c)\<rparr>))"

definition scram_Step :: "('c, 'v) scram_lib \<Rightarrow> string \<Rightarrow> (string, ('c, 'v) XDGSCRAMClient) op" where
  "scram_Step lib challenge x =
     (case ClientConversation x of
        None \<Rightarrow> (Panics ''invalid memory address or nil pointer dereference'', x)
      | Some v \<Rightarrow> (case conv_Step lib challenge v of (r, v') \<Rightarrow> (Returns r, x\<lparr>ClientConversation := Some v'\<rparr>)))"

definition scram_Done :: "('c, 'v) scram_lib \<Rightarrow> ('c, 'v) XDGSCRAMClient \<Rightarrow> bool outcome" where
  "scram_Done lib x =
     (case ClientConversation x of
        None \<Rightarrow> Panics ''invalid memory address or nil pointer dereference''
      | Some v \<Rightarrow> Returns (Inr (conv_Done lib v)))"

section \<open>The client\<close>

record KafkaClient =
  Brokers :: "string list"
  AsyncProducer :: "(string \<times> nat) list"
  Producer :: "(string \<times> nat) list"
  Consumer :: "(string \<times> nat) list"
  Config :: sarama_config
  KafkaCfg :: KafkaConfig
  closed :: "nat list"
  klog :: "log_line list"

text \<open>
  The three attempts to connect: \<open>NewClient i\<close> is the result of attempt \<open>i\<close>.  The function gives the number of
  attempts made and whether one succeeded.
\<close>

fun connect_loop :: "(nat \<Rightarrow> gerror option) \<Rightarrow> nat \<Rightarrow> nat \<Rightarrow> log_line list \<Rightarrow> bool \<times> nat \<times> log_line list" where
  "connect_loop NewClient i 0 l = (False, i, l)"
| "connect_loop NewClient i (Suc n) l =
     (case NewClient i of
        None \<Rightarrow> (True, Suc i, l)
      | Some err \<Rightarrow> connect_loop NewClient (Suc i) n (l @ [Line LWarn ''Failed to connect to Kafka'' [(''error'', err_msg err)]]))"

text \<open>The settings the kit makes on a new \<^verbatim>\<open>sarama\<close> configuration; the metrics registry is that of the theory of metrics.\<close>

definition kit_settings :: "sarama_config \<Rightarrow> sarama_config" where
  "kit_settings sc = sc\<lparr>Version := ''2.1.0'', Consumer_Return_Errors := True, Rebalance_Strategy := ''range'', Offsets_Initial := ''newest'',
     Producer_Return_Successes := True, Producer_Return_Errors := True, RequiredAcks := ''all''\<rparr>"

definition Kafka_New :: "(string \<Rightarrow> string res) \<Rightarrow> (nat \<Rightarrow> gerror option) \<Rightarrow> sarama_config \<Rightarrow> KafkaConfig \<Rightarrow> KafkaClient outcome" where
  "Kafka_New ReadFile NewClient new_config cfg =
     out_bind (ApplyKafkaTLS ReadFile (ApplyKafkaAuth (kit_settings new_config) (Auth cfg)) (TLS cfg)) (\<lambda>sc.
       case connect_loop NewClient 0 3 [] of
         (False, _, _) \<Rightarrow> Returns (Inl (Errorf ''kafka is not connected''))
       | (True, _, l) \<Rightarrow>
           Returns (Inr \<lparr>Brokers = Split (cfg_Brokers cfg) CHR '','', AsyncProducer = [], Producer = [], Consumer = [],
             Config = sc, KafkaCfg = cfg, closed = [], klog = l\<rparr>))"

text \<open>
  The configuration a producer or consumer is made with: the client's own, or the caller's with the client's
  authentication and TLS settings.
\<close>

definition client_config :: "KafkaClient \<Rightarrow> sarama_config option \<Rightarrow> sarama_config" where
  "client_config k config =
     (case config of
        None \<Rightarrow> Config k
      | Some c \<Rightarrow> c\<lparr>net_SASL := net_SASL (Config k), net_TLS := net_TLS (Config k)\<rparr>)"

text \<open>The library: it makes producers and consumer groups; with Kafka tracing the producers are wrapped.\<close>

record sarama_lib =
  NewAsyncProducer :: "string list \<Rightarrow> sarama_config \<Rightarrow> nat res"
  NewSyncProducer :: "string list \<Rightarrow> sarama_config \<Rightarrow> nat res"
  NewConsumerGroup :: "string list \<Rightarrow> string \<Rightarrow> sarama_config \<Rightarrow> nat res"
  WrapAsyncProducer :: "sarama_config \<Rightarrow> nat \<Rightarrow> nat"
  WrapSyncProducer :: "sarama_config \<Rightarrow> nat \<Rightarrow> nat"

definition InitAsyncProducer :: "sarama_lib \<Rightarrow> TracingConfig \<Rightarrow> KafkaClient \<Rightarrow> string \<Rightarrow> sarama_config option \<Rightarrow> nat res \<times> KafkaClient" where
  "InitAsyncProducer lib tc k name config =
     (let config = client_config k config in
      case NewAsyncProducer lib (Brokers k) config of
        Inl err \<Rightarrow> (Inl (Wrapf (''failed to create Kafka producer '' @ name @ '': '') err), k)
      | Inr producer \<Rightarrow>
          (let producer = (if IsEnableKafkaTracing tc then WrapAsyncProducer lib config producer else producer)
           in (Inr producer, k\<lparr>AsyncProducer := AList.update name producer (AsyncProducer k)\<rparr>)))"

definition InitProducer :: "sarama_lib \<Rightarrow> TracingConfig \<Rightarrow> KafkaClient \<Rightarrow> string \<Rightarrow> sarama_config option \<Rightarrow> nat res \<times> KafkaClient" where
  "InitProducer lib tc k name config =
     (let config = client_config k config in
      case NewSyncProducer lib (Brokers k) config of
        Inl err \<Rightarrow> (Inl (Wrapf (''failed to create Kafka producer '' @ name @ '': '') err), k)
      | Inr producer \<Rightarrow>
          (let producer = (if IsEnableKafkaTracing tc then WrapSyncProducer lib config producer else producer)
           in (Inr producer, k\<lparr>Producer := AList.update name producer (Producer k)\<rparr>)))"

definition InitConsumer :: "sarama_lib \<Rightarrow> KafkaClient \<Rightarrow> string \<Rightarrow> string \<Rightarrow> sarama_config option \<Rightarrow> nat res \<times> KafkaClient" where
  "InitConsumer lib k name groupId config =
     (case NewConsumerGroup lib (Brokers k) groupId (client_config k config) of
        Inl err \<Rightarrow> (Inl (Wrapf (''failed to create Kafka consumer '' @ name @ '': '') err), k)
      | Inr cons \<Rightarrow> (Inr cons, k\<lparr>Consumer := AList.update name cons (Consumer k)\<rparr>))"

definition Kafka_GetConfig :: "KafkaClient \<Rightarrow> sarama_config" where
  "Kafka_GetConfig k = Config k"

definition GetAsyncProducer :: "KafkaClient \<Rightarrow> string \<Rightarrow> nat option" where
  "GetAsyncProducer k name = map_of (AsyncProducer k) name"

definition GetProducer :: "KafkaClient \<Rightarrow> string \<Rightarrow> nat option" where
  "GetProducer k name = map_of (Producer k) name"

definition GetConsumer :: "KafkaClient \<Rightarrow> string \<Rightarrow> nat option" where
  "GetConsumer k name = map_of (Consumer k) name"

record ProducerMessage =
  msg_Topic :: string
  msg_Key :: string
  msg_Value :: string
  msg_Headers :: "(string \<times> string) list"

text \<open>\<open>send\<close> is \<^verbatim>\<open>SyncProducer.SendMessage\<close>: the partition and the offset, or an error.\<close>

definition SendMessage :: "(nat \<Rightarrow> ProducerMessage \<Rightarrow> 's \<Rightarrow> (int \<times> int) res \<times> 's) \<Rightarrow> KafkaClient \<Rightarrow> string \<Rightarrow> string \<Rightarrow> string \<Rightarrow> string \<Rightarrow> 's
    \<Rightarrow> (int \<times> int) res \<times> 's" where
  "SendMessage send k producerName topic key val s =
     (case GetProducer k producerName of
        None \<Rightarrow> (Inl (Errorf (''producer '' @ producerName @ '' not found'')), s)
      | Some p \<Rightarrow> send p \<lparr>msg_Topic = topic, msg_Key = key, msg_Value = val, msg_Headers = []\<rparr> s)"

text \<open>
  \<open>inputs\<close> are the messages sent so far on the input channel of each asynchronous producer, \<open>Inject\<close> writes the trace of a context into the headers of a
  message.
\<close>

definition SendMessageAsync :: "(go_ctx \<Rightarrow> ProducerMessage \<Rightarrow> ProducerMessage) \<Rightarrow> TracingConfig \<Rightarrow> KafkaClient \<Rightarrow> go_ctx \<Rightarrow> string \<Rightarrow> ProducerMessage
    \<Rightarrow> (nat \<Rightarrow> ProducerMessage list) \<Rightarrow> gerror option \<times> (nat \<Rightarrow> ProducerMessage list)" where
  "SendMessageAsync Inject tc k ctx producerName msg inputs =
     (case GetAsyncProducer k producerName of
        None \<Rightarrow> (Some (Errorf (''producer '' @ producerName @ '' not found'')), inputs)
      | Some p \<Rightarrow>
          (let msg = (if IsEnableKafkaTracing tc then Inject ctx msg else msg)
           in (None, inputs(p := inputs p @ [msg]))))"

text \<open>The two loops of \<^verbatim>\<open>handleProducerResult\<close>, over the results (topic and partition, or topic and error) until their channel is closed.\<close>

definition handleProducerResult :: "(string \<times> int) list \<Rightarrow> (string \<times> gerror) list \<Rightarrow> log_line list \<times> log_line list" where
  "handleProducerResult successes errors =
     (map (\<lambda>(t, n). Line LInfo ''Kafka message sent'' [(''topic'', t), (''partition'', Itoa n)]) successes,
      map (\<lambda>(t, e). Line LError ''Kafka message failed'' [(''topic'', t), (''error'', err_msg e)]) errors)"

text \<open>
  \<^verbatim>\<open>Close\<close> closes every producer and consumer of the three maps; the order within a map is not fixed by the
  language: it is that of the lists of the client, which can be any.  \<open>close\<close> gives the error of each.
\<close>

fun close_all :: "(nat \<Rightarrow> gerror option) \<Rightarrow> string \<Rightarrow> string \<Rightarrow> (string \<times> nat) list \<Rightarrow> KafkaClient \<Rightarrow> KafkaClient" where
  "close_all close msg field [] k = k"
| "close_all close msg field ((name, p) # ps) k =
     (let k' = k\<lparr>closed := closed k @ [p]\<rparr>;
          k'' = (case close p of
                   None \<Rightarrow> k'
                 | Some err \<Rightarrow> k'\<lparr>klog := klog k' @ [Line LInfo msg [(field, name), (''error'', err_msg err)]]\<rparr>)
      in close_all close msg field ps k'')"

definition Kafka_Close :: "(nat \<Rightarrow> gerror option) \<Rightarrow> KafkaClient \<Rightarrow> KafkaClient" where
  "Kafka_Close close k =
     (let k1 = close_all close ''Kafka sync producer close error'' ''producer'' (Producer k) k;
          k2 = close_all close ''Kafka producer close error'' ''producer'' (AsyncProducer k) k1
      in close_all close ''Kafka consumer close error'' ''consumer'' (Consumer k) k2)"

definition Kafka_component :: "(nat \<Rightarrow> gerror option) \<Rightarrow> KafkaClient component" where
  "Kafka_component close = \<lparr>Name = ''kafka'', Start = (\<lambda>_ k. (None, k)), Stop = (\<lambda>_ k. (None, Kafka_Close close k))\<rparr>"

section \<open>Consuming\<close>

text \<open>
  One round of the loop: the error of the context at the check, the result of \<^verbatim>\<open>Consume\<close> and the error of the
  context after it.  \<^const>\<open>None\<close> stands for a loop that is still running when the rounds are used up.
\<close>

fun consume_rounds :: "(gerror option \<times> gerror option \<times> gerror option) list \<Rightarrow> log_line list \<Rightarrow> (gerror \<times> log_line list) option" where
  "consume_rounds [] l = None"
| "consume_rounds ((before, consumed, after) # rs) l =
     (case before of
        Some err \<Rightarrow> Some (err, l)
      | None \<Rightarrow>
          (case consumed of
             None \<Rightarrow> consume_rounds rs l
           | Some err \<Rightarrow>
               (case after of
                  Some cerr \<Rightarrow> Some (cerr, l)
                | None \<Rightarrow> consume_rounds rs (l @ [Line LWarn ''Kafka consume error'' [(''error'', err_msg err)]]))))"

record ConsumerMessage =
  cm_Topic :: string
  cm_Partition :: int
  cm_Offset :: int
  cm_Value :: string

text \<open>What the \<^verbatim>\<open>select\<close> of \<^verbatim>\<open>ConsumeClaim\<close> takes: a message, the closed channel (a nil message), the end of the session.\<close>

datatype claim_event = Message ConsumerMessage | ClaimClosed | SessionDone

record claim_state =
  marked :: "ConsumerMessage list"
  claim_log :: "log_line list"

definition process_error :: "ConsumerMessage \<Rightarrow> gerror \<Rightarrow> log_line" where
  "process_error m err = Line LError ''Error processing message''
     [(''topic'', cm_Topic m), (''partition'', Itoa (cm_Partition m)), (''offset'', Itoa (cm_Offset m)), (''error'', err_msg err)]"

text \<open>The result is \<^const>\<open>None\<close> while the claim is still being consumed.\<close>

fun ConsumeClaim :: "(ConsumerMessage \<Rightarrow> gerror option) \<Rightarrow> claim_event list \<Rightarrow> claim_state \<Rightarrow> claim_state option \<times> claim_state" where
  "ConsumeClaim handle [] s = (None, s)"
| "ConsumeClaim handle (ClaimClosed # es) s = (Some s, s)"
| "ConsumeClaim handle (SessionDone # es) s = (Some s, s)"
| "ConsumeClaim handle (Message m # es) s =
     (case handle m of
        Some err \<Rightarrow> ConsumeClaim handle es (s\<lparr>claim_log := claim_log s @ [process_error m err]\<rparr>)
      | None \<Rightarrow> ConsumeClaim handle es (s\<lparr>marked := marked s @ [m]\<rparr>))"

text \<open>
  The handler that a group gets: the default one around the caller's function, another one, or one of these wrapped by the
  instrumentation.  The default one calls the function with the context of the session, to which \<open>Extract\<close> adds the trace of the message.
\<close>

datatype group_handler =
    defaultConsumerGroupHandler "go_ctx \<Rightarrow> ConsumerMessage \<Rightarrow> gerror option"
  | OtherHandler nat
  | WrappedHandler group_handler

definition handle_message :: "(go_ctx \<Rightarrow> ConsumerMessage \<Rightarrow> go_ctx) \<Rightarrow> TracingConfig \<Rightarrow> go_ctx \<Rightarrow> (go_ctx \<Rightarrow> ConsumerMessage \<Rightarrow> gerror option)
    \<Rightarrow> ConsumerMessage \<Rightarrow> gerror option" where
  "handle_message Extract tc session_ctx handler m =
     (let ctx = session_ctx;
          ctx = (if IsEnableKafkaTracing tc then Extract ctx m else ctx)
      in handler ctx m)"

text \<open>The default handler does nothing at the start and at the end of a session.\<close>

definition Setup :: "claim_state \<Rightarrow> gerror option \<times> claim_state" where
  "Setup s = (None, s)"

definition Cleanup :: "claim_state \<Rightarrow> gerror option \<times> claim_state" where
  "Cleanup s = (None, s)"

text \<open>The loop of a consumer: \<open>rounds\<close> is what happens when the group consumes the topics with a handler.\<close>

definition consumeLoop :: "(nat \<Rightarrow> string list \<Rightarrow> group_handler \<Rightarrow> (gerror option \<times> gerror option \<times> gerror option) list) \<Rightarrow> TracingConfig
    \<Rightarrow> KafkaClient \<Rightarrow> string \<Rightarrow> string list \<Rightarrow> group_handler \<Rightarrow> (gerror \<times> log_line list) option" where
  "consumeLoop rounds tc k consumerName topics handler =
     (let handler = (if IsEnableKafkaTracing tc then WrappedHandler handler else handler) in
      case GetConsumer k consumerName of
        None \<Rightarrow> Some (Errorf (''consumer '' @ consumerName @ '' not found''), klog k)
      | Some c \<Rightarrow> consume_rounds (rounds c topics handler) (klog k))"

text \<open>\<open>loops\<close> are the goroutines started to run \<^verbatim>\<open>consumeLoop\<close>, with its arguments; what they return is dropped.\<close>

type_synonym loops = "(go_ctx \<times> string \<times> string list \<times> group_handler) list"

definition ConsumeLoop :: "go_ctx \<Rightarrow> string \<Rightarrow> string list \<Rightarrow> group_handler \<Rightarrow> loops \<Rightarrow> gerror option \<times> loops" where
  "ConsumeLoop ctx consumerName topics handler ls = (None, ls @ [(ctx, consumerName, topics, handler)])"

definition ConsumeMessage :: "go_ctx \<Rightarrow> string \<Rightarrow> string list \<Rightarrow> (go_ctx \<Rightarrow> ConsumerMessage \<Rightarrow> gerror option) \<Rightarrow> loops \<Rightarrow> gerror option \<times> loops" where
  "ConsumeMessage ctx consumerName topics handler ls =
     ConsumeLoop ctx consumerName topics (defaultConsumerGroupHandler handler) ls"

text \<open>
  What marking means in a consumer group: the offset to resume from is one past the highest marked message
  (\<^verbatim>\<open>MarkMessage\<close> moves it forward only).
\<close>

definition resume_offset :: "int \<Rightarrow> ConsumerMessage list \<Rightarrow> int" where
  "resume_offset start ms = fold (\<lambda>m p. max p (cm_Offset m + 1)) ms start"

section \<open>The consumer and producer components\<close>

text \<open>
  The consumer component runs \<^verbatim>\<open>consumeLoop\<close> in one goroutine, the asynchronous producer component watches the
  two result channels in two; both use the run-time of the worker pool.
\<close>

record ConsumerComponent =
  consumerName :: string
  topics_of :: "string list"
  c_handler :: group_handler
  c_cancel :: "nat option"
  c_rt :: "unit runtime"
  c_log :: "log_line list"

definition NewConsumerComponent :: "string \<Rightarrow> string list \<Rightarrow> group_handler \<Rightarrow> ConsumerComponent" where
  "NewConsumerComponent name ts handler =
     \<lparr>consumerName = name, topics_of = ts, c_handler = handler, c_cancel = None, c_rt = empty_runtime, c_log = []\<rparr>"

definition NewMessageConsumerComponent :: "string \<Rightarrow> string list \<Rightarrow> (go_ctx \<Rightarrow> ConsumerMessage \<Rightarrow> gerror option) \<Rightarrow> ConsumerComponent" where
  "NewMessageConsumerComponent name ts handler = NewConsumerComponent name ts (defaultConsumerGroupHandler handler)"

definition Consumer_Name :: "ConsumerComponent \<Rightarrow> string" where
  "Consumer_Name c = ''kafka-consumer:'' @ consumerName c"

definition Consumer_Start :: "ConsumerComponent \<Rightarrow> gerror option \<times> ConsumerComponent" where
  "Consumer_Start c =
     (let (n, r) = WithCancel (c_rt c) in (None, c\<lparr>c_cancel := Some n, c_rt := go_spawn n () r\<rparr>))"

text \<open>The goroutine returns with the result of \<^verbatim>\<open>consumeLoop\<close>; an error is logged unless the run context is cancelled.\<close>

definition Consumer_finish :: "gerror option \<Rightarrow> nat \<Rightarrow> ConsumerComponent \<Rightarrow> ConsumerComponent" where
  "Consumer_finish result k c =
     (let (n, _) = running (c_rt c) ! k;
          c' = c\<lparr>c_rt := go_return k (c_rt c)\<rparr>
      in case result of
           None \<Rightarrow> c'
         | Some err \<Rightarrow>
             (if n \<in> cancelled (c_rt c) then c'
              else c'\<lparr>c_log := c_log c @ [Line LError ''kafka consumer stopped'' [(''consumer'', consumerName c), (''error'', err_msg err)]]\<rparr>))"

definition Consumer_begin_stop :: "ConsumerComponent \<Rightarrow> ConsumerComponent" where
  "Consumer_begin_stop c = (case c_cancel c of None \<Rightarrow> c | Some n \<Rightarrow> c\<lparr>c_rt := cancel_ctx n (c_rt c)\<rparr>)"

text \<open>
  The \<^verbatim>\<open>select\<close> of \<^verbatim>\<open>Stop\<close>: the results it may return now (none while it blocks); when both the goroutines are done
  and the context is, either.
\<close>

definition Stop_results :: "nat \<Rightarrow> go_ctx \<Rightarrow> gerror option set" where
  "Stop_results wgc ctx =
     (if wgc = 0 then {None} else {}) \<union> (case ctx_err ctx of None \<Rightarrow> {} | Some e \<Rightarrow> {Some e})"

record AsyncProducerComponent =
  producerName :: string
  p_cancel :: "nat option"
  p_rt :: "bool runtime"

definition NewAsyncProducerComponent :: "string \<Rightarrow> AsyncProducerComponent" where
  "NewAsyncProducerComponent name = \<lparr>producerName = name, p_cancel = None, p_rt = empty_runtime\<rparr>"

definition AsyncProducer_Name :: "AsyncProducerComponent \<Rightarrow> string" where
  "AsyncProducer_Name c = ''kafka-producer:'' @ producerName c"

definition AsyncProducer_Start :: "KafkaClient \<Rightarrow> AsyncProducerComponent \<Rightarrow> gerror option \<times> AsyncProducerComponent" where
  "AsyncProducer_Start k c =
     (case GetAsyncProducer k (producerName c) of
        None \<Rightarrow> (Some (Errorf (''async producer '' @ producerName c @ '' not found'')), c)
      | Some p \<Rightarrow>
          (let (n, r) = WithCancel (p_rt c)
           in (None, c\<lparr>p_cancel := Some n, p_rt := go_spawn n False (go_spawn n True r)\<rparr>)))"

definition AsyncProducer_begin_stop :: "AsyncProducerComponent \<Rightarrow> AsyncProducerComponent" where
  "AsyncProducer_begin_stop c = (case p_cancel c of None \<Rightarrow> c | Some n \<Rightarrow> c\<lparr>p_rt := cancel_ctx n (p_rt c)\<rparr>)"

definition AsyncProducer_Stop_results :: "AsyncProducerComponent \<Rightarrow> go_ctx \<Rightarrow> gerror option set" where
  "AsyncProducer_Stop_results c ctx =
     (if waitgroup (p_rt c) = 0 then {None} else {}) \<union> (case ctx_err ctx of None \<Rightarrow> {} | Some e \<Rightarrow> {Some e})"

definition AsyncProducer_finish :: "nat \<Rightarrow> AsyncProducerComponent \<Rightarrow> AsyncProducerComponent" where
  "AsyncProducer_finish k c = c\<lparr>p_rt := go_return k (p_rt c)\<rparr>"

text \<open>What the \<^verbatim>\<open>select\<close> of a watcher takes: the end of the context, a closed channel, or a result (topic, partition or error).\<close>

datatype watch_event = CtxDone | ChannelClosed | Result string string

fun watch :: "(string \<Rightarrow> string \<Rightarrow> log_line) \<Rightarrow> watch_event list \<Rightarrow> log_line list \<Rightarrow> log_line list option" where
  "watch line [] l = None"
| "watch line (CtxDone # es) l = Some l"
| "watch line (ChannelClosed # es) l = Some l"
| "watch line (Result t x # es) l = watch line es (l @ [line t x])"

definition watchSuccesses :: "AsyncProducerComponent \<Rightarrow> watch_event list \<Rightarrow> log_line list \<Rightarrow> log_line list option" where
  "watchSuccesses c = watch (\<lambda>t x. Line LInfo ''kafka message sent'' [(''producer'', producerName c), (''topic'', t), (''partition'', x)])"

definition watchErrors :: "AsyncProducerComponent \<Rightarrow> watch_event list \<Rightarrow> log_line list \<Rightarrow> log_line list option" where
  "watchErrors c = watch (\<lambda>t x. Line LError ''kafka message failed'' [(''producer'', producerName c), (''topic'', t), (''error'', x)])"

lemma runtime_group:
  assumes "runtime_inv r"
  shows "c < next_ctx r \<Longrightarrow> runtime_inv (cancel_ctx c r)" "waitgroup (cancel_ctx c r) = waitgroup r"
    "k < waitgroup r \<Longrightarrow> runtime_inv (go_return k r)" "waitgroup (go_return k r) = waitgroup r - 1"
  using assms runtime_inv_return [of r k]
  by (auto simp: runtime_inv_cancel cancel_ctx_def go_return_def runtime_inv_def)

lemma Consumer_finish_rt [simp]: "c_rt (Consumer_finish res k c) = go_return k (c_rt c)"
  by (auto simp: Consumer_finish_def Let_def split: prod.splits option.splits)

lemma Consumer_finish_cancel [simp]: "c_cancel (Consumer_finish res k c) = c_cancel c"
  by (auto simp: Consumer_finish_def Let_def split: prod.splits option.splits)

interpretation kc: task_group "\<lambda>c. runtime_inv (c_rt c)"
  "\<lambda>c. case c_cancel c of None \<Rightarrow> running (c_rt c) = [] | Some n \<Rightarrow> owned_by n (c_rt c)"
  Consumer_begin_stop "Consumer_finish res" "\<lambda>c. waitgroup (c_rt c)" "\<lambda>c. all_cancelled (c_rt c)"
  by unfold_locales
    (auto simp: Consumer_begin_stop_def runtime_group runtime_inv_cancel return_all_cancelled all_cancelled_Nil
      cancel_owned return_owned return_Nil split: option.splits)

interpretation kp: task_group "\<lambda>c. runtime_inv (p_rt c)"
  "\<lambda>c. case p_cancel c of None \<Rightarrow> running (p_rt c) = [] | Some n \<Rightarrow> owned_by n (p_rt c)"
  AsyncProducer_begin_stop AsyncProducer_finish "\<lambda>c. waitgroup (p_rt c)" "\<lambda>c. all_cancelled (p_rt c)"
  by unfold_locales
    (auto simp: AsyncProducer_begin_stop_def AsyncProducer_finish_def runtime_group runtime_inv_cancel
      return_all_cancelled all_cancelled_Nil cancel_owned return_owned return_Nil split: option.splits)


section \<open>Properties\<close>

lemma resume_offset_ge: "start \<le> resume_offset start ms"
  by (induction ms arbitrary: start) (auto simp: resume_offset_def intro: order_trans [OF max.cobounded1])

lemma resume_offset_Cons [simp]: "resume_offset start (m # ms) = resume_offset (max start (cm_Offset m + 1)) ms"
  by (simp add: resume_offset_def)

lemma resume_offset_mem: "m \<in> set ms \<Longrightarrow> cm_Offset m < resume_offset start ms"
proof (induction ms arbitrary: start)
  case (Cons x xs)
  then show ?case using resume_offset_ge [of "max start (cm_Offset x + 1)" xs] by auto
qed simp

text \<open>The messages the loop takes before it returns.\<close>

fun taken :: "claim_event list \<Rightarrow> ConsumerMessage list" where
  "taken (Message m # es) = m # taken es"
| "taken _ = []"

lemma ConsumeClaim_state:
  "snd (ConsumeClaim handler es s) =
     s\<lparr>marked := marked s @ filter (\<lambda>m. handler m = None) (taken es),
       claim_log := claim_log s @ map (\<lambda>m. process_error m (the (handler m))) (filter (\<lambda>m. handler m \<noteq> None) (taken es))\<rparr>"
  by (induction handler es s rule: ConsumeClaim.induct) (auto split: option.splits)

lemma ConsumeClaim_returns:
  "fst (ConsumeClaim handler es s) = (if \<exists>e \<in> set es. e \<in> {ClaimClosed, SessionDone} then Some (snd (ConsumeClaim handler es s)) else None)"
  by (induction handler es s rule: ConsumeClaim.induct) (auto split: option.splits)

text \<open>
  C21: \<^verbatim>\<open>ConsumeClaim\<close> of the default handler hands every message it takes to the caller's function in order, with the context of the session or,
  with Kafka tracing, the one extracted from the message; it marks exactly the messages the function accepted and logs exactly the others,
  and returns as soon as the claim is closed or the session ends.
\<close>

theorem ConsumeClaim_spec:
  "ConsumeClaim (handle_message Extract tc sctx handler) es \<lparr>marked = [], claim_log = []\<rparr> =
     (let result = (\<lambda>m. handler (if IsEnableKafkaTracing tc then Extract sctx m else sctx) m);
          s = \<lparr>marked = filter (\<lambda>m. result m = None) (taken es),
               claim_log = map (\<lambda>m. process_error m (the (result m))) (filter (\<lambda>m. result m \<noteq> None) (taken es))\<rparr>
      in (if ClaimClosed \<in> set es \<or> SessionDone \<in> set es then Some s else None, s))"
proof -
  let ?h = "handle_message Extract tc sctx handler"
  have "fst (ConsumeClaim ?h es \<lparr>marked = [], claim_log = []\<rparr>) =
      (if ClaimClosed \<in> set es \<or> SessionDone \<in> set es then Some (snd (ConsumeClaim ?h es \<lparr>marked = [], claim_log = []\<rparr>)) else None)"
    by (subst ConsumeClaim_returns) auto
  moreover have "?h = (\<lambda>m. handler (if IsEnableKafkaTracing tc then Extract sctx m else sctx) m)"
    by (simp add: handle_message_def fun_eq_iff)
  ultimately show ?thesis
    by (simp add: ConsumeClaim_state Let_def prod_eq_iff)
qed

text \<open>
  A failed message is not delivered again once a later message of the claim succeeds: the group resumes
  after the later one.
\<close>

theorem failed_message_skipped:
  assumes "taken es = xs @ m # ys" and "handler m \<noteq> None"
    and "m' \<in> set ys" and "handler m' = None" and "cm_Offset m < cm_Offset m'"
  shows "m \<notin> set (marked (snd (ConsumeClaim handler es \<lparr>marked = [], claim_log = []\<rparr>))) \<and>
    cm_Offset m < resume_offset start (marked (snd (ConsumeClaim handler es \<lparr>marked = [], claim_log = []\<rparr>)))"
proof -
  have "m' \<in> set (marked (snd (ConsumeClaim handler es \<lparr>marked = [], claim_log = []\<rparr>)))"
    using assms by (simp add: ConsumeClaim_state)
  then have "cm_Offset m' < resume_offset start (marked (snd (ConsumeClaim handler es \<lparr>marked = [], claim_log = []\<rparr>)))"
    by (rule resume_offset_mem)
  then show ?thesis using assms by (simp add: ConsumeClaim_state)
qed

text \<open>
  The loop of a consumer ends only with the error of its context: as long as the context is alive, errors of the
  group are logged and it goes on, and a round that finds the context done makes it return.
\<close>

theorem consume_rounds_spec:
  "(consume_rounds rounds l = None \<longleftrightarrow> (\<forall>(b, c, a) \<in> set rounds. b = None \<and> (c = None \<or> a = None))) \<and>
   (case consume_rounds rounds l of None \<Rightarrow> True | Some (err, l') \<Rightarrow> \<exists>(b, c, a) \<in> set rounds. b = Some err \<or> a = Some err)"
  by (induction rounds l rule: consume_rounds.induct) (auto split: option.splits)

lemma connect_loop_ok:
  "fst (connect_loop NewClient i n l) \<longleftrightarrow> (\<exists>j. i \<le> j \<and> j < i + n \<and> NewClient j = None)"
proof (induction NewClient i n l rule: connect_loop.induct)
  case (2 NewClient i n l)
  show ?case
  proof (cases "NewClient i")
    case (Some err)
    have "i \<le> j \<and> NewClient j = None \<longleftrightarrow> Suc i \<le> j \<and> NewClient j = None" for j
      using Some by (cases "j = i") auto
    then have "(\<exists>j\<ge>i. j < i + Suc n \<and> NewClient j = None) \<longleftrightarrow> (\<exists>j\<ge>Suc i. j < Suc i + n \<and> NewClient j = None)"
      by (metis add_Suc add_Suc_right)
    then show ?thesis using 2 Some by simp
  qed auto
qed simp

text \<open>
  \<^verbatim>\<open>New\<close> succeeds exactly when one of three attempts to connect does, and then with the brokers split at the commas
  and the authentication and TLS settings applied; an enabled TLS configuration with an unreadable CA file ends the process.
\<close>

theorem Kafka_New_connects:
  assumes "ApplyKafkaTLS ReadFile (ApplyKafkaAuth (kit_settings sc) (Auth cfg)) (TLS cfg) = Returns (Inr sc')"
  shows "(\<exists>k. Kafka_New ReadFile NewClient sc cfg = Returns (Inr k)) \<longleftrightarrow> (\<exists>i < 3. NewClient i = None)"
  using assms connect_loop_ok [of NewClient 0 3 "[]"]
  by (cases "connect_loop NewClient 0 3 []") (auto simp: Kafka_New_def split: bool.splits)

lemma ApplyKafkaTLS_sasl: "ApplyKafkaTLS ReadFile sc t = Returns (Inr sc') \<Longrightarrow> net_SASL sc' = net_SASL sc"
  by (auto simp: ApplyKafkaTLS_def out_bind_eq_ok split: option.splits if_splits)

text \<open>
  The credentials of the configuration reach every producer and consumer: with enabled SCRAM authentication the library gets them for each
  one, also when the caller brings a configuration of its own.
\<close>

theorem kafka_auth_reaches:
  assumes "Kafka_New ReadFile NewClient sc cfg = Returns (Inr k)" and "Auth cfg = Some a" and "auth_Enabled a"
    and "Mechanism a = ''SCRAM-SHA-512'' \<or> Mechanism a = ''SCRAM-SHA-256''"
  shows "net_SASL (client_config k config) =
    \<lparr>sasl_Enable = True, sasl_User = Username a, sasl_Password = Password a, sasl_Mechanism = Mechanism a,
     SCRAMClientGenerator = Some (if Mechanism a = ''SCRAM-SHA-512'' then SHA512 else SHA256)\<rparr>"
proof -
  from assms(1) obtain sc' where sc': "ApplyKafkaTLS ReadFile (ApplyKafkaAuth (kit_settings sc) (Auth cfg)) (TLS cfg) = Returns (Inr sc')" "Config k = sc'"
    by (cases "connect_loop NewClient 0 3 []") (auto simp: Kafka_New_def out_bind_eq_ok split: bool.splits)
  then show ?thesis using assms(2-4) ApplyKafkaTLS_sasl [OF sc'(1)]
    by (auto simp: client_config_def ApplyKafkaAuth_def kit_settings_def Let_def split: option.splits)
qed

text \<open>A conversation that has begun answers every challenge without a panic; before that a step panics.\<close>

theorem scram_steps:
  assumes "scram_Begin lib u p z x = (None, x1)"
  shows "(\<exists>r x2. scram_Step lib c1 x1 = (Returns r, x2) \<and> fst (scram_Step lib c2 x2) \<in> range Returns) \<and>
    (ClientConversation x = None \<longrightarrow> fst (scram_Step lib c1 x) \<notin> range Returns)"
  using assms by (auto simp: scram_Begin_def scram_Step_def split: sum.splits prod.splits)

text \<open>
  As long as certificates are verified, the CA file and the server name of the TLS configuration have no effect:
  the roots are those of the system and no name is overridden.  The CA file is only read when verification is off.
\<close>

theorem tls_settings_ignored:
  assumes "tls_Enabled c" and "\<not> InsecureSkipVerify c"
  shows "createTLSConfiguration ReadFile (Some c) = Returns (Inr (Some \<lparr>RootCAs = None, SkipVerify = False, ServerNameOverride = []\<rparr>))"
  using assms by (simp add: createTLSConfiguration_def Let_def)

text \<open>The handles that the client knows, and that \<^verbatim>\<open>Close\<close> closes.\<close>

definition handles :: "KafkaClient \<Rightarrow> nat set" where
  "handles k = snd ` set (Producer k) \<union> snd ` set (AsyncProducer k) \<union> snd ` set (Consumer k)"

lemma close_all_closed: "closed (close_all cl msg f ps k) = closed k @ map snd ps"
  by (induction cl msg f ps k rule: close_all.induct) (auto simp: Let_def split: option.splits)

text \<open>
  \<^verbatim>\<open>Close\<close> closes every producer and consumer registered at the time, whatever the single closes return.
  A producer that was replaced under its name by a second \<^verbatim>\<open>InitProducer\<close> is not among them any more and stays open.
\<close>

theorem Kafka_Close_closes:
  "set (closed (Kafka_Close cl k)) = set (closed k) \<union> handles k"
  by (auto simp: Kafka_Close_def Let_def close_all_closed handles_def)

theorem InitProducer_leaks:
  assumes "distinct (map fst (Producer k))" and "GetProducer k name = Some p" and "p \<notin> set (closed k)"
    and "p \<notin> snd ` set (AsyncProducer k) \<union> snd ` set (Consumer k)" and "\<forall>n \<noteq> name. GetProducer k n \<noteq> Some p"
    and "InitProducer lib tc k name config = (Inr q, k')" and "q \<noteq> p"
  shows "GetProducer k' name = Some q \<and> p \<notin> set (closed (Kafka_Close cl k'))"
proof -
  have k': "k' = k\<lparr>Producer := AList.update name q (Producer k)\<rparr>"
    using assms(6) by (auto simp: InitProducer_def Let_def split: sum.splits)
  have d: "distinct (map fst (AList.update name q (Producer k)))" using assms(1) by (rule distinct_update)
  have "p \<notin> snd ` set (AList.update name q (Producer k))"
  proof
    assume "p \<in> snd ` set (AList.update name q (Producer k))"
    then obtain n where "(n, p) \<in> set (AList.update name q (Producer k))" by force
    then have "map_of (AList.update name q (Producer k)) n = Some p" using d by simp
    then show False using assms(5,7) by (auto simp: update_conv' GetProducer_def split: if_splits)
  qed
  then have "p \<notin> set (closed k') \<union> handles k'" using k' assms(3,4) by (auto simp: handles_def)
  then show ?thesis using k' by (simp add: GetProducer_def update_conv' Kafka_Close_def Let_def close_all_closed handles_def image_Un)
qed


text \<open>
  \<^verbatim>\<open>Stop\<close> of the two Kafka components, after a start of an idle one, cancels the run context of every goroutine; it can
  return \<^verbatim>\<open>nil\<close> exactly when all of them (one of a consumer, two of an asynchronous producer) have returned, and
  otherwise only the error of its own context.
\<close>

theorem Kafka_components_stop:
  assumes "running (c_rt c) = []" and "runtime_inv (c_rt c)"
    and "schedule_ok (Consumer_finish res) (\<lambda>c. waitgroup (c_rt c)) ks (Consumer_begin_stop (snd (Consumer_Start c)))"
    and "running (p_rt p) = []" and "runtime_inv (p_rt p)" and "AsyncProducer_Start k p = (None, p')"
    and "schedule_ok AsyncProducer_finish (\<lambda>c. waitgroup (p_rt c)) js (AsyncProducer_begin_stop p')"
    and "c' = fold (Consumer_finish res) ks (Consumer_begin_stop (snd (Consumer_Start c)))"
    and "p'' = fold AsyncProducer_finish js (AsyncProducer_begin_stop p')"
  shows "all_cancelled (c_rt c') \<and> (None \<in> Stop_results (waitgroup (c_rt c')) ctx \<longleftrightarrow> length ks = 1) \<and>
    all_cancelled (p_rt p'') \<and> (None \<in> AsyncProducer_Stop_results p'' ctx \<longleftrightarrow> length js = 2)"
proof -
  define s where "s = snd (Consumer_Start c)"
  have s: "runtime_inv (c_rt s)" "c_cancel s = Some (next_ctx (c_rt c))" "owned_by (next_ctx (c_rt c)) (c_rt s)" "waitgroup (c_rt s) = 1"
    using assms(1,2) by (auto simp: s_def Consumer_Start_def WithCancel_def go_spawn_def runtime_inv_def owned_by_def)
  have c: "all_cancelled (c_rt c') \<and> (None \<in> Stop_results (waitgroup (c_rt c')) ctx \<longleftrightarrow> length ks = 1)"
    using kc.stop_drains [of s res ks] s assms(3,8)
    by (auto simp: Stop_results_def Let_def split: option.splits simp flip: s_def)
  have p: "runtime_inv (p_rt p')" "p_cancel p' = Some (next_ctx (p_rt p))" "owned_by (next_ctx (p_rt p)) (p_rt p')" "waitgroup (p_rt p') = 2"
    using assms(4,5,6)
    by (auto simp: AsyncProducer_Start_def WithCancel_def go_spawn_def runtime_inv_def owned_by_def split: option.splits)
  have "all_cancelled (p_rt p'') \<and> (None \<in> AsyncProducer_Stop_results p'' ctx \<longleftrightarrow> length js = 2)"
    using kp.stop_drains [of p' js] p assms(7,9) by (auto simp: AsyncProducer_Stop_results_def Let_def split: option.splits)
  then show ?thesis using c by blast
qed

definition example_config :: sarama_config where
  "example_config = \<lparr>net_SASL = \<lparr>sasl_Enable = False, sasl_User = [], sasl_Password = [], sasl_Mechanism = [], SCRAMClientGenerator = None\<rparr>, net_TLS = (False, None),
     Version = [], Consumer_Return_Errors = False, Rebalance_Strategy = [], Offsets_Initial = [], Producer_Return_Successes = False,
     Producer_Return_Errors = True, RequiredAcks = ''local''\<rparr>"

definition example_kafka :: KafkaClient where
  "example_kafka = \<lparr>Brokers = [''b:9092''], AsyncProducer = [(''p'', 0)], Producer = [], Consumer = [(''c'', 1)], Config = example_config,
     KafkaCfg = \<lparr>cfg_Brokers = ''b:9092'', GroupID = [], Auth = None, TLS = None, ClientID = []\<rparr>, closed = [], klog = []\<rparr>"

theorem Kafka_components_stop_witness:
  "None \<in> Stop_results (waitgroup (c_rt (Consumer_finish None 0 (Consumer_begin_stop (snd (Consumer_Start (NewConsumerComponent ''c'' [''t''] (OtherHandler 0))))))))
     background"
proof -
  obtain p' where p: "AsyncProducer_Start example_kafka (NewAsyncProducerComponent ''p'') = (None, p')"
    by (simp add: AsyncProducer_Start_def GetAsyncProducer_def example_kafka_def NewAsyncProducerComponent_def WithCancel_def)
  have c: "running (c_rt (NewConsumerComponent ''c'' [''t''] (OtherHandler 0))) = []" "runtime_inv (c_rt (NewConsumerComponent ''c'' [''t''] (OtherHandler 0)))"
    "running (p_rt (NewAsyncProducerComponent ''p'')) = []" "runtime_inv (p_rt (NewAsyncProducerComponent ''p''))"
    by (simp_all add: NewConsumerComponent_def NewAsyncProducerComponent_def empty_runtime_def runtime_inv_def)
  have s: "schedule_ok (Consumer_finish None) (\<lambda>c. waitgroup (c_rt c)) [0] (Consumer_begin_stop (snd (Consumer_Start (NewConsumerComponent ''c'' [''t''] (OtherHandler 0)))))"
    "schedule_ok AsyncProducer_finish (\<lambda>c. waitgroup (p_rt c)) [] (AsyncProducer_begin_stop p')"
    by (simp_all add: Consumer_begin_stop_def Consumer_Start_def NewConsumerComponent_def WithCancel_def go_spawn_def cancel_ctx_def empty_runtime_def)
  show ?thesis using Kafka_components_stop [OF c(1,2) s(1) c(3,4) p s(2) refl refl, of background] by simp
qed

theorem consume_rounds_spec_witness:
  "consume_rounds [(None, Some (Errorf ''rebalance''), None), (Some Canceled, None, None)] [] \<noteq> None"
  using consume_rounds_spec [of "[(None, Some (Errorf ''rebalance''), None), (Some Canceled, None, None)]" "[]"] by auto

theorem Kafka_New_connects_witness:
  "\<exists>k. Kafka_New (\<lambda>_. Inl Canceled) (\<lambda>i. if i = 2 then None else Some Canceled) example_config (KafkaCfg example_kafka) = Returns (Inr k)"
  by (subst Kafka_New_connects [where sc' = "kit_settings example_config"])
    (auto simp: ApplyKafkaTLS_def ApplyKafkaAuth_def example_kafka_def intro!: exI [of _ 2])

theorem failed_message_skipped_witness:
  "let m = (\<lambda>n. \<lparr>cm_Topic = ''t'', cm_Partition = 0, cm_Offset = n, cm_Value = []\<rparr>);
       h = (\<lambda>x. if cm_Offset x = 7 then Some (Errorf ''bad'') else None)
   in 7 < resume_offset 0 (marked (snd (ConsumeClaim h [Message (m 7), Message (m 8)] \<lparr>marked = [], claim_log = []\<rparr>)))"
proof -
  define m where "m n = \<lparr>cm_Topic = ''t'', cm_Partition = 0, cm_Offset = n, cm_Value = []\<rparr>" for n
  define h where "h x = (if cm_Offset x = 7 then Some (Errorf ''bad'') else None)" for x :: ConsumerMessage
  have "7 < resume_offset 0 (marked (snd (ConsumeClaim h [Message (m 7), Message (m 8)] \<lparr>marked = [], claim_log = []\<rparr>)))"
    using failed_message_skipped [of "[Message (m 7), Message (m 8)]" "[]" "m 7" "[m 8]" h "m 8" 0] by (simp add: m_def h_def)
  then show ?thesis by (simp add: Let_def m_def [abs_def] h_def [abs_def])
qed

end
