(* ===== verification/Pool_Shutdown.thy ===== *)
theory Pool_Shutdown
  imports Lifecycle Kafka
begin

text \<open>
  The shutdown phase of a lifecycle whose components own background tasks: worker pools (\<^verbatim>\<open>worker\<close>), Kafka consumers or asynchronous producers
  (\<^verbatim>\<open>kafka\<close>).  Their \<^verbatim>\<open>Stop\<close> cancels the context of the tasks and then blocks; tasks return at any time.  The pool waits for its tasks without
  regard to the context of the shutdown, the Kafka components give up when that is done.
\<close>

section \<open>The steps\<close>

text \<open>
  A stopping goroutine has yet to log, has logged, is blocked in \<^verbatim>\<open>Stop\<close>, has an error of it to log, or has counted the wait group down.  \<open>to_go\<close>
  is \<^verbatim>\<open>i + 1\<close> of the loop, \<open>expired\<close> says whether the context of the shutdown is done.
\<close>

datatype stopping = Launched | Announced | Blocked | GaveUp gerror | Stopped

record 's pools =
  to_go :: nat
  pending_stops :: nat
  stoppers :: "nat \<rightharpoonup> stopping"
  pools :: "'s list"
  expired :: bool
  plog :: "log_line list"
  over :: bool

definition pools_init :: "'s list \<Rightarrow> log_line list \<Rightarrow> 's pools" where
  "pools_init ps l = \<lparr>to_go = length ps, pending_stops = 0, stoppers = Map.empty, pools = ps, expired = False,
     plog = l @ [Line LInfo ''shutdown signal received'' []], over = False\<rparr>"

text \<open>
  \<open>aware\<close>: whether \<^verbatim>\<open>Stop\<close> gives up at the end of its context; \<open>nm\<close>: the name of a component; \<open>begin_stop\<close>, \<open>finish\<close>: the first half of \<^verbatim>\<open>Stop\<close>, and the
  return of a task; \<open>pending\<close>: the number of tasks.
\<close>

inductive pool_step :: "bool \<Rightarrow> ('s \<Rightarrow> string) \<Rightarrow> ('s \<Rightarrow> 's) \<Rightarrow> (nat \<Rightarrow> 's \<Rightarrow> 's) \<Rightarrow> ('s \<Rightarrow> nat) \<Rightarrow> 's pools \<Rightarrow> 's pools \<Rightarrow> bool"
  for aware :: bool and nm :: "'s \<Rightarrow> string" and begin_stop :: "'s \<Rightarrow> 's" and finish :: "nat \<Rightarrow> 's \<Rightarrow> 's" and pending :: "'s \<Rightarrow> nat" where
  p_spawn: "to_go s = Suc i \<Longrightarrow> pool_step aware nm begin_stop finish pending s
    (s\<lparr>to_go := i, pending_stops := pending_stops s + 1, stoppers := (stoppers s)(i \<mapsto> Launched)\<rparr>)"
| p_announce: "stoppers s i = Some Launched \<Longrightarrow> pool_step aware nm begin_stop finish pending s
    (s\<lparr>stoppers := (stoppers s)(i \<mapsto> Announced), plog := plog s @ [Line LInfo ''stopping component'' [(''component'', nm (pools s ! i))]]\<rparr>)"
| p_begin: "stoppers s i = Some Announced \<Longrightarrow> pool_step aware nm begin_stop finish pending s
    (s\<lparr>stoppers := (stoppers s)(i \<mapsto> Blocked), pools := (pools s)[i := begin_stop (pools s ! i)]\<rparr>)"
| p_task: "i < length (pools s) \<Longrightarrow> k < pending (pools s ! i) \<Longrightarrow> pool_step aware nm begin_stop finish pending s
    (s\<lparr>pools := (pools s)[i := finish k (pools s ! i)]\<rparr>)"
| p_return: "stoppers s i = Some Blocked \<Longrightarrow> pending (pools s ! i) = 0 \<Longrightarrow> pool_step aware nm begin_stop finish pending s
    (s\<lparr>stoppers := (stoppers s)(i \<mapsto> Stopped), pending_stops := pending_stops s - 1\<rparr>)"
| p_give_up: "stoppers s i = Some Blocked \<Longrightarrow> aware \<Longrightarrow> expired s \<Longrightarrow> pool_step aware nm begin_stop finish pending s
    (s\<lparr>stoppers := (stoppers s)(i \<mapsto> GaveUp DeadlineExceeded)\<rparr>)"
| p_report: "stoppers s i = Some (GaveUp e) \<Longrightarrow> pool_step aware nm begin_stop finish pending s
    (s\<lparr>stoppers := (stoppers s)(i \<mapsto> Stopped), pending_stops := pending_stops s - 1,
      plog := plog s @ [Line LError ''failed to stop component'' [(''component'', nm (pools s ! i)), (''error'', err_msg e)]]\<rparr>)"
| p_expire: "\<not> expired s \<Longrightarrow> pool_step aware nm begin_stop finish pending s (s\<lparr>expired := True\<rparr>)"
| p_wait: "to_go s = 0 \<Longrightarrow> pending_stops s = 0 \<Longrightarrow> \<not> over s \<Longrightarrow> pool_step aware nm begin_stop finish pending s
    (s\<lparr>plog := plog s @ [Line LInfo ''graceful shutdown completed'' []], over := True\<rparr>)"

inductive_cases pool_stepE: "pool_step aware nm begin_stop finish pending s t"

section \<open>Invariant and measure\<close>

fun weight :: "stopping option \<Rightarrow> nat" where
  "weight None = 5"
| "weight (Some Launched) = 4"
| "weight (Some Announced) = 3"
| "weight (Some Blocked) = 2"
| "weight (Some (GaveUp _)) = 1"
| "weight (Some Stopped) = 0"

fun live :: "stopping option \<Rightarrow> nat" where
  "live None = 0"
| "live (Some Stopped) = 0"
| "live (Some _) = 1"

fun begun :: "stopping option \<Rightarrow> bool" where
  "begun (Some Blocked) = True"
| "begun (Some (GaveUp _)) = True"
| "begun (Some Stopped) = True"
| "begun _ = False"

lemma sum_fun_upd:
  fixes f :: "'a \<Rightarrow> nat" and n :: nat
  assumes "i < n"
  shows "(\<Sum>j<n. f ((g(i := y)) j)) + f (g i) = (\<Sum>j<n. f (g j)) + f y"
proof -
  have i: "i \<in> {..<n}" using assms by simp
  have "(\<Sum>j \<in> {..<n} - {i}. f ((g(i := y)) j)) = (\<Sum>j \<in> {..<n} - {i}. f (g j))" by (rule sum.cong) auto
  then show ?thesis using sum.remove [OF finite_lessThan i, of "\<lambda>j. f ((g(i := y)) j)"] sum.remove [OF finite_lessThan i, of "\<lambda>j. f (g j)"] by simp
qed

lemma sum_list_upd:
  fixes f :: "'a \<Rightarrow> nat"
  assumes "i < length xs"
  shows "(\<Sum>j<length xs. f (xs[i := y] ! j)) + f (xs ! i) = (\<Sum>j<length xs. f (xs ! j)) + f y"
proof -
  have "(\<Sum>j<length xs. f (xs[i := y] ! j)) = (\<Sum>j<length xs. f ((((!) xs)(i := y)) j))"
    by (rule sum.cong) (auto simp: nth_list_update)
  then show ?thesis using sum_fun_upd [OF assms, of f "(!) xs" y] by simp
qed

definition pools_inv :: "bool \<Rightarrow> ('s \<Rightarrow> bool) \<Rightarrow> ('s \<Rightarrow> bool) \<Rightarrow> ('s \<Rightarrow> bool) \<Rightarrow> ('s \<Rightarrow> nat) \<Rightarrow> nat \<Rightarrow> 's pools \<Rightarrow> bool" where
  "pools_inv aware valid owns_all told_to_stop pending n s \<longleftrightarrow>
     length (pools s) = n \<and> to_go s \<le> n \<and> (\<forall>j. stoppers s j = None \<longleftrightarrow> \<not> (to_go s \<le> j \<and> j < n)) \<and>
     pending_stops s = (\<Sum>j<n. live (stoppers s j)) \<and>
     (\<forall>j<n. valid (pools s ! j) \<and> (if begun (stoppers s j) then told_to_stop (pools s ! j) else owns_all (pools s ! j))) \<and>
     (\<not> aware \<longrightarrow> (\<forall>j<n. (stoppers s j = Some Stopped \<longrightarrow> pending (pools s ! j) = 0) \<and> (\<forall>e. stoppers s j \<noteq> Some (GaveUp e)))) \<and>
     (over s \<longrightarrow> to_go s = 0 \<and> pending_stops s = 0)"

definition pools_work :: "('s \<Rightarrow> nat) \<Rightarrow> 's pools \<Rightarrow> nat" where
  "pools_work pending s = (\<Sum>j<length (pools s). weight (stoppers s j)) + (\<Sum>j<length (pools s). pending (pools s ! j))
     + (if expired s then 0 else 1) + (if over s then 0 else 1)"

section \<open>Any group of tasks\<close>

context task_group
begin

lemma pools_inv_init:
  "list_all (\<lambda>p. valid p \<and> owns_all p) ps \<Longrightarrow>
   pools_inv aware valid owns_all told_to_stop pending (length ps) (pools_init ps l)"
  by (auto simp: pools_inv_def pools_init_def list_all_length)

lemma pools_inv_upd:
  assumes inv: "pools_inv aware valid owns_all told_to_stop pending n s" and i: "i < n" and over: "\<not> over s"
    and p: "valid p" "if begun (Some x) then told_to_stop p else owns_all p"
    and x: "\<not> aware \<longrightarrow> (x = Stopped \<longrightarrow> pending p = 0) \<and> (\<forall>e. x \<noteq> GaveUp e)"
    and dm: "to_go t \<le> n" "\<forall>j. ((stoppers s)(i \<mapsto> x)) j = None \<longleftrightarrow> \<not> (to_go t \<le> j \<and> j < n)"
    and c: "pending_stops t + live (stoppers s i) = pending_stops s + live (Some x)"
    and t: "stoppers t = (stoppers s)(i \<mapsto> x)" "pools t = (pools s)[i := p]" "over t = over s"
  shows "pools_inv aware valid owns_all told_to_stop pending n t"
proof -
  have "pending_stops t = (\<Sum>j<n. live (((stoppers s)(i \<mapsto> x)) j))"
    using sum_fun_upd [OF i, of live "stoppers s" "Some x"] c inv unfolding pools_inv_def by linarith
  moreover have "length (pools s) = n" using inv unfolding pools_inv_def by blast
  ultimately show ?thesis
    unfolding pools_inv_def t using inv i over p x dm unfolding pools_inv_def by (auto simp: nth_list_update)
qed

lemma pools_inv_step:
  assumes inv: "pools_inv aware valid owns_all told_to_stop pending n s" and step: "pool_step aware nm begin_stop finish pending s t"
  shows "pools_inv aware valid owns_all told_to_stop pending n t"
proof -
  have len: "length (pools s) = n" using inv unfolding pools_inv_def by blast
  have lt: "i < n" if "stoppers s i = Some x" for i x
    using inv that unfolding pools_inv_def by (metis option.distinct(1))
  have dm: "\<forall>j. ((stoppers s)(i \<mapsto> x)) j = None \<longleftrightarrow> \<not> (to_go s \<le> j \<and> j < n)" "to_go s \<le> n" if "stoppers s i \<noteq> None" for i x
    using inv that unfolding pools_inv_def by auto
  have ps: "valid (pools s ! i)" "if begun (stoppers s i) then told_to_stop (pools s ! i) else owns_all (pools s ! i)" if "i < n" for i
    using inv that unfolding pools_inv_def by auto
  have one: "live (stoppers s i) \<le> pending_stops s" if "i < n" for i
    using inv that member_le_sum [of i "{..<n}" "\<lambda>j. live (stoppers s j)"] unfolding pools_inv_def by simp
  have over: "\<not> over s" if "live (stoppers s i) = 1" "i < n" for i
    using one [OF that(2)] that inv unfolding pools_inv_def by auto
  have sm: "pools s = (pools s)[i := pools s ! i]" for i by simp
  show ?thesis using step
  proof cases
    case (p_spawn i)
    then have i: "i < n" "stoppers s i = None" "\<not> over s" using inv unfolding pools_inv_def by auto
    have "\<forall>j. ((stoppers s)(i \<mapsto> Launched)) j = None \<longleftrightarrow> \<not> (i \<le> j \<and> j < n)"
      using inv p_spawn(2) unfolding pools_inv_def by auto
    then show ?thesis
      by (intro pools_inv_upd [OF inv i(1,3), of "pools s ! i" Launched]) (use p_spawn i ps [OF i(1)] in auto)
  next
    case (p_announce i)
    note i = lt [OF p_announce(2)]
    show ?thesis
      by (rule pools_inv_upd [OF inv i over [OF _ i], of "pools s ! i" Announced]) (use p_announce ps [OF i] dm [of i] in auto)
  next
    case (p_begin i)
    note i = lt [OF p_begin(2)]
    show ?thesis
      by (rule pools_inv_upd [OF inv i over [OF _ i], of "begin_stop (pools s ! i)" Blocked])
        (use p_begin ps [OF i] dm [of i] begin_valid begin_tells in auto)
  next
    case (p_task i k)
    then show ?thesis using inv finish_valid finish_owns finish_tells unfolding pools_inv_def by (auto simp: nth_list_update)
  next
    case (p_return i)
    note i = lt [OF p_return(2)]
    show ?thesis
      by (rule pools_inv_upd [OF inv i over [OF _ i], of "pools s ! i" Stopped])
        (use p_return ps [OF i] dm [of i] one [OF i] in auto)
  next
    case (p_give_up i)
    note i = lt [OF p_give_up(2)]
    show ?thesis
      by (rule pools_inv_upd [OF inv i over [OF _ i], of "pools s ! i" "GaveUp DeadlineExceeded"])
        (use p_give_up ps [OF i] dm [of i] in auto)
  next
    case (p_report i e)
    note i = lt [OF p_report(2)]
    have "aware" using inv i p_report(2) unfolding pools_inv_def by blast
    then show ?thesis
      by (intro pools_inv_upd [OF inv i over [OF _ i], of "pools s ! i" Stopped])
        (use p_report ps [OF i] dm [of i] one [OF i] in auto)
  qed (use inv in \<open>auto simp: pools_inv_def\<close>)
qed

lemma pools_work_step:
  assumes inv: "pools_inv aware valid owns_all told_to_stop pending n s" and step: "pool_step aware nm begin_stop finish pending s t"
  shows "pools_work pending t < pools_work pending s"
proof -
  have len: "length (pools s) = n" using inv unfolding pools_inv_def by blast
  have lt: "i < length (pools s)" if "stoppers s i = Some x" for i x
    using inv that len unfolding pools_inv_def by (metis option.distinct(1))
  have w: "(\<Sum>j<length (pools s). weight (((stoppers s)(i \<mapsto> x)) j)) + weight (stoppers s i)
      = (\<Sum>j<length (pools s). weight (stoppers s j)) + weight (Some x)" if "i < length (pools s)" for i x
    by (rule sum_fun_upd [OF that])
  note pd = sum_list_upd [of _ "pools s" pending]
  show ?thesis using step
  proof cases
    case (p_spawn i)
    then have i: "i < length (pools s)" "stoppers s i = None" using inv len unfolding pools_inv_def by auto
    then show ?thesis using p_spawn w [OF i(1), of Launched] by (simp add: pools_work_def)
  next
    case (p_announce i)
    then show ?thesis using w [OF lt [OF p_announce(2)], of Announced] by (simp add: pools_work_def)
  next
    case (p_begin i)
    have i: "i < length (pools s)" "valid (pools s ! i)" using lt [OF p_begin(2)] inv len unfolding pools_inv_def by auto
    then show ?thesis using p_begin w [OF i(1), of Blocked] pd [of i "begin_stop (pools s ! i)"] by (simp add: pools_work_def begin_pending)
  next
    case (p_task i k)
    then have "valid (pools s ! i)" using inv len unfolding pools_inv_def by auto
    then show ?thesis using p_task pd [of i "finish k (pools s ! i)"] by (simp add: pools_work_def finish_pending)
  next
    case (p_return i)
    then show ?thesis using w [OF lt [OF p_return(2)], of Stopped] by (simp add: pools_work_def)
  next
    case (p_give_up i)
    then show ?thesis using w [OF lt [OF p_give_up(2)], of "GaveUp DeadlineExceeded"] by (simp add: pools_work_def)
  next
    case (p_report i e)
    then show ?thesis using w [OF lt [OF p_report(2)], of Stopped] by (simp add: pools_work_def)
  qed (simp_all add: pools_work_def)
qed

lemma pools_run:
  assumes "(pool_step aware nm begin_stop finish pending ^^ m) s t" "pools_inv aware valid owns_all told_to_stop pending n s"
  shows "pools_inv aware valid owns_all told_to_stop pending n t \<and> m + pools_work pending t \<le> pools_work pending s"
  using assms
proof (induction m arbitrary: t)
  case (Suc m)
  then obtain u where "(pool_step aware nm begin_stop finish pending ^^ m) s u" "pool_step aware nm begin_stop finish pending u t" by auto
  then show ?case using Suc.IH [of u] Suc.prems(2) pools_inv_step [of aware n u nm t] pools_work_step [of aware n u nm t] by fastforce
qed simp

lemma pools_run_init:
  assumes "list_all (\<lambda>p. valid p \<and> owns_all p) ps" "(pool_step aware nm begin_stop finish pending ^^ m) (pools_init ps l) t"
  shows "pools_inv aware valid owns_all told_to_stop pending (length ps) t"
    and "m \<le> 5 * length ps + (\<Sum>j<length ps. pending (ps ! j)) + 2"
  using pools_run [OF assms(2) pools_inv_init [OF assms(1)]] by (auto simp: pools_init_def pools_work_def)

lemma pools_quiet:
  "pool_step aware nm begin_stop finish pending s t \<Longrightarrow> map pending (pools t) = map pending (pools s) \<Longrightarrow> expired t = expired s \<Longrightarrow>
   (\<exists>t. pool_step aware nm begin_stop finish pending s t \<and> map pending (pools t) = map pending (pools s) \<and> expired t = expired s) \<or> P"
  by blast

text \<open>The shutdown goes on until it returns: only a goroutine that is blocked in \<^verbatim>\<open>Stop\<close> with tasks left can be waiting for something else.\<close>

lemma pools_progress:
  assumes inv: "pools_inv aware valid owns_all told_to_stop pending n s" and "\<not> over s"
  shows "(\<exists>t. pool_step aware nm begin_stop finish pending s t \<and> map pending (pools t) = map pending (pools s) \<and> expired t = expired s) \<or>
    (\<exists>i < n. stoppers s i = Some Blocked \<and> 0 < pending (pools s ! i) \<and> \<not> (aware \<and> expired s))"
proof (cases "to_go s")
  case (Suc i)
  then show ?thesis by (intro pools_quiet [OF p_spawn]) auto
next
  case 0
  have len: "length (pools s) = n" using inv unfolding pools_inv_def by blast
  show ?thesis
  proof (cases "pending_stops s")
    case 0
    then show ?thesis using \<open>to_go s = 0\<close> assms(2) by (intro pools_quiet [OF p_wait]) auto
  next
    case (Suc c)
    then have "(\<Sum>j<n. live (stoppers s j)) \<noteq> 0" using inv unfolding pools_inv_def by simp
    then obtain i where i: "i < n" "live (stoppers s i) \<noteq> 0" by auto
    then have "valid (pools s ! i)" using inv unfolding pools_inv_def by blast
    then have b: "map pending ((pools s)[i := begin_stop (pools s ! i)]) = map pending (pools s)"
      using i(1) len by (simp add: map_update begin_pending list_update_same_conv)
    consider "stoppers s i = Some Launched" | "stoppers s i = Some Announced" | "stoppers s i = Some Blocked" | e where "stoppers s i = Some (GaveUp e)"
      using i(2) by (cases "stoppers s i" rule: live.cases) auto
    then show ?thesis
    proof cases
      case 1
      then show ?thesis by (intro pools_quiet [OF p_announce]) auto
    next
      case 2
      then show ?thesis using b by (intro pools_quiet [OF p_begin]) auto
    next
      case 3
      then consider "pending (pools s ! i) = 0" | "aware \<and> expired s" | "0 < pending (pools s ! i) \<and> \<not> (aware \<and> expired s)" by blast
      then show ?thesis
      proof cases
        case 1
        then show ?thesis using 3 by (intro pools_quiet [OF p_return]) auto
      next
        case 2
        then show ?thesis using 3 by (intro pools_quiet [OF p_give_up]) auto
      qed (use 3 i in blast)
    next
      case 4
      then show ?thesis by (intro pools_quiet [OF p_report]) auto
    qed
  qed
qed

text \<open>When it has returned, every \<^verbatim>\<open>Stop\<close> has, and one that does not give up has seen all tasks return.\<close>

lemma pools_over:
  assumes inv: "pools_inv aware valid owns_all told_to_stop pending n s" and "over s" and "i < n"
  shows "stoppers s i = Some Stopped" and "told_to_stop (pools s ! i)" and "\<not> aware \<Longrightarrow> pending (pools s ! i) = 0"
proof -
  have "(\<Sum>j<n. live (stoppers s j)) = 0" "to_go s = 0" using inv assms(2) unfolding pools_inv_def by auto
  then have "live (stoppers s i) = 0" "stoppers s i \<noteq> None" using inv assms(3) unfolding pools_inv_def by auto
  then show st: "stoppers s i = Some Stopped" by (cases "stoppers s i" rule: live.cases) auto
  show "told_to_stop (pools s ! i)" using inv assms(3) st unfolding pools_inv_def by fastforce
  show "\<not> aware \<Longrightarrow> pending (pools s ! i) = 0" using inv assms(3) st unfolding pools_inv_def by blast
qed

text \<open>Once the context is done, components that give up let the shutdown return although no task does.\<close>

lemma pools_expired:
  "pools_inv True valid owns_all told_to_stop pending n s \<Longrightarrow> expired s \<Longrightarrow>
   \<exists>t. (pool_step True nm begin_stop finish pending)\<^sup>*\<^sup>* s t \<and> over t \<and> map pending (pools t) = map pending (pools s)"
proof (induction "pools_work pending s" arbitrary: s rule: less_induct)
  case less
  show ?case
  proof (cases "over s")
    case False
    then obtain u where u: "pool_step True nm begin_stop finish pending s u" "map pending (pools u) = map pending (pools s)" "expired u"
      using pools_progress [OF less.prems(1), of nm] less.prems(2) by blast
    then obtain t where "(pool_step True nm begin_stop finish pending)\<^sup>*\<^sup>* u t" "over t" "map pending (pools t) = map pending (pools u)"
      using less.hyps pools_work_step [OF less.prems(1) u(1)] pools_inv_step [OF less.prems(1) u(1)] by blast
    then show ?thesis using u(1,2) by (metis converse_rtranclp_into_rtranclp)
  qed blast
qed

end

section \<open>Properties\<close>

text \<open>
  C11: a lifecycle of worker pools.  Every run of its shutdown is of bounded length; once \<^verbatim>\<open>Stop\<close> of a pool has begun, all its tasks are
  told to stop; and it never gets stuck except for a pool that waits for a task of its own.  It returns only when every task of every pool has
  returned: the end of the shutdown's context is a step like others and does not let it return, so the timeout of the lifecycle does not bound
  the wait for a pool.
\<close>

theorem pools_shutdown:
  assumes "list_all (\<lambda>w. worker_inv w \<and> running (rt w) = []) ws"
    and "(pool_step False Worker_Name Worker_begin_stop (Worker_finish H) (\<lambda>w. waitgroup (rt w)) ^^ m)
      (pools_init (map (\<lambda>w. snd (Worker_Start ctx w)) ws) l) s"
  shows "m \<le> 5 * length ws + (\<Sum>j<length ws. nat (NumOfWorker (ws ! j))) + 2 \<and>
    (\<forall>i<length ws. begun (stoppers s i) \<longrightarrow> all_cancelled (rt (pools s ! i))) \<and>
    (over s \<longrightarrow> (\<forall>i<length ws. running (rt (pools s ! i)) = [])) \<and>
    (over s \<or>
     (\<exists>t. pool_step False Worker_Name Worker_begin_stop (Worker_finish H) (\<lambda>w. waitgroup (rt w)) s t \<and>
        map (\<lambda>w. waitgroup (rt w)) (pools t) = map (\<lambda>w. waitgroup (rt w)) (pools s)) \<or>
     (\<exists>i<length ws. stoppers s i = Some Blocked \<and> running (rt (pools s ! i)) \<noteq> []))"
  (is "_ \<and> _ \<and> _ \<and> (_ \<or> ?quiet \<or> ?blocked)")
proof -
  let ?ps = "map (\<lambda>w. snd (Worker_Start ctx w)) ws"
  have ok: "list_all (\<lambda>p. worker_inv p \<and> worker_owns_all p) ?ps"
    using assms(1) Worker_Start_inv Worker_Start_owns by (auto simp: list_all_iff)
  have idle: "waitgroup (rt (ws ! j)) = 0" if "j < length ws" for j
    using assms(1) that by (auto simp: list_all_length worker_inv_def runtime_inv_def)
  note run = wk.pools_run_init [OF ok assms(2)]
  have inv: "pools_inv False worker_inv worker_owns_all (\<lambda>w. all_cancelled (rt w)) (\<lambda>w. waitgroup (rt w)) (length ws) s"
    using run(1) by simp
  have "m \<le> 5 * length ws + (\<Sum>j<length ws. nat (NumOfWorker (ws ! j))) + 2"
    using run(2) by (simp add: Worker_Start_pending idle)
  moreover have "\<forall>i<length ws. begun (stoppers s i) \<longrightarrow> all_cancelled (rt (pools s ! i))"
    using inv unfolding pools_inv_def by auto
  moreover have empty: "running (rt (pools s ! i)) = [] \<longleftrightarrow> waitgroup (rt (pools s ! i)) = 0" if "i < length ws" for i
    using inv that unfolding pools_inv_def worker_inv_def runtime_inv_def by simp
  moreover have "over s \<longrightarrow> (\<forall>i<length ws. running (rt (pools s ! i)) = [])"
    using wk.pools_over(3) [OF inv] empty by simp
  moreover have "over s \<or> ?quiet \<or> ?blocked"
  proof (cases "over s")
    case False
    from wk.pools_progress [OF inv this, where nm = Worker_Name and H = H] show ?thesis
    proof
      assume "\<exists>i<length ws. stoppers s i = Some Blocked \<and> 0 < waitgroup (rt (pools s ! i)) \<and> \<not> (False \<and> expired s)"
      then have ?blocked using empty by fastforce
      then show ?thesis by (intro disjI2)
    qed blast
  qed simp
  ultimately show ?thesis by (intro conjI)
qed

theorem pools_shutdown_witness:
  "\<exists>t. pool_step False Worker_Name Worker_begin_stop (Worker_finish (\<lambda>_ _. None)) (\<lambda>w. waitgroup (rt w))
    (pools_init (map (\<lambda>w. snd (Worker_Start background w)) [Init None ''a'' 2, Init None ''b'' 1]) []) t"
proof -
  let ?ws = "[Init None ''a'' 2, Init None ''b'' 1]"
  have i: "list_all (\<lambda>w. worker_inv w \<and> running (rt w) = []) ?ws"
    by (simp add: Init_def worker_inv_def runtime_inv_empty) (simp add: empty_runtime_def)
  have z: "(pool_step False Worker_Name Worker_begin_stop (Worker_finish (\<lambda>_ _. None)) (\<lambda>w. waitgroup (rt w)) ^^ 0)
    (pools_init (map (\<lambda>w. snd (Worker_Start background w)) ?ws) []) (pools_init (map (\<lambda>w. snd (Worker_Start background w)) ?ws) [])" by simp
  show ?thesis using pools_shutdown [OF i z] by (auto simp: pools_init_def)
qed

lemma Consumer_Start_group:
  assumes "runtime_inv (c_rt c)" "running (c_rt c) = []"
  shows "runtime_inv (c_rt (snd (Consumer_Start c)))" "waitgroup (c_rt (snd (Consumer_Start c))) = 1"
    "case c_cancel (snd (Consumer_Start c)) of None \<Rightarrow> running (c_rt (snd (Consumer_Start c))) = [] | Some n \<Rightarrow> owned_by n (c_rt (snd (Consumer_Start c)))"
  using assms by (auto simp: Consumer_Start_def WithCancel_def go_spawn_def runtime_inv_def owned_by_def)

lemma AsyncProducer_Start_group:
  assumes "runtime_inv (p_rt p)" "running (p_rt p) = []" "fst (AsyncProducer_Start k p) = None"
  shows "runtime_inv (p_rt (snd (AsyncProducer_Start k p)))" "waitgroup (p_rt (snd (AsyncProducer_Start k p))) = 2"
    "case p_cancel (snd (AsyncProducer_Start k p)) of None \<Rightarrow> running (p_rt (snd (AsyncProducer_Start k p))) = []
      | Some n \<Rightarrow> owned_by n (p_rt (snd (AsyncProducer_Start k p)))"
  using assms by (auto simp: AsyncProducer_Start_def WithCancel_def go_spawn_def runtime_inv_def owned_by_def split: option.splits)

text \<open>
  C22: a lifecycle of Kafka consumers, or of asynchronous producers.  Their goroutines are told to stop, and once the context of the shutdown is
  done it can return although no goroutine does: the components give up.  When it has returned, every run context is cancelled.
\<close>

theorem kafka_shutdown:
  assumes "list_all (\<lambda>c. runtime_inv (c_rt c) \<and> running (c_rt c) = []) cs"
    and "(pool_step True Consumer_Name Consumer_begin_stop (Consumer_finish res) (\<lambda>c. waitgroup (c_rt c)) ^^ m)
      (pools_init (map (\<lambda>c. snd (Consumer_Start c)) cs) l) s"
    and "list_all (\<lambda>p. runtime_inv (p_rt p) \<and> running (p_rt p) = [] \<and> fst (AsyncProducer_Start k p) = None) ps"
    and "(pool_step True AsyncProducer_Name AsyncProducer_begin_stop AsyncProducer_finish (\<lambda>p. waitgroup (p_rt p)) ^^ n)
      (pools_init (map (\<lambda>p. snd (AsyncProducer_Start k p)) ps) l) u"
  shows "m \<le> 6 * length cs + 2 \<and> (over s \<longrightarrow> (\<forall>i<length cs. all_cancelled (c_rt (pools s ! i)))) \<and>
    (expired s \<longrightarrow> (\<exists>t. (pool_step True Consumer_Name Consumer_begin_stop (Consumer_finish res) (\<lambda>c. waitgroup (c_rt c)))\<^sup>*\<^sup>* s t \<and> over t \<and>
       map (\<lambda>c. waitgroup (c_rt c)) (pools t) = map (\<lambda>c. waitgroup (c_rt c)) (pools s))) \<and>
    n \<le> 7 * length ps + 2 \<and> (over u \<longrightarrow> (\<forall>i<length ps. all_cancelled (p_rt (pools u ! i)))) \<and>
    (expired u \<longrightarrow> (\<exists>t. (pool_step True AsyncProducer_Name AsyncProducer_begin_stop AsyncProducer_finish (\<lambda>p. waitgroup (p_rt p)))\<^sup>*\<^sup>* u t \<and> over t \<and>
       map (\<lambda>p. waitgroup (p_rt p)) (pools t) = map (\<lambda>p. waitgroup (p_rt p)) (pools u)))"
proof -
  let ?cs = "map (\<lambda>c. snd (Consumer_Start c)) cs" and ?ps = "map (\<lambda>p. snd (AsyncProducer_Start k p)) ps"
  have c: "list_all (\<lambda>c. runtime_inv (c_rt c) \<and> (case c_cancel c of None \<Rightarrow> running (c_rt c) = [] | Some n \<Rightarrow> owned_by n (c_rt c))) ?cs"
    using assms(1) Consumer_Start_group by (auto simp: list_all_iff)
  note crun = kc.pools_run_init [OF c assms(2)]
  have "m \<le> 6 * length cs + 2"
    using crun(2) assms(1) by (simp add: list_all_length Consumer_Start_group)
  moreover have "over s \<longrightarrow> (\<forall>i<length cs. all_cancelled (c_rt (pools s ! i)))"
    using kc.pools_over(2) [OF crun(1)] by simp
  moreover have "expired s \<longrightarrow> (\<exists>t. (pool_step True Consumer_Name Consumer_begin_stop (Consumer_finish res) (\<lambda>c. waitgroup (c_rt c)))\<^sup>*\<^sup>* s t \<and> over t \<and>
       map (\<lambda>c. waitgroup (c_rt c)) (pools t) = map (\<lambda>c. waitgroup (c_rt c)) (pools s))"
    using kc.pools_expired [OF crun(1), where nm = Consumer_Name and res = res] by blast
  moreover have p: "list_all (\<lambda>p. runtime_inv (p_rt p) \<and> (case p_cancel p of None \<Rightarrow> running (p_rt p) = [] | Some n \<Rightarrow> owned_by n (p_rt p))) ?ps"
    using assms(3) AsyncProducer_Start_group by (auto simp: list_all_iff)
  note prun = kp.pools_run_init [OF p assms(4)]
  have "n \<le> 7 * length ps + 2"
    using prun(2) assms(3) by (simp add: list_all_length AsyncProducer_Start_group)
  moreover have "over u \<longrightarrow> (\<forall>i<length ps. all_cancelled (p_rt (pools u ! i)))"
    using kp.pools_over(2) [OF prun(1)] by simp
  moreover have "expired u \<longrightarrow> (\<exists>t. (pool_step True AsyncProducer_Name AsyncProducer_begin_stop AsyncProducer_finish (\<lambda>p. waitgroup (p_rt p)))\<^sup>*\<^sup>* u t \<and> over t \<and>
       map (\<lambda>p. waitgroup (p_rt p)) (pools t) = map (\<lambda>p. waitgroup (p_rt p)) (pools u))"
    using kp.pools_expired [OF prun(1), where nm = AsyncProducer_Name] by blast
  ultimately show ?thesis by (intro conjI)
qed

theorem kafka_shutdown_witness:
  "\<exists>s t. (pool_step True Consumer_Name Consumer_begin_stop (Consumer_finish None) (\<lambda>c. waitgroup (c_rt c)))\<^sup>*\<^sup>* s t \<and> over t \<and>
     map (\<lambda>c. waitgroup (c_rt c)) (pools t) = [1]"
proof -
  let ?cs = "[NewConsumerComponent ''c'' [''t''] (OtherHandler 0)]"
  let ?i = "pools_init (map (\<lambda>c. snd (Consumer_Start c)) ?cs) []"
  have c: "list_all (\<lambda>c. runtime_inv (c_rt c) \<and> running (c_rt c) = []) ?cs"
    by (simp add: NewConsumerComponent_def runtime_inv_empty) (simp add: empty_runtime_def)
  have "pool_step True Consumer_Name Consumer_begin_stop (Consumer_finish None) (\<lambda>c. waitgroup (c_rt c)) ?i (?i\<lparr>expired := True\<rparr>)"
    by (rule p_expire) (simp add: pools_init_def)
  then have s: "(pool_step True Consumer_Name Consumer_begin_stop (Consumer_finish None) (\<lambda>c. waitgroup (c_rt c)) ^^ 1) ?i (?i\<lparr>expired := True\<rparr>)"
    by (simp only: relpowp_1)
  have p: "(pool_step True AsyncProducer_Name AsyncProducer_begin_stop AsyncProducer_finish (\<lambda>p. waitgroup (p_rt p)) ^^ 0)
      (pools_init (map (\<lambda>p. snd (AsyncProducer_Start example_kafka p)) []) []) (pools_init [] [])" by simp
  have w: "map (\<lambda>c. waitgroup (c_rt c)) (pools ?i) = [1]"
    by (simp add: pools_init_def Consumer_Start_def WithCancel_def go_spawn_def NewConsumerComponent_def empty_runtime_def)
  have "list_all (\<lambda>p. runtime_inv (p_rt p) \<and> running (p_rt p) = [] \<and> fst (AsyncProducer_Start example_kafka p) = None) []" by simp
  note k = kafka_shutdown [OF c s this p, THEN conjunct2, THEN conjunct2, THEN conjunct1]
  have e: "expired (?i\<lparr>expired := True\<rparr>)" and pl: "pools (?i\<lparr>expired := True\<rparr>) = pools ?i" by simp_all
  from k [THEN mp, OF e] show ?thesis
  proof (rule exE, intro exI conjI)
    fix t
    assume t: "(pool_step True Consumer_Name Consumer_begin_stop (Consumer_finish None) (\<lambda>c. waitgroup (c_rt c)))\<^sup>*\<^sup>* (?i\<lparr>expired := True\<rparr>) t \<and> over t \<and>
      map (\<lambda>c. waitgroup (c_rt c)) (pools t) = map (\<lambda>c. waitgroup (c_rt c)) (pools (?i\<lparr>expired := True\<rparr>))"
    show "(pool_step True Consumer_Name Consumer_begin_stop (Consumer_finish None) (\<lambda>c. waitgroup (c_rt c)))\<^sup>*\<^sup>* (?i\<lparr>expired := True\<rparr>) t"
      using t by (rule conjunct1)
    show "over t" by (rule conjunct1 [OF conjunct2 [OF t]])
    show "map (\<lambda>c. waitgroup (c_rt c)) (pools t) = [1]"
      by (rule trans [OF conjunct2 [OF conjunct2 [OF t]]]) (simp only: pl w)
  qed
qed

end
