(* ===== verification/Kms.thy ===== *)
theory Kms
  imports Attributes
begin

text \<open>
  Envelope encryption: \<^verbatim>\<open>kms/main.go\<close>, \<^verbatim>\<open>kms/aws/aws_kms.go\<close>, \<^verbatim>\<open>kms/utils/encryption.go\<close>,
  \<^verbatim>\<open>kms/types/kms.go\<close> and \<^verbatim>\<open>utils/random.go\<close>.

  Bytes are strings.  Three things are not the kit's code and are arguments of the definitions:
  the AES-GCM primitive (\<^verbatim>\<open>Seal\<close> and \<^verbatim>\<open>Open\<close> of \<^verbatim>\<open>crypto/cipher\<close>), the reader of
  \<^verbatim>\<open>crypto/rand\<close> (what the \<open>n\<close>-th read gives) and the AWS KMS service.  Spans are not modelled:
  the context they return is dropped by every caller here.
\<close>

section \<open>Types\<close>

type_synonym bytes = string

datatype KmsProvider = KmsProvider string

abbreviation AwsKms :: KmsProvider where
  "AwsKms \<equiv> KmsProvider ''aws-kms''"

record EncryptedInfo =
  Provider :: KmsProvider
  Ciphertext :: bytes
  IV :: bytes
  Tag :: bytes
  WrappedDEK :: bytes
  KeyVersion :: string

text \<open>AES-GCM with a key, a nonce and no additional data.\<close>

record gcm_api =
  gcm_Seal :: "bytes \<Rightarrow> bytes \<Rightarrow> bytes \<Rightarrow> bytes"
  gcm_Open :: "bytes \<Rightarrow> bytes \<Rightarrow> bytes \<Rightarrow> bytes res"

text \<open>\<^verbatim>\<open>gcm.Overhead()\<close>, and the size of the standard nonce.\<close>

definition gcm_Overhead :: nat where
  "gcm_Overhead = 16"

definition gcm_NonceSize :: nat where
  "gcm_NonceSize = 12"

text \<open>What the documentation of \<^verbatim>\<open>cipher.AEAD\<close> promises for GCM with the standard nonce.\<close>

definition gcm_law :: "gcm_api \<Rightarrow> bool" where
  "gcm_law g \<longleftrightarrow> (\<forall>k iv p. length iv = gcm_NonceSize \<longrightarrow>
     length (gcm_Seal g k iv p) = length p + gcm_Overhead \<and> gcm_Open g k iv (gcm_Seal g k iv p) = Inr p)"

text \<open>\<^verbatim>\<open>aes.NewCipher\<close> accepts keys of 16, 24 and 32 bytes; \<^verbatim>\<open>cipher.NewGCM\<close> never fails on an AES block.\<close>

definition aes_NewCipher :: "bytes \<Rightarrow> bytes res" where
  "aes_NewCipher k = (if length k \<in> {16, 24, 32} then Inr k
     else Inl (Errorf (''crypto/aes: invalid key size '' @ Itoa (int (length k)))))"

section \<open>Random bytes\<close>

text \<open>The random source: the result of the \<open>n\<close>-th read of \<open>len\<close> bytes, and the number of reads so far.\<close>

type_synonym rand_source = "nat \<Rightarrow> nat \<Rightarrow> bytes res"

definition rand_Read :: "rand_source \<Rightarrow> nat \<Rightarrow> nat \<Rightarrow> bytes res \<times> nat" where
  "rand_Read rnd len n = (rnd n len, Suc n)"

definition rand_law :: "rand_source \<Rightarrow> bool" where
  "rand_law rnd \<longleftrightarrow> (\<forall>n len b. rnd n len = Inr b \<longrightarrow> length b = len)"

definition RandomString :: "rand_source \<Rightarrow> nat \<Rightarrow> nat \<Rightarrow> bytes res \<times> nat" where
  "RandomString rnd len n =
     (case rand_Read rnd len n of
        (Inl err, n') \<Rightarrow> (Inl err, n')
      | (Inr b, n') \<Rightarrow> (Inr b, n'))"

section \<open>Data encryption\<close>

definition EncryptWithDEK :: "gcm_api \<Rightarrow> rand_source \<Rightarrow> bytes \<Rightarrow> bytes \<Rightarrow> nat \<Rightarrow> (bytes \<times> bytes \<times> bytes) res \<times> nat" where
  "EncryptWithDEK g rnd dek plaintext n =
     (case aes_NewCipher dek of
        Inl err \<Rightarrow> (Inl err, n)
      | Inr block \<Rightarrow>
          (case rand_Read rnd 12 n of
             (Inl err, n') \<Rightarrow> (Inl err, n')
           | (Inr iv, n') \<Rightarrow>
               (let ct = gcm_Seal g block iv plaintext in
                if length ct < gcm_Overhead then (Inl (Errorf ''ciphertext too short''), n')
                else (Inr (take (length ct - gcm_Overhead) ct, iv, drop (length ct - gcm_Overhead) ct), n'))))"

text \<open>\<^verbatim>\<open>gcm.Open\<close> panics on a nonce of the wrong length.\<close>

definition DecryptWithDEK :: "gcm_api \<Rightarrow> bytes \<Rightarrow> bytes \<Rightarrow> bytes \<Rightarrow> bytes \<Rightarrow> bytes outcome" where
  "DecryptWithDEK g dek ciphertext iv tag =
     (case aes_NewCipher dek of
        Inl err \<Rightarrow> Returns (Inl err)
      | Inr block \<Rightarrow>
          (let ct = ciphertext @ tag in
           if length iv \<noteq> gcm_NonceSize then Panics ''crypto/cipher: incorrect nonce length given to GCM''
           else Returns (gcm_Open g block iv ct)))"

section \<open>Providers\<close>

text \<open>The interface \<^verbatim>\<open>KmsProviderInterface\<close>, on the state \<^typ>\<open>'k\<close> of the service behind it.\<close>

record 'k kms_provider =
  p_Encrypt :: "go_ctx \<Rightarrow> bytes \<Rightarrow> 'k \<Rightarrow> (bytes \<times> string) outcome \<times> 'k"
  p_Decrypt :: "go_ctx \<Rightarrow> string \<Rightarrow> bytes \<Rightarrow> 'k \<Rightarrow> bytes outcome \<times> 'k"
  p_DescribeKey :: "go_ctx \<Rightarrow> string \<Rightarrow> 'k \<Rightarrow> string outcome \<times> 'k"
  p_ReEncrypt :: "go_ctx \<Rightarrow> string \<Rightarrow> bytes \<Rightarrow> 'k \<Rightarrow> (bytes \<times> string) outcome \<times> 'k"

text \<open>
  The AWS service: the responses hold pointers, \<^const>\<open>None\<close> stands for \<^verbatim>\<open>nil\<close>.  The algorithm is always
  \<^verbatim>\<open>SYMMETRIC_DEFAULT\<close>.
\<close>

record 'k aws_api =
  a_Encrypt :: "go_ctx \<Rightarrow> string \<Rightarrow> bytes \<Rightarrow> 'k \<Rightarrow> (bytes \<times> string option) res \<times> 'k"
  a_Decrypt :: "go_ctx \<Rightarrow> bytes \<Rightarrow> string \<Rightarrow> 'k \<Rightarrow> bytes option res \<times> 'k"
  a_DescribeKey :: "go_ctx \<Rightarrow> string \<Rightarrow> 'k \<Rightarrow> string option res \<times> 'k"
  a_ReEncrypt :: "go_ctx \<Rightarrow> string \<Rightarrow> bytes \<Rightarrow> string \<Rightarrow> 'k \<Rightarrow> (bytes \<times> string option) res \<times> 'k"

definition nil_deref :: string where
  "nil_deref = ''runtime error: invalid memory address or nil pointer dereference''"

fun deref :: "'a option \<Rightarrow> 'a outcome" where
  "deref None = Panics nil_deref"
| "deref (Some x) = Returns (Inr x)"

record KMS =
  keyId :: string

definition KMS_Encrypt :: "'k aws_api \<Rightarrow> KMS \<Rightarrow> go_ctx \<Rightarrow> bytes \<Rightarrow> 'k \<Rightarrow> (bytes \<times> string) outcome \<times> 'k" where
  "KMS_Encrypt api k ctx plaintext s =
     (case a_Encrypt api ctx (keyId k) plaintext s of
        (Inl err, s') \<Rightarrow> (Returns (Inl err), s')
      | (Inr (blob, kid), s') \<Rightarrow> (out_bind (deref kid) (\<lambda>v. Returns (Inr (blob, v))), s'))"

definition KMS_Decrypt :: "'k aws_api \<Rightarrow> KMS \<Rightarrow> go_ctx \<Rightarrow> string \<Rightarrow> bytes \<Rightarrow> 'k \<Rightarrow> bytes outcome \<times> 'k" where
  "KMS_Decrypt api k ctx kid wrappedDek s =
     (case a_Decrypt api ctx wrappedDek kid s of
        (Inl err, s') \<Rightarrow> (Returns (Inl err), s')
      | (Inr None, s') \<Rightarrow> (Returns (Inl (Errorf ''KMS decrypt failed: no plaintext returned'')), s')
      | (Inr (Some p), s') \<Rightarrow> (Returns (Inr p), s'))"

definition KMS_DescribeKey :: "'k aws_api \<Rightarrow> KMS \<Rightarrow> go_ctx \<Rightarrow> string \<Rightarrow> 'k \<Rightarrow> string outcome \<times> 'k" where
  "KMS_DescribeKey api k ctx kid s =
     (case a_DescribeKey api ctx kid s of
        (Inl err, s') \<Rightarrow> (Returns (Inl err), s')
      | (Inr v, s') \<Rightarrow> (deref v, s'))"

definition KMS_ReEncrypt :: "'k aws_api \<Rightarrow> KMS \<Rightarrow> go_ctx \<Rightarrow> string \<Rightarrow> bytes \<Rightarrow> 'k \<Rightarrow> (bytes \<times> string) outcome \<times> 'k" where
  "KMS_ReEncrypt api k ctx sourceKeyId wrappedDEK s =
     (case a_ReEncrypt api ctx (keyId k) wrappedDEK sourceKeyId s of
        (Inl err, s') \<Rightarrow> (Returns (Inl err), s')
      | (Inr (blob, kid), s') \<Rightarrow> (out_bind (deref kid) (\<lambda>v. Returns (Inr (blob, v))), s'))"

definition aws_provider :: "'k aws_api \<Rightarrow> KMS \<Rightarrow> 'k kms_provider" where
  "aws_provider api k = \<lparr>p_Encrypt = KMS_Encrypt api k, p_Decrypt = KMS_Decrypt api k,
     p_DescribeKey = KMS_DescribeKey api k, p_ReEncrypt = KMS_ReEncrypt api k\<rparr>"

section \<open>The KMS front end\<close>

record 'k Kms =
  client :: "'k kms_provider"
  provider :: KmsProvider

text \<open>The state a call works on: the reads of the random source so far and the state of the service.\<close>

record 'k kms_env =
  reads :: nat
  service :: 'k

definition genDek :: "rand_source \<Rightarrow> 'k kms_env \<Rightarrow> bytes res \<times> 'k kms_env" where
  "genDek rnd e =
     (case RandomString rnd 32 (reads e) of
        (Inl err, n) \<Rightarrow> (Inl err, e\<lparr>reads := n\<rparr>)
      | (Inr dek, n) \<Rightarrow> (Inr dek, e\<lparr>reads := n\<rparr>))"

definition encryptDek :: "gcm_api \<Rightarrow> rand_source \<Rightarrow> bytes \<Rightarrow> bytes \<Rightarrow> 'k kms_env \<Rightarrow> (bytes \<times> bytes \<times> bytes) res \<times> 'k kms_env" where
  "encryptDek g rnd dek plainText e =
     (case EncryptWithDEK g rnd dek plainText (reads e) of
        (Inl err, n) \<Rightarrow> (Inl err, e\<lparr>reads := n\<rparr>)
      | (Inr (cipherText, iv, tag), n) \<Rightarrow> (Inr (cipherText, iv, tag), e\<lparr>reads := n\<rparr>))"

definition Kms_Encrypt :: "gcm_api \<Rightarrow> rand_source \<Rightarrow> 'k Kms \<Rightarrow> go_ctx \<Rightarrow> bytes \<Rightarrow> 'k kms_env \<Rightarrow> EncryptedInfo outcome \<times> 'k kms_env" where
  "Kms_Encrypt g rnd k ctx plainText e =
     (case genDek rnd e of
        (Inl err, e1) \<Rightarrow> (Returns (Inl err), e1)
      | (Inr dek, e1) \<Rightarrow>
          (case encryptDek g rnd dek plainText e1 of
             (Inl err, e2) \<Rightarrow> (Returns (Inl err), e2)
           | (Inr (cipherText, iv, tag), e2) \<Rightarrow>
               (case p_Encrypt (client k) ctx dek (service e2) of
                  (r, s) \<Rightarrow>
                    (out_bind r (\<lambda>(wrappedDek, keyVersion). Returns (Inr
                       \<lparr>Provider = provider k, Ciphertext = cipherText, IV = iv, Tag = tag,
                        WrappedDEK = wrappedDek, KeyVersion = keyVersion\<rparr>)), e2\<lparr>service := s\<rparr>))))"

definition Kms_Decrypt :: "gcm_api \<Rightarrow> 'k Kms \<Rightarrow> go_ctx \<Rightarrow> EncryptedInfo \<Rightarrow> 'k kms_env \<Rightarrow> bytes outcome \<times> 'k kms_env" where
  "Kms_Decrypt g k ctx i e =
     (case p_Decrypt (client k) ctx (KeyVersion i) (WrappedDEK i) (service e) of
        (r, s) \<Rightarrow> (out_bind r (\<lambda>dek. DecryptWithDEK g dek (Ciphertext i) (IV i) (Tag i)), e\<lparr>service := s\<rparr>))"

definition Kms_DescribeKey :: "'k Kms \<Rightarrow> go_ctx \<Rightarrow> string \<Rightarrow> 'k kms_env \<Rightarrow> string outcome \<times> 'k kms_env" where
  "Kms_DescribeKey k ctx kid e =
     (case p_DescribeKey (client k) ctx kid (service e) of
        (r, s) \<Rightarrow> (out_bind r (\<lambda>key. Returns (Inr key)), e\<lparr>service := s\<rparr>))"

definition Kms_ReEncrypt :: "'k Kms \<Rightarrow> go_ctx \<Rightarrow> EncryptedInfo \<Rightarrow> 'k kms_env \<Rightarrow> EncryptedInfo outcome \<times> 'k kms_env" where
  "Kms_ReEncrypt k ctx oldData e =
     (case p_ReEncrypt (client k) ctx (KeyVersion oldData) (WrappedDEK oldData) (service e) of
        (r, s) \<Rightarrow>
          (out_bind r (\<lambda>(dek, keyVersion). Returns (Inr
             \<lparr>Provider = provider k, Ciphertext = Ciphertext oldData, IV = IV oldData, Tag = Tag oldData,
              WrappedDEK = dek, KeyVersion = keyVersion\<rparr>)), e\<lparr>service := s\<rparr>))"

record kms_config =
  AccessKeyId :: string
  SecretAccessKey :: string
  Region :: string
  KeyID :: string

text \<open>
  \<^verbatim>\<open>NewAwsKMS\<close>: loading the SDK configuration (region, static credentials or none) is an argument;
  the HTTP client is made by a call that never fails.
\<close>

definition NewAwsKMS :: "(string \<Rightarrow> (string \<times> string) option \<Rightarrow> 'k aws_api res) \<Rightarrow> kms_config option \<Rightarrow> 'k kms_provider res" where
  "NewAwsKMS LoadDefaultConfig cfg =
     (case cfg of
        None \<Rightarrow> Inl (Errorf ''config is nil'')
      | Some c \<Rightarrow>
          (let creds = (if AccessKeyId c \<noteq> ''-'' \<and> SecretAccessKey c \<noteq> ''-''
                        then Some (AccessKeyId c, SecretAccessKey c) else None)
           in case LoadDefaultConfig (Region c) creds of
                Inl err \<Rightarrow> Inl (Wrapf ''failed to load AWS config: '' err)
              | Inr api \<Rightarrow> Inr (aws_provider api \<lparr>keyId = KeyID c\<rparr>)))"

definition Kms_New :: "(string \<Rightarrow> (string \<times> string) option \<Rightarrow> 'k aws_api res) \<Rightarrow> KmsProvider \<Rightarrow> kms_config option \<Rightarrow> 'k Kms res" where
  "Kms_New LoadDefaultConfig kp cfg =
     (if kp = AwsKms then
        (case NewAwsKMS LoadDefaultConfig cfg of
           Inl err \<Rightarrow> Inl err
         | Inr c \<Rightarrow> Inr \<lparr>client = c, provider = AwsKms\<rparr>)
      else (case kp of KmsProvider name \<Rightarrow> Inl (Errorf (''not supported kms '' @ name @ '' provider''))))"

section \<open>Stored records\<close>

text \<open>
  A wrapped key belongs to \<open>dek\<close> when the service, whenever it unwraps it, gives \<open>dek\<close>: it may refuse
  (a disabled key, no permission, no network), but does not return other bytes.
\<close>

definition wraps :: "'k aws_api \<Rightarrow> bytes \<Rightarrow> string \<Rightarrow> bytes \<Rightarrow> bool" where
  "wraps api blob v dek \<longleftrightarrow>
     (\<forall>ctx s. fst (a_Decrypt api ctx blob v s) = Inr (Some dek) \<or> (\<exists>err. fst (a_Decrypt api ctx blob v s) = Inl err))"

text \<open>The documented behaviour of the service: its encryption and re-encryption keep the key bytes.\<close>

definition aws_law :: "'k aws_api \<Rightarrow> bool" where
  "aws_law api \<longleftrightarrow>
     (\<forall>ctx kid p s blob v s'. a_Encrypt api ctx kid p s = (Inr (blob, Some v), s') \<longrightarrow> wraps api blob v p) \<and>
     (\<forall>ctx dst blob src s blob' v' s' dek. a_ReEncrypt api ctx dst blob src s = (Inr (blob', Some v'), s') \<longrightarrow>
        wraps api blob src dek \<longrightarrow> wraps api blob' v' dek)"

definition seals :: "gcm_api \<Rightarrow> 'k aws_api \<Rightarrow> EncryptedInfo \<Rightarrow> bytes \<Rightarrow> bool" where
  "seals g api i p \<longleftrightarrow> (\<exists>dek. length dek = 32 \<and> length (IV i) = 12 \<and> length (Tag i) = 16 \<and>
     Ciphertext i @ Tag i = gcm_Seal g dek (IV i) p \<and> wraps api (WrappedDEK i) (KeyVersion i) dek)"

lemma EncryptWithDEK_ok:
  assumes "EncryptWithDEK g rnd dek p n = (Inr (c, iv, tag), n')" "gcm_law g" "rand_law rnd"
  shows "n' = Suc n \<and> rnd n 12 = Inr iv \<and> length iv = 12 \<and> length tag = 16 \<and> c @ tag = gcm_Seal g dek iv p"
proof -
  have iv: "rnd n 12 = Inr iv" and n': "n' = Suc n"
    and ct: "c = take (length (gcm_Seal g dek iv p) - 16) (gcm_Seal g dek iv p)"
      "tag = drop (length (gcm_Seal g dek iv p) - 16) (gcm_Seal g dek iv p)"
    using assms(1)
    by (auto simp: EncryptWithDEK_def rand_Read_def aes_NewCipher_def gcm_Overhead_def Let_def split: sum.splits if_splits)
  have len: "length iv = 12" using iv assms(3) by (auto simp: rand_law_def)
  then have "length (gcm_Seal g dek iv p) = length p + 16"
    using assms(2) by (auto simp: gcm_law_def gcm_NonceSize_def gcm_Overhead_def)
  then show ?thesis using iv n' len ct by simp
qed

lemma DecryptWithDEK_ok:
  assumes "gcm_law g" "length dek = 32" "length iv = 12" "c @ tag = gcm_Seal g dek iv p"
  shows "DecryptWithDEK g dek c iv tag = Returns (Inr p)"
  using assms by (simp add: DecryptWithDEK_def aes_NewCipher_def gcm_NonceSize_def gcm_law_def Let_def)

lemma Kms_Encrypt_steps:
  assumes "Kms_Encrypt g rnd \<lparr>client = aws_provider api k, provider = kp\<rparr> ctx p e = (Returns (Inr i), e')"
  obtains dek c iv tag s w v n' where "rnd (reads e) 32 = Inr dek"
    "EncryptWithDEK g rnd dek p (Suc (reads e)) = (Inr (c, iv, tag), n')"
    "a_Encrypt api ctx (keyId k) dek (service e) = (Inr (w, Some v), s)"
    "i = \<lparr>Provider = kp, Ciphertext = c, IV = iv, Tag = tag, WrappedDEK = w, KeyVersion = v\<rparr>"
    "e' = e\<lparr>reads := n', service := s\<rparr>"
proof -
  obtain dek where dek: "rnd (reads e) 32 = Inr dek"
    using assms by (auto simp: Kms_Encrypt_def genDek_def RandomString_def rand_Read_def split: sum.splits)
  obtain r n' where r: "EncryptWithDEK g rnd dek p (Suc (reads e)) = (r, n')" by (cases "EncryptWithDEK g rnd dek p (Suc (reads e))")
  have e1: "genDek rnd e = (Inr dek, e\<lparr>reads := Suc (reads e)\<rparr>)"
    using dek by (simp add: genDek_def RandomString_def rand_Read_def)
  obtain c iv tag where ok: "r = Inr (c, iv, tag)"
    using assms r by (cases r) (auto simp: Kms_Encrypt_def e1 encryptDek_def)
  have e2: "encryptDek g rnd dek p (e\<lparr>reads := Suc (reads e)\<rparr>) = (Inr (c, iv, tag), e\<lparr>reads := n'\<rparr>)"
    using r ok by (simp add: encryptDek_def)
  obtain q s where q: "a_Encrypt api ctx (keyId k) dek (service e) = (q, s)" by (cases "a_Encrypt api ctx (keyId k) dek (service e)")
  obtain w v where wv: "q = Inr (w, Some v)"
  proof (cases q)
    case (Inr b)
    then show ?thesis using assms q that by (cases b; cases "snd b") (auto simp: Kms_Encrypt_def e1 e2 aws_provider_def KMS_Encrypt_def)
  qed (use assms q in \<open>auto simp: Kms_Encrypt_def e1 e2 aws_provider_def KMS_Encrypt_def\<close>)
  show ?thesis
    using that [OF dek] r ok q wv assms by (auto simp: Kms_Encrypt_def e1 e2 aws_provider_def KMS_Encrypt_def)
qed

lemma Kms_Encrypt_seals:
  assumes "Kms_Encrypt g rnd \<lparr>client = aws_provider api k, provider = kp\<rparr> ctx p e = (Returns (Inr i), e')"
    and "gcm_law g" "rand_law rnd" "aws_law api"
  shows "seals g api i p"
  using assms(1)
proof (rule Kms_Encrypt_steps)
  fix dek c iv tag s w v n'
  assume dek: "rnd (reads e) 32 = Inr dek"
    and enc: "EncryptWithDEK g rnd dek p (Suc (reads e)) = (Inr (c, iv, tag), n')"
    and aws: "a_Encrypt api ctx (keyId k) dek (service e) = (Inr (w, Some v), s)"
    and i: "i = \<lparr>Provider = kp, Ciphertext = c, IV = iv, Tag = tag, WrappedDEK = w, KeyVersion = v\<rparr>"
  have "wraps api w v dek" using aws assms(4) unfolding aws_law_def by blast
  moreover have "length dek = 32" using dek assms(3) by (auto simp: rand_law_def)
  ultimately show ?thesis using EncryptWithDEK_ok [OF enc assms(2,3)] i unfolding seals_def by auto
qed

lemma Kms_ReEncrypt_seals:
  assumes "Kms_ReEncrypt \<lparr>client = aws_provider api k, provider = kp\<rparr> ctx i e = (Returns (Inr j), e')"
    and "seals g api i p" "aws_law api"
  shows "seals g api j p \<and> Ciphertext j = Ciphertext i \<and> IV j = IV i \<and> Tag j = Tag i"
proof -
  obtain r s where r: "a_ReEncrypt api ctx (keyId k) (WrappedDEK i) (KeyVersion i) (service e) = (r, s)"
    by (cases "a_ReEncrypt api ctx (keyId k) (WrappedDEK i) (KeyVersion i) (service e)")
  obtain w v where wv: "r = Inr (w, Some v)"
  proof (cases r)
    case (Inr b)
    then show ?thesis using assms(1) r that by (cases b; cases "snd b") (auto simp: Kms_ReEncrypt_def aws_provider_def KMS_ReEncrypt_def)
  qed (use assms(1) r in \<open>auto simp: Kms_ReEncrypt_def aws_provider_def KMS_ReEncrypt_def\<close>)
  obtain dek where "length dek = 32" "length (IV i) = 12" "length (Tag i) = 16" "Ciphertext i @ Tag i = gcm_Seal g dek (IV i) p"
     "wraps api (WrappedDEK i) (KeyVersion i) dek" using assms(2) by (auto simp: seals_def)
  moreover have "wraps api w v dek" using r wv assms(3) calculation(5) unfolding aws_law_def by blast
  moreover have "j = \<lparr>Provider = kp, Ciphertext = Ciphertext i, IV = IV i, Tag = Tag i, WrappedDEK = w, KeyVersion = v\<rparr>"
    using assms(1) r wv by (auto simp: Kms_ReEncrypt_def aws_provider_def KMS_ReEncrypt_def)
  ultimately show ?thesis unfolding seals_def by auto
qed

text \<open>Records obtained from \<open>i\<close> by successful re-encryptions.\<close>

inductive reencrypted :: "'k Kms \<Rightarrow> EncryptedInfo \<Rightarrow> EncryptedInfo \<Rightarrow> bool" for kms i where
  "reencrypted kms i i"
| "reencrypted kms i j \<Longrightarrow> Kms_ReEncrypt kms ctx j e = (Returns (Inr j'), e') \<Longrightarrow> reencrypted kms i j'"

lemma reencrypted_seals:
  "reencrypted kms i j \<Longrightarrow> kms = \<lparr>client = aws_provider api k, provider = kp\<rparr> \<Longrightarrow> aws_law api \<Longrightarrow>
   seals g api i p \<Longrightarrow> seals g api j p"
  by (induction rule: reencrypted.induct) (auto dest: Kms_ReEncrypt_seals)

lemma Kms_Decrypt_seals:
  assumes "seals g api i p" "gcm_law g"
  shows "fst (Kms_Decrypt g \<lparr>client = aws_provider api k, provider = kp\<rparr> ctx i e) =
    (case fst (a_Decrypt api ctx (WrappedDEK i) (KeyVersion i) (service e)) of Inl err \<Rightarrow> Returns (Inl err) | Inr _ \<Rightarrow> Returns (Inr p))"
proof -
  obtain dek where d: "length dek = 32" "length (IV i) = 12" "Ciphertext i @ Tag i = gcm_Seal g dek (IV i) p"
     "wraps api (WrappedDEK i) (KeyVersion i) dek" using assms(1) by (auto simp: seals_def)
  obtain r s where r: "a_Decrypt api ctx (WrappedDEK i) (KeyVersion i) (service e) = (r, s)"
    by (cases "a_Decrypt api ctx (WrappedDEK i) (KeyVersion i) (service e)")
  then have "r = Inr (Some dek) \<or> (\<exists>err. r = Inl err)" using d(4) unfolding wraps_def by (metis fst_conv)
  then show ?thesis using r DecryptWithDEK_ok [OF assms(2) d(1,2,3)]
    by (auto simp: Kms_Decrypt_def aws_provider_def KMS_Decrypt_def)
qed

text \<open>Concrete services for the examples.\<close>

definition example_gcm :: gcm_api where
  "example_gcm = \<lparr>gcm_Seal = (\<lambda>k iv p. rev p @ replicate 16 CHR ''t''),
     gcm_Open = (\<lambda>k iv c. if length c < 16 then Inl (Errorf ''cipher: message authentication failed'')
       else Inr (rev (take (length c - 16) c)))\<rparr>"

definition example_rand :: rand_source where
  "example_rand n len = Inr (replicate len (char_of (n + 65)))"

definition example_aws :: "unit aws_api" where
  "example_aws = \<lparr>a_Encrypt = (\<lambda>_ kid p s. (Inr (rev p, Some kid), s)),
     a_Decrypt = (\<lambda>_ b kid s. (Inr (Some (rev b)), s)),
     a_DescribeKey = (\<lambda>_ kid s. (Inr (Some kid), s)),
     a_ReEncrypt = (\<lambda>_ dst b src s. (Inr (b, Some dst), s))\<rparr>"

definition example_kms :: "unit Kms" where
  "example_kms = \<lparr>client = aws_provider example_aws \<lparr>keyId = ''key-1''\<rparr>, provider = AwsKms\<rparr>"

lemma example_laws: "gcm_law example_gcm" "rand_law example_rand" "aws_law example_aws"
  by (auto simp: gcm_law_def example_gcm_def gcm_Overhead_def rand_law_def example_rand_def aws_law_def
      wraps_def example_aws_def)

section \<open>Properties\<close>

text \<open>
  C7: envelope encryption round trip.  What \<^verbatim>\<open>Kms.Encrypt\<close> returned, after any number of successful
  \<^verbatim>\<open>ReEncrypt\<close> (at any time, in any state of the service), \<^verbatim>\<open>Kms.Decrypt\<close> turns back into the plain
  text whenever the service unwraps the key, and otherwise it returns the service's error.
\<close>

theorem Kms_roundtrip:
  assumes "gcm_law g" and "rand_law rnd" and "aws_law api"
    and "kms = \<lparr>client = aws_provider api k, provider = kp\<rparr>"
    and "Kms_Encrypt g rnd kms ctx p e = (Returns (Inr i), e')"
    and "reencrypted kms i j"
  shows "fst (Kms_Decrypt g kms ctx' j e'') =
    (case fst (a_Decrypt api ctx' (WrappedDEK j) (KeyVersion j) (service e'')) of
       Inl err \<Rightarrow> Returns (Inl err) | Inr _ \<Rightarrow> Returns (Inr p))"
proof -
  have "seals g api i p" using Kms_Encrypt_seals [OF assms(5) [unfolded assms(4)] assms(1-3)] .
  then have "seals g api j p" using reencrypted_seals [OF assms(6,4,3)] by blast
  then show ?thesis unfolding assms(4) by (rule Kms_Decrypt_seals [OF _ assms(1)])
qed

theorem Kms_roundtrip_witness:
  "\<exists>i e' j e2. Kms_Encrypt example_gcm example_rand example_kms background ''secret'' \<lparr>reads = 0, service = ()\<rparr> = (Returns (Inr i), e') \<and>
     Kms_ReEncrypt example_kms background i e' = (Returns (Inr j), e2) \<and>
     fst (Kms_Decrypt example_gcm example_kms background j e2) = Returns (Inr ''secret'')"
proof -
  obtain i e' where i: "Kms_Encrypt example_gcm example_rand example_kms background ''secret'' \<lparr>reads = 0, service = ()\<rparr> = (Returns (Inr i), e')"
    by (simp add: Kms_Encrypt_def genDek_def RandomString_def rand_Read_def example_rand_def encryptDek_def
        EncryptWithDEK_def aes_NewCipher_def example_gcm_def gcm_Overhead_def example_kms_def aws_provider_def
        KMS_Encrypt_def example_aws_def Let_def)
  obtain j e2 where j: "Kms_ReEncrypt example_kms background i e' = (Returns (Inr j), e2)"
    by (simp add: Kms_ReEncrypt_def example_kms_def aws_provider_def KMS_ReEncrypt_def example_aws_def)
  then have "reencrypted example_kms i j" by (blast intro: reencrypted.intros)
  then have "fst (Kms_Decrypt example_gcm example_kms background j e2) = Returns (Inr ''secret'')"
    using Kms_roundtrip [OF example_laws example_kms_def i] by (simp add: example_aws_def)
  then show ?thesis using i j by blast
qed

text \<open>
  Every encryption draws its own data key (32 bytes) and its own nonce (12 bytes) from the random
  source, in two reads that no other encryption makes; the nonce is stored with the record and the data key
  is not, except wrapped by the service.
\<close>

theorem Kms_Encrypt_fresh:
  assumes "gcm_law g" and "rand_law rnd" and "aws_law api"
    and "Kms_Encrypt g rnd \<lparr>client = aws_provider api k, provider = kp\<rparr> ctx p e = (Returns (Inr i), e')"
  shows "reads e' = reads e + 2 \<and> rnd (reads e + 1) 12 = Inr (IV i) \<and> Provider i = kp \<and>
    (\<exists>dek. rnd (reads e) 32 = Inr dek \<and> Ciphertext i @ Tag i = gcm_Seal g dek (IV i) p \<and>
       wraps api (WrappedDEK i) (KeyVersion i) dek)"
  using assms(4)
proof (rule Kms_Encrypt_steps)
  fix dek c iv tag s w v n'
  assume *: "rnd (reads e) 32 = Inr dek" "EncryptWithDEK g rnd dek p (Suc (reads e)) = (Inr (c, iv, tag), n')"
    "a_Encrypt api ctx (keyId k) dek (service e) = (Inr (w, Some v), s)"
    "i = \<lparr>Provider = kp, Ciphertext = c, IV = iv, Tag = tag, WrappedDEK = w, KeyVersion = v\<rparr>"
    "e' = e\<lparr>reads := n', service := s\<rparr>"
  moreover have "wraps api w v dek" using *(3) assms(3) unfolding aws_law_def by blast
  ultimately show ?thesis using EncryptWithDEK_ok [OF *(2) assms(1,2)] by auto
qed

theorem Kms_Encrypt_fresh_witness:
  "\<exists>i e'. Kms_Encrypt example_gcm example_rand example_kms background ''secret'' \<lparr>reads = 0, service = ()\<rparr> = (Returns (Inr i), e') \<and>
     reads e' = 2 \<and> IV i = replicate 12 CHR ''B''"
proof -
  obtain i e' where i: "Kms_Encrypt example_gcm example_rand example_kms background ''secret'' \<lparr>reads = 0, service = ()\<rparr> = (Returns (Inr i), e')"
    by (simp add: Kms_Encrypt_def genDek_def RandomString_def rand_Read_def example_rand_def encryptDek_def
        EncryptWithDEK_def aes_NewCipher_def example_gcm_def gcm_Overhead_def example_kms_def aws_provider_def
        KMS_Encrypt_def example_aws_def Let_def)
  have B: "char_of (66::nat) = CHR ''B''" by code_simp
  show ?thesis using i Kms_Encrypt_fresh [OF example_laws i [unfolded example_kms_def]]
    by (auto simp: example_rand_def B)
qed

text \<open>
  A stored record whose nonce is not 12 bytes long makes \<^verbatim>\<open>Kms.Decrypt\<close> panic, as soon as the
  service unwraps the key: the length is not checked before \<^verbatim>\<open>gcm.Open\<close>, which panics on it.
\<close>

theorem Kms_Decrypt_nonce_panics:
  assumes "fst (a_Decrypt api ctx (WrappedDEK i) (KeyVersion i) (service e)) = Inr (Some dek)"
    and "length dek \<in> {16, 24, 32}"
  shows "fst (Kms_Decrypt g \<lparr>client = aws_provider api k, provider = kp\<rparr> ctx i e) \<in> range Panics \<longleftrightarrow> length (IV i) \<noteq> 12"
  using assms
  by (cases "a_Decrypt api ctx (WrappedDEK i) (KeyVersion i) (service e)")
    (auto simp: Kms_Decrypt_def aws_provider_def KMS_Decrypt_def DecryptWithDEK_def aes_NewCipher_def gcm_NonceSize_def Let_def)

theorem Kms_Decrypt_nonce_panics_witness:
  "fst (Kms_Decrypt example_gcm example_kms background \<lparr>Provider = AwsKms, Ciphertext = [], IV = [], Tag = [],
     WrappedDEK = replicate 32 CHR ''k'', KeyVersion = ''key-1''\<rparr> \<lparr>reads = 0, service = ()\<rparr>) \<in> range Panics"
  unfolding example_kms_def
  by (subst Kms_Decrypt_nonce_panics [where dek = "replicate 32 CHR ''k''"]) (simp_all add: example_aws_def)

end
