(* ===== verification/Secure_String.thy ===== *)
theory Secure_String
  imports Kms
begin

text \<open>
  The encrypted database column: \<^verbatim>\<open>gorm/driver/securestring/securestring.go\<close>, with the standard base64
  encoding it uses.  \<^verbatim>\<open>encoding/json\<close> on \<^verbatim>\<open>types.EncryptedInfo\<close> is an argument (a pair of functions) with
  its round trip as a named hypothesis.  The KMS client is the global \<^verbatim>\<open>kmsClient\<close>; while it is \<^verbatim>\<open>nil\<close> a
  call on it panics.
\<close>

section \<open>Standard base64\<close>

definition b64_alphabet :: string where
  "b64_alphabet = ''ABCDEFGHIJKLMNOPQRSTUVWXYZabcdefghijklmnopqrstuvwxyz0123456789+/''"

definition b64_char :: "nat \<Rightarrow> char" where
  "b64_char n = b64_alphabet ! n"

fun index_of :: "'a list \<Rightarrow> 'a \<Rightarrow> nat option" where
  "index_of [] c = None"
| "index_of (x # xs) c = (if x = c then Some 0 else map_option Suc (index_of xs c))"

definition b64_val :: "char \<Rightarrow> nat option" where
  "b64_val c = index_of b64_alphabet c"

definition quad :: "nat \<Rightarrow> nat \<Rightarrow> nat \<Rightarrow> nat list" where
  "quad a b c = [a div 4, (a mod 4) * 16 + b div 16, (b mod 16) * 4 + c div 64, c mod 64]"

fun EncodeToString :: "string \<Rightarrow> string" where
  "EncodeToString [] = []"
| "EncodeToString [a] = map b64_char (take 2 (quad (of_char a) 0 0)) @ ''==''"
| "EncodeToString [a, b] = map b64_char (take 3 (quad (of_char a) (of_char b) 0)) @ ''=''"
| "EncodeToString (a # b # c # rest) = map b64_char (quad (of_char a) (of_char b) (of_char c)) @ EncodeToString rest"

definition byte1 :: "nat \<Rightarrow> nat \<Rightarrow> char" where
  "byte1 v w = char_of (v * 4 + w div 16)"

definition byte2 :: "nat \<Rightarrow> nat \<Rightarrow> char" where
  "byte2 v w = char_of ((v mod 16) * 16 + w div 4)"

definition byte3 :: "nat \<Rightarrow> nat \<Rightarrow> char" where
  "byte3 v w = char_of ((v mod 4) * 64 + w)"

fun decode_quads :: "string \<Rightarrow> string option" where
  "decode_quads [] = Some []"
| "decode_quads [a] = None"
| "decode_quads [a, b] = None"
| "decode_quads [a, b, c] = None"
| "decode_quads (a # b # c # d # rest) =
     (case (b64_val a, b64_val b) of
        (Some v, Some w) \<Rightarrow>
          (case b64_val c of
             None \<Rightarrow> (if c = CHR ''='' \<and> d = CHR ''='' \<and> rest = [] then Some [byte1 v w] else None)
           | Some x \<Rightarrow>
               (case b64_val d of
                  None \<Rightarrow> (if d = CHR ''='' \<and> rest = [] then Some [byte1 v w, byte2 w x] else None)
                | Some y \<Rightarrow> map_option (\<lambda>bs. byte1 v w # byte2 w x # byte3 x y # bs) (decode_quads rest)))
      | _ \<Rightarrow> None)"

text \<open>The decoder skips line breaks; the position in its error is left out.\<close>

definition DecodeString :: "string \<Rightarrow> string res" where
  "DecodeString s =
     (case decode_quads (filter (\<lambda>c. c \<noteq> CHR 0x0A \<and> c \<noteq> CHR 0x0D) s) of
        None \<Rightarrow> Inl (Errorf ''illegal base64 data at input byte'')
      | Some b \<Rightarrow> Inr b)"

lemma b64_val_char: "n < 64 \<Longrightarrow> b64_val (b64_char n) = Some n"
proof -
  have "list_all (\<lambda>n. b64_val (b64_char n) = Some n) [0..<64]" by code_simp
  then show "n < 64 \<Longrightarrow> b64_val (b64_char n) = Some n" by (simp add: list_all_iff)
qed

lemma b64_char_plain: "n < 64 \<Longrightarrow> b64_char n \<noteq> CHR 0x0A \<and> b64_char n \<noteq> CHR 0x0D \<and> b64_char n \<noteq> CHR '',''"
proof -
  have "list_all (\<lambda>n. b64_char n \<noteq> CHR 0x0A \<and> b64_char n \<noteq> CHR 0x0D \<and> b64_char n \<noteq> CHR '','') [0..<64]" by code_simp
  then show "n < 64 \<Longrightarrow> b64_char n \<noteq> CHR 0x0A \<and> b64_char n \<noteq> CHR 0x0D \<and> b64_char n \<noteq> CHR '',''"
    by (simp add: list_all_iff)
qed

lemma b64_pad: "b64_val (CHR ''='') = None"
  by code_simp

lemma quad_less: "a < 256 \<Longrightarrow> b < 256 \<Longrightarrow> c < 256 \<Longrightarrow> v \<in> set (quad a b c) \<Longrightarrow> v < 64"
proof -
  assume *: "a < 256" "b < 256" "c < 256" "v \<in> set (quad a b c)"
  have "a div 4 < 64" "b div 16 < 16" "c div 64 < 4" using * by (auto simp: less_mult_imp_div_less)
  moreover have "(a mod 4) * 16 \<le> 48" "(b mod 16) * 4 \<le> 60"
    using mod_less_divisor [of 4 a] mod_less_divisor [of 16 b] by auto
  ultimately show "v < 64" using *(4) by (auto simp: quad_def)
qed

lemma bytes_quad:
  fixes a b c :: nat
  shows "(a div 4) * 4 + ((a mod 4) * 16 + b div 16) div 16 = a + (b div 16) div 16"
    and "(((a mod 4) * 16 + b div 16) mod 16) * 16 + ((b mod 16) * 4 + c div 64) div 4 = ((b div 16) mod 16) * 16 + b mod 16 + (c div 64) div 4"
    and "((b mod 16) * 4 + c div 64) mod 4 * 64 + c mod 64 = ((c div 64) mod 4) * 64 + c mod 64"
  by simp_all

lemma quad_bytes:
  assumes "quad (of_char a) (of_char b) (of_char c) = [p, q, r, s]"
  shows "byte1 p q = a" "byte2 q r = b" "byte3 r s = c"
proof -
  have small: "(of_char x :: nat) div 16 div 16 = 0" "(of_char x :: nat) div 16 mod 16 = of_char x div 16"
      "(of_char x :: nat) div 64 div 4 = 0" "(of_char x :: nat) div 64 mod 4 = of_char x div 64" for x :: char
    using of_char_less [of x] by (auto simp: div_mult2_eq [symmetric] mod_less less_mult_imp_div_less)
  have pqrs: "p = of_char a div 4" "q = (of_char a mod 4) * 16 + of_char b div 16"
      "r = (of_char b mod 16) * 4 + of_char c div 64" "s = of_char c mod 64"
    using assms by (auto simp: quad_def)
  show "byte1 p q = a" using bytes_quad(1) [of "of_char a" "of_char b"] small by (simp add: byte1_def pqrs)
  show "byte2 q r = b" using bytes_quad(2) [of "of_char a" "of_char b" "of_char c"] small by (simp add: byte2_def pqrs)
  show "byte3 r s = c" using bytes_quad(3) [of "of_char b" "of_char c"] small by (simp add: byte3_def pqrs)
qed

lemma quad_vals:
  obtains p q r s where "quad (of_char a) (of_char b) (of_char c) = [p, q, r, s]" "p < 64" "q < 64" "r < 64" "s < 64"
proof -
  obtain p q r s where e: "quad (of_char a) (of_char b) (of_char c) = [p, q, r, s]" by (simp add: quad_def)
  have lt: "v < 64" if "v \<in> set [p, q, r, s]" for v
    using quad_less [OF of_char_less of_char_less of_char_less, of v a b c] that unfolding e .
  show ?thesis by (rule that [OF e]) (rule lt, simp)+
qed

lemma decode_quads_Encode: "decode_quads (EncodeToString s) = Some s"
proof (induction s rule: EncodeToString.induct)
  case (2 a)
  have z: "(of_char (char_of (0::nat) :: char) :: nat) = 0" by simp
  obtain p q r s where *: "quad (of_char a) (of_char (char_of (0::nat) :: char)) (of_char (char_of (0::nat) :: char)) = [p, q, r, s]"
    "p < 64" "q < 64" by (rule quad_vals)
  have "byte1 p q = a" by (rule quad_bytes(1) [OF *(1)])
  then show ?case using * unfolding z by (simp add: b64_val_char b64_pad)
next
  case (3 a b)
  have z: "(of_char (char_of (0::nat) :: char) :: nat) = 0" by simp
  obtain p q r s where *: "quad (of_char a) (of_char b) (of_char (char_of (0::nat) :: char)) = [p, q, r, s]"
    "p < 64" "q < 64" "r < 64" by (rule quad_vals)
  have "byte1 p q = a" "byte2 q r = b" by (rule quad_bytes(1) [OF *(1)], rule quad_bytes(2) [OF *(1)])
  then show ?case using * unfolding z by (simp add: b64_val_char b64_pad)
next
  case (4 a b c rest)
  obtain p q r s where *: "quad (of_char a) (of_char b) (of_char c) = [p, q, r, s]" "p < 64" "q < 64" "r < 64" "s < 64"
    by (rule quad_vals)
  then show ?case using 4 quad_bytes [OF *(1)] by (simp add: b64_val_char)
qed simp

lemma EncodeToString_chars:
  "x \<in> set (EncodeToString s) \<Longrightarrow> x \<noteq> CHR 0x0A \<and> x \<noteq> CHR 0x0D \<and> x \<noteq> CHR '',''"
proof (induction s rule: EncodeToString.induct)
  case (2 a)
  have "v < 64" if "v \<in> set (quad (of_char a) 0 0)" for v using that quad_less [of "of_char a" 0 0] by simp
  then show ?case using 2 b64_char_plain by (auto dest: in_set_takeD)
next
  case (3 a b)
  have "v < 64" if "v \<in> set (quad (of_char a) (of_char b) 0)" for v using that quad_less [of "of_char a" "of_char b" 0] by simp
  then show ?case using 3 b64_char_plain by (auto dest: in_set_takeD)
next
  case (4 a b c rest)
  have "v < 64" if "v \<in> set (quad (of_char a) (of_char b) (of_char c))" for v
    using that quad_less [of "of_char a" "of_char b" "of_char c"] by simp
  then show ?case using 4 b64_char_plain by auto
qed simp

lemma DecodeString_Encode [simp]: "DecodeString (EncodeToString s) = Inr s"
proof -
  have "filter (\<lambda>c. c \<noteq> CHR 0x0A \<and> c \<noteq> CHR 0x0D) (EncodeToString s) = EncodeToString s"
    using EncodeToString_chars by (auto simp: filter_id_conv)
  then show ?thesis by (simp add: DecodeString_def decode_quads_Encode)
qed

lemma EncodeToString_eq_Nil [simp]: "EncodeToString s = [] \<longleftrightarrow> s = []"
  by (induction s rule: EncodeToString.induct) (auto simp: quad_def)

section \<open>The driver\<close>

text \<open>\<^verbatim>\<open>json.Marshal\<close> and \<^verbatim>\<open>json.Unmarshal\<close> of an \<^verbatim>\<open>EncryptedInfo\<close>.\<close>

record json_api =
  Marshal :: "EncryptedInfo \<Rightarrow> string res"
  Unmarshal :: "string \<Rightarrow> EncryptedInfo res"

definition json_law :: "json_api \<Rightarrow> bool" where
  "json_law js \<longleftrightarrow> (\<forall>i v. Marshal js i = Inr v \<longrightarrow> v \<noteq> [] \<and> Unmarshal js v = Inr i)"

record SecureStringDriver =
  rawText :: string
  encryptedInfo :: "EncryptedInfo option"

definition NewSecureStringDriver :: "string \<Rightarrow> SecureStringDriver" where
  "NewSecureStringDriver raw = \<lparr>rawText = raw, encryptedInfo = None\<rparr>"

definition zero_driver :: SecureStringDriver where
  "zero_driver = NewSecureStringDriver []"

text \<open>A value as the database layer hands it to \<^verbatim>\<open>Scan\<close>.\<close>

datatype db_value = DbNil | DbBytes string | DbString string | DbOther

definition Scan :: "json_api \<Rightarrow> SecureStringDriver \<Rightarrow> db_value \<Rightarrow> gerror option \<times> SecureStringDriver" where
  "Scan js s value =
     (case value of
        DbNil \<Rightarrow> (None, s)
      | DbOther \<Rightarrow> (Some (Errorf ''encrypt: Scan source is not string or []byte''), s)
      | _ \<Rightarrow>
          (let rawTextStr = (case value of DbBytes b \<Rightarrow> b | DbString t \<Rightarrow> t | _ \<Rightarrow> []) in
           if rawTextStr = [] then (None, s)
           else (case DecodeString rawTextStr of
                   Inl _ \<Rightarrow> (Some (Errorf ''encrypt: Scan source is not base64 encoded string''), s)
                 | Inr blob \<Rightarrow>
                     (case Unmarshal js blob of
                        Inl _ \<Rightarrow> (Some (Errorf ''encrypt: Scan source is not json securestring''), s)
                      | Inr ei \<Rightarrow> (None, s\<lparr>encryptedInfo := Some ei\<rparr>)))))"

text \<open>
  The calls of \<^verbatim>\<open>Value\<close> and \<^verbatim>\<open>String\<close> work on the driver and on the environment of the KMS client.  The
  result of \<^verbatim>\<open>Value\<close> is \<^verbatim>\<open>nil\<close> (SQL NULL) or a string.  \<open>now\<close> is what the clock reads.
\<close>

definition kms_encrypt_call :: "gcm_api \<Rightarrow> rand_source \<Rightarrow> 'k Kms option \<Rightarrow> go_ctx \<Rightarrow> bytes \<Rightarrow> 'k kms_env \<Rightarrow>
    EncryptedInfo outcome \<times> 'k kms_env" where
  "kms_encrypt_call g rnd kmsClient ctx p e =
     (case kmsClient of None \<Rightarrow> (Panics nil_deref, e) | Some k \<Rightarrow> Kms_Encrypt g rnd k ctx p e)"

definition kms_decrypt_call :: "gcm_api \<Rightarrow> 'k Kms option \<Rightarrow> go_ctx \<Rightarrow> EncryptedInfo \<Rightarrow> 'k kms_env \<Rightarrow>
    bytes outcome \<times> 'k kms_env" where
  "kms_decrypt_call g kmsClient ctx i e =
     (case kmsClient of None \<Rightarrow> (Panics nil_deref, e) | Some k \<Rightarrow> Kms_Decrypt g k ctx i e)"

definition marshal_value :: "json_api \<Rightarrow> EncryptedInfo \<Rightarrow> string option outcome" where
  "marshal_value js ei =
     (case Marshal js ei of
        Inl err \<Rightarrow> Returns (Inl err)
      | Inr v \<Rightarrow> Returns (Inr (Some (EncodeToString v))))"

definition Value :: "json_api \<Rightarrow> gcm_api \<Rightarrow> rand_source \<Rightarrow> 'k Kms option \<Rightarrow> int \<Rightarrow> SecureStringDriver \<Rightarrow> 'k kms_env \<Rightarrow>
    string option outcome \<times> SecureStringDriver \<times> 'k kms_env" where
  "Value js g rnd kmsClient now s e =
     (if rawText s = [] then (Returns (Inr None), s, e)
      else (case encryptedInfo s of
              None \<Rightarrow>
                (let ctx = WithTimeout background now (10 * second) in
                 case kms_encrypt_call g rnd kmsClient ctx (rawText s) e of
                   (Panics p, e') \<Rightarrow> (Panics p, s, e')
                 | (Returns (Inl err), e') \<Rightarrow> (Returns (Inl err), s, e')
                 | (Returns (Inr ei), e') \<Rightarrow> (marshal_value js ei, s\<lparr>encryptedInfo := Some ei\<rparr>, e'))
            | Some ei \<Rightarrow> (marshal_value js ei, s, e)))"

definition Driver_String :: "gcm_api \<Rightarrow> 'k Kms option \<Rightarrow> int \<Rightarrow> go_ctx \<Rightarrow> SecureStringDriver \<Rightarrow> 'k kms_env \<Rightarrow>
    string outcome \<times> SecureStringDriver \<times> 'k kms_env" where
  "Driver_String g kmsClient now ctx s e =
     (case encryptedInfo s of
        None \<Rightarrow> (Returns (Inr []), s, e)
      | Some ei \<Rightarrow>
          (if rawText s \<noteq> [] then (Returns (Inr (rawText s)), s, e)
           else (let ctx = WithTimeout ctx now (10 * second) in
                 case kms_decrypt_call g kmsClient ctx ei e of
                   (Panics p, e') \<Rightarrow> (Panics p, s, e')
                 | (Returns (Inl err), e') \<Rightarrow> (Returns (Inl err), s, e')
                 | (Returns (Inr plainText), e') \<Rightarrow> (Returns (Inr plainText), s\<lparr>rawText := plainText\<rparr>, e'))))"

section \<open>Properties\<close>

lemma Value_stored:
  assumes "fst (Value js g rnd kmsClient now s e) = Returns (Inr (Some v))" "encryptedInfo s = None"
  obtains k ei j e' where "kmsClient = Some k" "v = EncodeToString j" "Marshal js ei = Inr j"
    "Kms_Encrypt g rnd k (WithTimeout background now (10 * second)) (rawText s) e = (Returns (Inr ei), e')"
    "Value js g rnd kmsClient now s e = (Returns (Inr (Some v)), s\<lparr>encryptedInfo := Some ei\<rparr>, e')"
proof -
  obtain k where k: "kmsClient = Some k"
    using assms by (cases kmsClient) (auto simp: Value_def kms_encrypt_call_def split: if_splits)
  obtain r e' where r: "Kms_Encrypt g rnd k (WithTimeout background now (10 * second)) (rawText s) e = (r, e')"
    by (cases "Kms_Encrypt g rnd k (WithTimeout background now (10 * second)) (rawText s) e")
  obtain ei where ei: "r = Returns (Inr ei)"
    using assms k r
    by (auto simp: Value_def kms_encrypt_call_def split: outcome.splits if_splits sum.splits)
  obtain j where "Marshal js ei = Inr j" "v = EncodeToString j"
    using assms k r ei
    by (auto simp: Value_def kms_encrypt_call_def marshal_value_def split: sum.splits if_splits)
  then show ?thesis using that [OF k] r ei assms k
    by (auto simp: Value_def kms_encrypt_call_def marshal_value_def split: if_splits)
qed

lemma Scan_stored:
  assumes "json_law js" "Marshal js ei = Inr j" "x \<in> {DbBytes (EncodeToString j), DbString (EncodeToString j)}"
  shows "Scan js s x = (None, s\<lparr>encryptedInfo := Some ei\<rparr>)"
  using assms by (auto simp: Scan_def json_law_def)

text \<open>A serialisation of records for the examples.\<close>

definition example_json :: json_api where
  "example_json = \<lparr>
     Marshal = (\<lambda>i. Inr (Join (map EncodeToString
       [(case Provider i of KmsProvider n \<Rightarrow> n), Ciphertext i, IV i, Tag i, WrappedDEK i, KeyVersion i]) '','')),
     Unmarshal = (\<lambda>v. case map DecodeString (Split v CHR '','') of
         [Inr n, Inr c, Inr iv, Inr t, Inr w, Inr kv] \<Rightarrow>
           Inr \<lparr>Provider = KmsProvider n, Ciphertext = c, IV = iv, Tag = t, WrappedDEK = w, KeyVersion = kv\<rparr>
       | _ \<Rightarrow> Inl (Errorf ''bad record''))\<rparr>"

lemma example_json_law: "json_law example_json"
  unfolding json_law_def
proof (intro allI impI)
  fix i v
  assume "Marshal example_json i = Inr v"
  define fs where "fs = map EncodeToString
      [(case Provider i of KmsProvider n \<Rightarrow> n), Ciphertext i, IV i, Tag i, WrappedDEK i, KeyVersion i]"
  have v: "v = Join fs '',''" using \<open>Marshal example_json i = Inr v\<close> by (simp add: example_json_def fs_def)
  have "Split v CHR '','' = fs" unfolding v
    by (rule Split_Join) (use EncodeToString_chars in \<open>auto simp: fs_def\<close>)
  moreover have "v \<noteq> []" by (simp add: v fs_def)
  ultimately show "v \<noteq> [] \<and> Unmarshal example_json v = Inr i"
    by (simp add: example_json_def fs_def split: KmsProvider.split)
qed

lemma example_Value:
  obtains v where "fst (Value example_json example_gcm example_rand (Some example_kms) 0
    (NewSecureStringDriver ''pin'') \<lparr>reads = 0, service = ()\<rparr>) = Returns (Inr (Some v))"
  by (simp add: Value_def kms_encrypt_call_def marshal_value_def NewSecureStringDriver_def Kms_Encrypt_def genDek_def
      RandomString_def rand_Read_def example_rand_def encryptDek_def EncryptWithDEK_def aes_NewCipher_def example_gcm_def
      gcm_Overhead_def example_kms_def aws_provider_def KMS_Encrypt_def example_aws_def Let_def example_json_def)

text \<open>
  C8: a written column reads back.  When \<^verbatim>\<open>Value\<close> of a new, non-empty secure string returned \<open>v\<close>, scanning
  \<open>v\<close> (as bytes or as a string) into an empty driver succeeds and \<^verbatim>\<open>String\<close> then gives the raw text, or the
  error of the service that refused to unwrap the key.
\<close>

theorem secure_string_roundtrip:
  assumes "gcm_law g" and "rand_law rnd" and "aws_law api" and "json_law js"
    and "kms = \<lparr>client = aws_provider api k, provider = kp\<rparr>"
    and "fst (Value js g rnd (Some kms) now (NewSecureStringDriver raw) e) = Returns (Inr (Some v))"
    and "x \<in> {DbBytes v, DbString v}"
  shows "\<exists>ei. Scan js zero_driver x = (None, zero_driver\<lparr>encryptedInfo := Some ei\<rparr>) \<and>
    fst (Driver_String g (Some kms) now' ctx (zero_driver\<lparr>encryptedInfo := Some ei\<rparr>) e'') =
      (case fst (a_Decrypt api (WithTimeout ctx now' (10 * second)) (WrappedDEK ei) (KeyVersion ei) (service e'')) of
         Inl err \<Rightarrow> Returns (Inl err) | Inr _ \<Rightarrow> Returns (Inr raw))"
  using assms(6)
proof (rule Value_stored)
  show "encryptedInfo (NewSecureStringDriver raw) = None" by (simp add: NewSecureStringDriver_def)
next
  fix k' ei j e'
  assume *: "Some kms = Some k'" "v = EncodeToString j" "Marshal js ei = Inr j"
    "Kms_Encrypt g rnd k' (WithTimeout background now (10 * second)) (rawText (NewSecureStringDriver raw)) e = (Returns (Inr ei), e')"
  have "Kms_Encrypt g rnd \<lparr>client = aws_provider api k, provider = kp\<rparr> (WithTimeout background now (10 * second)) raw e = (Returns (Inr ei), e')"
    using *(1,4) assms(5) by (simp add: NewSecureStringDriver_def)
  then have "seals g api ei raw" by (rule Kms_Encrypt_seals [OF _ assms(1-3)])
  from Kms_Decrypt_seals [OF this assms(1), of k kp "WithTimeout ctx now' (10 * second)" e'']
  have "fst (Driver_String g (Some kms) now' ctx (zero_driver\<lparr>encryptedInfo := Some ei\<rparr>) e'') =
      (case fst (a_Decrypt api (WithTimeout ctx now' (10 * second)) (WrappedDEK ei) (KeyVersion ei) (service e'')) of
         Inl err \<Rightarrow> Returns (Inl err) | Inr _ \<Rightarrow> Returns (Inr raw))"
    unfolding assms(5) [symmetric]
    by (cases "Kms_Decrypt g kms (WithTimeout ctx now' (10 * second)) ei e''")
      (auto simp: Driver_String_def kms_decrypt_call_def zero_driver_def NewSecureStringDriver_def split: sum.splits)
  then show ?thesis using Scan_stored [OF assms(4) *(3), of x zero_driver] *(2) assms(7) by blast
qed

theorem secure_string_roundtrip_witness:
  "\<exists>v ei. fst (Value example_json example_gcm example_rand (Some example_kms) 0 (NewSecureStringDriver ''pin'')
       \<lparr>reads = 0, service = ()\<rparr>) = Returns (Inr (Some v)) \<and>
     Scan example_json zero_driver (DbString v) = (None, zero_driver\<lparr>encryptedInfo := Some ei\<rparr>) \<and>
     fst (Driver_String example_gcm (Some example_kms) 0 background (zero_driver\<lparr>encryptedInfo := Some ei\<rparr>)
       \<lparr>reads = 0, service = ()\<rparr>) = Returns (Inr ''pin'')"
proof -
  obtain v where v: "fst (Value example_json example_gcm example_rand (Some example_kms) 0
    (NewSecureStringDriver ''pin'') \<lparr>reads = 0, service = ()\<rparr>) = Returns (Inr (Some v))" by (rule example_Value)
  show ?thesis
    using secure_string_roundtrip [OF example_laws example_json_law example_kms_def v, of "DbString v" 0 background "\<lparr>reads = 0, service = ()\<rparr>"] v
    by (auto simp: example_aws_def)
qed

text \<open>
  Writing is idempotent: a second \<^verbatim>\<open>Value\<close> of a driver that was written returns the same column value and
  calls neither the random source nor the service again.
\<close>

theorem Value_idempotent:
  assumes "Value js g rnd kmsClient now s e = (Returns (Inr v), s', e')"
  shows "Value js g rnd kmsClient now' s' e' = (Returns (Inr v), s', e')"
  using assms
  by (auto simp: Value_def Let_def split: if_splits option.splits prod.splits outcome.splits sum.splits)

theorem Value_idempotent_witness:
  "\<exists>v s e. Value example_json example_gcm example_rand (Some example_kms) 0 (NewSecureStringDriver ''pin'')
       \<lparr>reads = 0, service = ()\<rparr> = (Returns (Inr (Some v)), s, e) \<and>
     Value example_json example_gcm example_rand (Some example_kms) 5 s e = (Returns (Inr (Some v)), s, e)"
proof -
  obtain v where v: "fst (Value example_json example_gcm example_rand (Some example_kms) 0
    (NewSecureStringDriver ''pin'') \<lparr>reads = 0, service = ()\<rparr>) = Returns (Inr (Some v))" by (rule example_Value)
  then obtain s e where "Value example_json example_gcm example_rand (Some example_kms) 0
    (NewSecureStringDriver ''pin'') \<lparr>reads = 0, service = ()\<rparr> = (Returns (Inr (Some v)), s, e)"
    by (metis prod.exhaust_sel)
  then show ?thesis using Value_idempotent by blast
qed

text \<open>
  A row that is read and saved without a call of \<^verbatim>\<open>String\<close> in between loses its secret: after a successful
  \<^verbatim>\<open>Scan\<close> into an empty driver the next \<^verbatim>\<open>Value\<close> is SQL NULL, although the driver holds the encrypted record.
\<close>

theorem scanned_value_is_null:
  assumes "Scan js zero_driver x = (None, s)"
  shows "Value js g rnd kmsClient now s e = (Returns (Inr None), s, e)"
proof -
  have "rawText s = []" using assms
    by (auto simp: Scan_def Let_def zero_driver_def NewSecureStringDriver_def split: db_value.splits if_splits sum.splits)
  then show ?thesis by (simp add: Value_def)
qed

theorem scanned_value_is_null_witness:
  "\<exists>x s. Scan example_json zero_driver x = (None, s) \<and> encryptedInfo s \<noteq> None \<and>
     Value example_json example_gcm example_rand (Some example_kms) 0 s \<lparr>reads = 0, service = ()\<rparr> =
       (Returns (Inr None), s, \<lparr>reads = 0, service = ()\<rparr>)"
proof -
  let ?i = "\<lparr>Provider = AwsKms, Ciphertext = ''c'', IV = ''i'', Tag = ''t'', WrappedDEK = ''w'', KeyVersion = ''k''\<rparr>"
  obtain j where "Marshal example_json ?i = Inr j" by (simp add: example_json_def)
  then have s: "Scan example_json zero_driver (DbString (EncodeToString j)) = (None, zero_driver\<lparr>encryptedInfo := Some ?i\<rparr>)"
    by (intro Scan_stored [OF example_json_law]) auto
  show ?thesis using s scanned_value_is_null [OF s] by fastforce
qed

end
