(* ===== verification/Transaction.thy ===== *)
theory Transaction
  imports Attributes
begin

text \<open>
  Database transactions carried in a context: \<^verbatim>\<open>transaction/transaction.go\<close>.

  The \<^verbatim>\<open>gorm\<close> handle is an argument: its three operations on the state \<^typ>\<open>'d\<close> of the database.  A
  transaction is named by a number, which is what the context holds under \<^verbatim>\<open>transactionKey\<close>
  (\<open>Some None\<close> is a nil handle).  Spans are not modelled; the context they return carries the same values.
\<close>

record 'd db_api =
  db_Begin :: "go_ctx \<Rightarrow> 'd \<Rightarrow> nat \<times> 'd"
  tx_Commit :: "nat \<Rightarrow> 'd \<Rightarrow> gerror option \<times> 'd"
  tx_Rollback :: "nat \<Rightarrow> 'd \<Rightarrow> gerror option \<times> 'd"

section \<open>Operations\<close>

definition GetTx :: "go_ctx \<Rightarrow> nat option" where
  "GetTx ctx = (case tx_value ctx of None \<Rightarrow> None | Some None \<Rightarrow> None | Some (Some t) \<Rightarrow> Some t)"

definition GetTxFromContext :: "go_ctx \<Rightarrow> nat option" where
  "GetTxFromContext ctx = (case tx_value ctx of None \<Rightarrow> None | Some None \<Rightarrow> None | Some (Some t) \<Rightarrow> Some t)"

text \<open>The default handle is not a transaction: the result is a transaction or that handle.\<close>

definition GetTxFromContextOrDefault :: "go_ctx \<Rightarrow> 'h \<Rightarrow> 'h + nat" where
  "GetTxFromContextOrDefault ctx db = (case GetTxFromContext ctx of None \<Rightarrow> Inl db | Some t \<Rightarrow> Inr t)"

definition WithTransaction :: "'d db_api \<Rightarrow> go_ctx \<Rightarrow> 'd \<Rightarrow> (go_ctx \<times> nat) \<times> 'd" where
  "WithTransaction api ctx d =
     (case db_Begin api background d of (tx, d') \<Rightarrow> ((ctx\<lparr>tx_value := Some (Some tx)\<rparr>, tx), d'))"

definition Rollback :: "'d db_api \<Rightarrow> go_ctx \<Rightarrow> 'd \<Rightarrow> gerror option \<times> 'd" where
  "Rollback api ctx d =
     (case GetTx ctx of
        None \<Rightarrow> (Some (Errorf ''transaction not found''), d)
      | Some tx \<Rightarrow>
          (case tx_Rollback api tx d of
             (Some _, d') \<Rightarrow> (Some (Errorf ''failed to rollback transaction''), d')
           | (None, d') \<Rightarrow> (None, d')))"

definition Commit :: "'d db_api \<Rightarrow> go_ctx \<Rightarrow> 'd \<Rightarrow> gerror option \<times> 'd" where
  "Commit api ctx d =
     (case GetTx ctx of
        None \<Rightarrow> (Some (Errorf ''transaction not found''), d)
      | Some tx \<Rightarrow>
          (case ctx_err ctx of
             Some e \<Rightarrow> (Some e, snd (tx_Rollback api tx d))
           | None \<Rightarrow>
               (case tx_Commit api tx d of
                  (Some _, d') \<Rightarrow> (Some (Errorf ''failed to commit transaction''), snd (tx_Rollback api tx d'))
                | (None, d') \<Rightarrow> (None, d'))))"

definition BeginTransaction :: "'d db_api \<Rightarrow> go_ctx \<Rightarrow> 'd \<Rightarrow> go_ctx \<times> 'd" where
  "BeginTransaction api ctx d =
     (case db_Begin api ctx d of (tx, d') \<Rightarrow> (ctx\<lparr>tx_value := Some (Some tx)\<rparr>, d'))"

text \<open>
  The function that \<^verbatim>\<open>BeginTransaction\<close> returns beside the context: \<open>panicking\<close> is that \<^verbatim>\<open>recover()\<close> returns a
  value, \<open>newCtx\<close> the context as it is at the time of the call (it may have been cancelled since).
\<close>

definition CancelTransactionFunc :: "'d db_api \<Rightarrow> go_ctx \<Rightarrow> bool \<Rightarrow> gerror option \<Rightarrow> 'd \<Rightarrow> gerror option \<times> 'd" where
  "CancelTransactionFunc api newCtx panicking err d =
     (if panicking \<or> err \<noteq> None then
        (case Rollback api newCtx d of
           (_, d') \<Rightarrow> (case err of Some e \<Rightarrow> (Some e, d') | None \<Rightarrow> (Some (Errorf ''occurred panic''), d')))
      else
        (case Commit api newCtx d of
           (Some e, d') \<Rightarrow> (case Rollback api newCtx d' of (_, d'') \<Rightarrow> (Some e, d''))
         | (None, d') \<Rightarrow> (None, d')))"

section \<open>What the database promises\<close>

datatype tx_status = Unknown | Active | Committed | RolledBack | Broken

text \<open>
  The status of every transaction is a function of the state.  A new transaction is active or broken; a commit
  that reports success makes an active transaction committed; a rollback or a failed commit commits nothing and
  takes nothing committed back; no operation touches another transaction.
\<close>

definition db_law :: "'d db_api \<Rightarrow> ('d \<Rightarrow> nat \<Rightarrow> tx_status) \<Rightarrow> bool" where
  "db_law api status \<longleftrightarrow>
     (\<forall>ctx d t d'. db_Begin api ctx d = (t, d') \<longrightarrow> status d t = Unknown \<and> status d' t \<in> {Active, Broken} \<and>
        (\<forall>u. u \<noteq> t \<longrightarrow> status d' u = status d u)) \<and>
     (\<forall>t d d'. tx_Commit api t d = (None, d') \<longrightarrow> status d t = Active \<and> status d' t = Committed) \<and>
     (\<forall>t d e d'. tx_Commit api t d = (Some e, d') \<longrightarrow> (status d' t = Committed \<longleftrightarrow> status d t = Committed)) \<and>
     (\<forall>t d. status (snd (tx_Rollback api t d)) t = Committed \<longleftrightarrow> status d t = Committed) \<and>
     (\<forall>t d d'. tx_Rollback api t d = (None, d') \<longrightarrow> status d t = Active \<and> status d' t = RolledBack) \<and>
     (\<forall>t d u. u \<noteq> t \<longrightarrow> status (snd (tx_Commit api t d)) u = status d u \<and> status (snd (tx_Rollback api t d)) u = status d u)"

lemma db_lawD:
  assumes "db_law api status"
  shows "tx_Commit api t d = (None, d') \<Longrightarrow> status d' t = Committed"
    and "tx_Commit api t d = (Some e, d') \<Longrightarrow> status d' t = Committed \<longleftrightarrow> status d t = Committed"
    and "status (snd (tx_Rollback api t d)) t = Committed \<longleftrightarrow> status d t = Committed"
    and "u \<noteq> t \<Longrightarrow> status (snd (tx_Commit api t d)) u = status d u"
    and "u \<noteq> t \<Longrightarrow> status (snd (tx_Rollback api t d)) u = status d u"
  using assms unfolding db_law_def by blast+

lemma Rollback_status:
  assumes "db_law api status" "GetTx ctx = Some t"
  shows "status (snd (Rollback api ctx d)) t = Committed \<longleftrightarrow> status d t = Committed"
    and "u \<noteq> t \<Longrightarrow> status (snd (Rollback api ctx d)) u = status d u"
proof -
  have "snd (Rollback api ctx d) = snd (tx_Rollback api t d)"
    using assms(2) by (auto simp: Rollback_def split: prod.splits option.splits)
  then show "status (snd (Rollback api ctx d)) t = Committed \<longleftrightarrow> status d t = Committed"
    and "u \<noteq> t \<Longrightarrow> status (snd (Rollback api ctx d)) u = status d u"
    using db_lawD(3,5) [OF assms(1)] by simp_all
qed

lemma Commit_status:
  assumes law: "db_law api status" and t: "GetTx ctx = Some t" and c: "Commit api ctx d = (r, d')" and nc: "status d t \<noteq> Committed"
  shows "r = None \<longleftrightarrow> status d' t = Committed" and "u \<noteq> t \<Longrightarrow> status d' u = status d u"
proof -
  obtain q x where q: "tx_Commit api t d = (q, x)" by (cases "tx_Commit api t d")
  have x: "q = None \<longleftrightarrow> status x t = Committed" "u \<noteq> t \<Longrightarrow> status x u = status d u"
    using db_lawD(1,2) [OF law, where t = t and d = d and d' = x] db_lawD(4) [OF law, of u t d] q nc by (cases q; simp)+
  show "r = None \<longleftrightarrow> status d' t = Committed" and "u \<noteq> t \<Longrightarrow> status d' u = status d u"
    using c t q x nc db_lawD(3,5) [OF law] by (cases "ctx_err ctx"; cases q; auto simp: Commit_def)+
qed

text \<open>A database for the examples: statuses by number, and the next number.\<close>

definition example_db :: "(nat \<times> (nat \<Rightarrow> tx_status)) db_api" where
  "example_db = \<lparr>
     db_Begin = (\<lambda>_ (n, st). (n, Suc n, st(n := Active))),
     tx_Commit = (\<lambda>t (n, st). if t < n \<and> st t = Active then (None, n, st(t := Committed)) else (Some (Errorf ''tx done''), n, st)),
     tx_Rollback = (\<lambda>t (n, st). if t < n \<and> st t = Active then (None, n, st(t := RolledBack)) else (Some (Errorf ''tx done''), n, st))\<rparr>"

definition example_status :: "nat \<times> (nat \<Rightarrow> tx_status) \<Rightarrow> nat \<Rightarrow> tx_status" where
  "example_status d t = (if t < fst d then snd d t else Unknown)"

section \<open>Properties\<close>

text \<open>
  C9: the function returned by \<^verbatim>\<open>BeginTransaction\<close> decides the transaction.  Its result is \<^verbatim>\<open>nil\<close> exactly
  when the transaction ends up committed; after an error or a panic of the caller it never is, and the caller's own
  error is returned; no other transaction is touched.
\<close>

theorem CancelTransactionFunc_atomic:
  assumes "db_law api status" and "GetTx newCtx = Some t" and "status d t \<noteq> Committed"
    and "CancelTransactionFunc api newCtx panicking err d = (r, d')"
  shows "(r = None \<longleftrightarrow> status d' t = Committed) \<and> (panicking \<or> err \<noteq> None \<longrightarrow> r \<noteq> None) \<and>
    (err \<noteq> None \<longrightarrow> r = err) \<and> (u \<noteq> t \<longrightarrow> status d' u = status d u)"
proof (cases "panicking \<or> err \<noteq> None")
  case True
  then have "d' = snd (Rollback api newCtx d)" "r \<noteq> None" "err \<noteq> None \<Longrightarrow> r = err"
    using assms(4) by (auto simp: CancelTransactionFunc_def split: prod.splits option.splits)
  then show ?thesis using Rollback_status [OF assms(1,2)] assms(3) by blast
next
  case False
  obtain q x where q: "Commit api newCtx d = (q, x)" by (cases "Commit api newCtx d")
  then have "r = q" "d' = (case q of None \<Rightarrow> x | Some _ \<Rightarrow> snd (Rollback api newCtx x))"
    using assms(4) False by (auto simp: CancelTransactionFunc_def split: prod.splits option.splits)
  then show ?thesis
    using Commit_status [OF assms(1,2) q assms(3)] Rollback_status [OF assms(1,2), where d = x] False by (cases q) auto
qed

theorem CancelTransactionFunc_atomic_witness:
  "\<exists>ctx d d'. BeginTransaction example_db background (0, \<lambda>_. Unknown) = (ctx, d) \<and>
     CancelTransactionFunc example_db ctx False None d = (None, d') \<and> example_status d' 0 = Committed"
proof -
  have law: "db_law example_db example_status"
    unfolding db_law_def example_db_def example_status_def
    by (auto split: if_splits prod.splits)
  obtain ctx d where b: "BeginTransaction example_db background (0, \<lambda>_. Unknown) = (ctx, d)" by (cases "BeginTransaction example_db background (0, \<lambda>_. Unknown)")
  obtain r d' where c: "CancelTransactionFunc example_db ctx False None d = (r, d')" by (cases "CancelTransactionFunc example_db ctx False None d")
  have "GetTx ctx = Some 0" "example_status d 0 \<noteq> Committed" "r = None"
    using b c by (auto simp: BeginTransaction_def example_db_def GetTx_def example_status_def CancelTransactionFunc_def Commit_def background_def)
  then show ?thesis using CancelTransactionFunc_atomic [OF law _ _ c] b c by blast
qed

text \<open>
  A context that was cancelled or timed out after \<^verbatim>\<open>BeginTransaction\<close> is not committed: \<^verbatim>\<open>Commit\<close>
  returns the error of the context without trying, and an active transaction is rolled back.
\<close>

theorem Commit_cancelled:
  assumes "BeginTransaction api ctx d0 = (newCtx, d1)" and "ctx_err newCtx' = Some e" and "tx_value newCtx' = tx_value newCtx"
  shows "\<exists>t. GetTx newCtx' = Some t \<and> Commit api newCtx' d = (Some e, snd (tx_Rollback api t d))"
  using assms by (auto simp: BeginTransaction_def Commit_def GetTx_def split: prod.splits)

theorem Commit_cancelled_witness:
  "\<exists>ctx d. BeginTransaction example_db background (0, \<lambda>_. Unknown) = (ctx, d) \<and>
     fst (Commit example_db (ctx\<lparr>ctx_err := Some DeadlineExceeded\<rparr>) d) = Some DeadlineExceeded"
proof -
  obtain ctx d where b: "BeginTransaction example_db background (0, \<lambda>_. Unknown) = (ctx, d)"
    by (cases "BeginTransaction example_db background (0, \<lambda>_. Unknown)")
  then show ?thesis
    using Commit_cancelled [OF b, of "ctx\<lparr>ctx_err := Some DeadlineExceeded\<rparr>" DeadlineExceeded d] by auto
qed

end
