(* ===== verification/Spans.thy ===== *)
theory Spans
  imports Kms Transaction Telemetry
begin

text \<open>
  The spans around the operations of the KMS (\<^verbatim>\<open>startSpan\<close> of \<^verbatim>\<open>kms/main.go\<close> and \<^verbatim>\<open>kms/aws/aws_kms.go\<close>) and of transactions
  (\<^verbatim>\<open>StartSpan\<close> of \<^verbatim>\<open>transaction/transaction.go\<close>), and the helper \<^verbatim>\<open>helper/tracing/tracing.go\<close>.

  The theories of the KMS and of transactions leave spans out.  Here the same operations are written with their spans; they are shown to do the
  same without them, and to end every span they start, in the order of nesting, also when they panic (the code ends spans with \<^verbatim>\<open>defer\<close>).
  A tracer of the SDK is named by its service and numbers its spans; the context that carries a span is otherwise the one it was made from.
\<close>

section \<open>Spans\<close>

datatype span_event = SpanStart nat string | SpanAttributes nat "(string \<times> string) list" | SpanEnd nat

record tracer_log =
  next_span :: nat
  events :: "span_event list"

text \<open>The tracer that the constructors take: none unless tracing is enabled.\<close>

type_synonym tracer = "string option"

definition tracer_of :: "TracingConfig \<Rightarrow> tracer" where
  "tracer_of tc = (if IsEnableTracing tc then Some (ServiceName tc) else None)"

definition startSpan :: "tracer \<Rightarrow> string \<Rightarrow> tracer_log \<Rightarrow> nat option \<times> tracer_log" where
  "startSpan tr name l =
     (case tr of
        None \<Rightarrow> (None, l)
      | Some _ \<Rightarrow> (Some (next_span l), \<lparr>next_span = next_span l + 1, events = events l @ [SpanStart (next_span l) name]\<rparr>))"

definition StartSpan :: "tracer \<Rightarrow> string \<Rightarrow> (string \<times> string) list \<Rightarrow> tracer_log \<Rightarrow> nat option \<times> tracer_log" where
  "StartSpan tr name attrs l =
     (case startSpan tr name l of
        (None, l') \<Rightarrow> (None, l')
      | (Some n, l') \<Rightarrow> (Some n, if attrs \<noteq> [] then l'\<lparr>events := events l' @ [SpanAttributes n attrs]\<rparr> else l'))"

text \<open>The helper asks the global configuration each time.\<close>

definition helper_StartSpan :: "TracingConfig \<Rightarrow> string \<Rightarrow> (string \<times> string) list \<Rightarrow> tracer_log \<Rightarrow> nat option \<times> tracer_log" where
  "helper_StartSpan tc name attrs l = (if IsEnableTracing tc then StartSpan (Some (ServiceName tc)) name attrs l else (None, l))"

definition end_span :: "nat option \<Rightarrow> tracer_log \<Rightarrow> tracer_log" where
  "end_span sp l = (case sp of None \<Rightarrow> l | Some n \<Rightarrow> l\<lparr>events := events l @ [SpanEnd n]\<rparr>)"

text \<open>A body between the start of a span and the deferred end, on a state beside the log; an operation that makes no spans.\<close>

definition with_span :: "tracer \<Rightarrow> string \<Rightarrow> ('s \<times> tracer_log \<Rightarrow> 'r \<times> 's \<times> tracer_log) \<Rightarrow> 's \<times> tracer_log \<Rightarrow> 'r \<times> 's \<times> tracer_log" where
  "with_span tr name body = (\<lambda>(s, l).
     (case StartSpan tr name [] l of
        (sp, l1) \<Rightarrow> (case body (s, l1) of (r, s', l2) \<Rightarrow> (r, s', end_span sp l2))))"

definition quiet :: "('s \<Rightarrow> 'r \<times> 's) \<Rightarrow> 's \<times> tracer_log \<Rightarrow> 'r \<times> 's \<times> tracer_log" where
  "quiet f = (\<lambda>(s, l). (case f s of (r, s') \<Rightarrow> (r, s', l)))"

section \<open>The KMS\<close>

text \<open>The provider with its spans: its state is that of the service and the log.\<close>

definition traced_provider :: "tracer \<Rightarrow> 'k aws_api \<Rightarrow> KMS \<Rightarrow> ('k \<times> tracer_log) kms_provider" where
  "traced_provider tr api k =
     \<lparr>p_Encrypt = (\<lambda>ctx pt. with_span tr ''kms.encrypt'' (quiet (KMS_Encrypt api k ctx pt))),
      p_Decrypt = (\<lambda>ctx kid dek. with_span tr ''kms.decrypt'' (quiet (KMS_Decrypt api k ctx kid dek))),
      p_DescribeKey = (\<lambda>ctx kid. with_span tr ''kms.describe-key'' (quiet (KMS_DescribeKey api k ctx kid))),
      p_ReEncrypt = (\<lambda>ctx kid dek. with_span tr ''kms.re-encrypt'' (quiet (KMS_ReEncrypt api k ctx kid dek)))\<rparr>"

text \<open>The front end, on the environment with the state of the provider.\<close>

type_synonym 'k traced_env = "('k \<times> tracer_log) kms_env"

definition env_span :: "tracer \<Rightarrow> string \<Rightarrow> ('k traced_env \<Rightarrow> 'r \<times> 'k traced_env) \<Rightarrow> 'k traced_env \<Rightarrow> 'r \<times> 'k traced_env" where
  "env_span tr name body e =
     (case startSpan tr name (snd (service e)) of
        (sp, l1) \<Rightarrow>
          (case body (e\<lparr>service := (fst (service e), l1)\<rparr>) of
             (r, e') \<Rightarrow> (r, e'\<lparr>service := (fst (service e'), end_span sp (snd (service e')))\<rparr>)))"

definition genDek_traced :: "tracer \<Rightarrow> rand_source \<Rightarrow> 'k traced_env \<Rightarrow> bytes res \<times> 'k traced_env" where
  "genDek_traced tr rnd = env_span tr ''generate.data.encryption.key'' (genDek rnd)"

definition encryptDek_traced :: "tracer \<Rightarrow> gcm_api \<Rightarrow> rand_source \<Rightarrow> bytes \<Rightarrow> bytes \<Rightarrow> 'k traced_env \<Rightarrow> (bytes \<times> bytes \<times> bytes) res \<times> 'k traced_env" where
  "encryptDek_traced tr g rnd dek plainText = env_span tr ''encrypt.dek'' (encryptDek g rnd dek plainText)"

definition Encrypt_traced :: "tracer \<Rightarrow> gcm_api \<Rightarrow> rand_source \<Rightarrow> ('k \<times> tracer_log) Kms \<Rightarrow> go_ctx \<Rightarrow> bytes \<Rightarrow> 'k traced_env
    \<Rightarrow> EncryptedInfo outcome \<times> 'k traced_env" where
  "Encrypt_traced tr g rnd k ctx plainText = env_span tr ''encrypt'' (\<lambda>e.
     case genDek_traced tr rnd e of
        (Inl err, e1) \<Rightarrow> (Returns (Inl err), e1)
      | (Inr dek, e1) \<Rightarrow>
          (case encryptDek_traced tr g rnd dek plainText e1 of
             (Inl err, e2) \<Rightarrow> (Returns (Inl err), e2)
           | (Inr (cipherText, iv, tag), e2) \<Rightarrow>
               (case p_Encrypt (client k) ctx dek (service e2) of
                  (r, s) \<Rightarrow>
                    (out_bind r (\<lambda>(wrappedDek, keyVersion). Returns (Inr
                       \<lparr>Provider = provider k, Ciphertext = cipherText, IV = iv, Tag = tag,
                        WrappedDEK = wrappedDek, KeyVersion = keyVersion\<rparr>)), e2\<lparr>service := s\<rparr>))))"

definition Decrypt_traced :: "tracer \<Rightarrow> gcm_api \<Rightarrow> ('k \<times> tracer_log) Kms \<Rightarrow> go_ctx \<Rightarrow> EncryptedInfo \<Rightarrow> 'k traced_env \<Rightarrow> bytes outcome \<times> 'k traced_env" where
  "Decrypt_traced tr g k ctx i = env_span tr ''decrypt'' (Kms_Decrypt g k ctx i)"

definition DescribeKey_traced :: "tracer \<Rightarrow> ('k \<times> tracer_log) Kms \<Rightarrow> go_ctx \<Rightarrow> string \<Rightarrow> 'k traced_env \<Rightarrow> string outcome \<times> 'k traced_env" where
  "DescribeKey_traced tr k ctx kid = env_span tr ''describe-key'' (Kms_DescribeKey k ctx kid)"

definition ReEncrypt_traced :: "tracer \<Rightarrow> ('k \<times> tracer_log) Kms \<Rightarrow> go_ctx \<Rightarrow> EncryptedInfo \<Rightarrow> 'k traced_env \<Rightarrow> EncryptedInfo outcome \<times> 'k traced_env" where
  "ReEncrypt_traced tr k ctx oldData = env_span tr ''re-encrypt'' (Kms_ReEncrypt k ctx oldData)"

section \<open>Transactions\<close>

definition Begin_traced :: "tracer \<Rightarrow> 'd db_api \<Rightarrow> go_ctx \<Rightarrow> 'd \<times> tracer_log \<Rightarrow> go_ctx \<times> 'd \<times> tracer_log" where
  "Begin_traced tr api ctx = with_span tr ''BeginTransaction'' (quiet (BeginTransaction api ctx))"

definition Commit_traced :: "tracer \<Rightarrow> 'd db_api \<Rightarrow> go_ctx \<Rightarrow> 'd \<times> tracer_log \<Rightarrow> gerror option \<times> 'd \<times> tracer_log" where
  "Commit_traced tr api ctx = with_span tr ''Commit'' (quiet (Commit api ctx))"

definition Rollback_traced :: "tracer \<Rightarrow> 'd db_api \<Rightarrow> go_ctx \<Rightarrow> 'd \<times> tracer_log \<Rightarrow> gerror option \<times> 'd \<times> tracer_log" where
  "Rollback_traced tr api ctx = with_span tr ''Rollback'' (quiet (Rollback api ctx))"

definition Cancel_traced :: "tracer \<Rightarrow> 'd db_api \<Rightarrow> go_ctx \<Rightarrow> bool \<Rightarrow> gerror option \<Rightarrow> 'd \<times> tracer_log \<Rightarrow> gerror option \<times> 'd \<times> tracer_log" where
  "Cancel_traced tr api newCtx panicking err s =
     (if panicking \<or> err \<noteq> None then
        (case Rollback_traced tr api newCtx s of
           (_, s') \<Rightarrow> (case err of Some e \<Rightarrow> (Some e, s') | None \<Rightarrow> (Some (Errorf ''occurred panic''), s')))
      else
        (case Commit_traced tr api newCtx s of
           (Some e, s') \<Rightarrow> (case Rollback_traced tr api newCtx s' of (_, s'') \<Rightarrow> (Some e, s''))
         | (None, s') \<Rightarrow> (None, s')))"

section \<open>Properties\<close>

text \<open>The events of a log are well nested over a stack of open spans when every end is that of the innermost open span and none stays open.\<close>

fun nested :: "nat list \<Rightarrow> span_event list \<Rightarrow> bool" where
  "nested st [] = (st = [])"
| "nested st (SpanStart n _ # es) = nested (n # st) es"
| "nested st (SpanAttributes n _ # es) = (n \<in> set st \<and> nested st es)"
| "nested [] (SpanEnd n # es) = False"
| "nested (m # st) (SpanEnd n # es) = (m = n \<and> nested st es)"

lemma nested_weaken: "nested st xs \<Longrightarrow> nested st' ys \<Longrightarrow> nested (st @ st') (xs @ ys)"
  by (induction st xs rule: nested.induct) auto

lemma nested_append: "nested [] xs \<Longrightarrow> nested st ys \<Longrightarrow> nested st (xs @ ys)"
  using nested_weaken [of "[]" xs st ys] by simp

text \<open>An extension of a log by well-nested events; without a tracer there are none.\<close>

definition extends :: "tracer_log \<Rightarrow> tracer_log \<Rightarrow> bool" where
  "extends l l' \<longleftrightarrow> (\<exists>es. events l' = events l @ es \<and> nested [] es)"

lemma extends_refl [simp]: "extends l l"
  by (simp add: extends_def)

lemma extends_trans: "extends l1 l2 \<Longrightarrow> extends l2 l3 \<Longrightarrow> extends l1 l3"
  unfolding extends_def by (metis append.assoc nested_append)

lemma extends_span:
  assumes "startSpan tr name l = (sp, l1)" and "extends l1 l2"
  shows "extends l (end_span sp l2)"
proof (cases tr)
  case (Some t)
  obtain es where es: "events l2 = events l1 @ es" "nested [] es" using assms(2) by (auto simp: extends_def)
  have "nested [] (SpanStart n name # es @ [SpanEnd n])" for n using nested_append [OF es(2), of "[n]" "[SpanEnd n]"] by simp
  then show ?thesis using assms(1) es(1) Some by (auto simp: startSpan_def extends_def end_span_def)
qed (use assms in \<open>auto simp: startSpan_def end_span_def\<close>)

text \<open>
  The contract of an operation with spans over one without: the same result and the same state beside the log, which it extends by
  well-nested spans.
\<close>

locale spanned =
  fixes traced :: "'s \<times> tracer_log \<Rightarrow> 'r \<times> 's \<times> tracer_log" and plain :: "'s \<Rightarrow> 'r \<times> 's"
  assumes refines: "traced (s, l) = (r, s', l') \<Longrightarrow> plain s = (r, s')"
    and tidy: "traced (s, l) = (r, s', l') \<Longrightarrow> extends l l'"

context spanned
begin

lemma span_around: "spanned (with_span tr name traced) plain"
proof
  fix s l r s' l'
  assume w: "with_span tr name traced (s, l) = (r, s', l')"
  obtain sp l1 where sp: "startSpan tr name l = (sp, l1)" by fastforce
  obtain q t l2 where t: "traced (s, l1) = (q, t, l2)" by (cases "traced (s, l1)") auto
  have "StartSpan tr name [] l = (sp, l1)" using sp by (auto simp: StartSpan_def split: option.splits)
  then have "r = q" "s' = t" "l' = end_span sp l2" using w t by (auto simp: with_span_def)
  then show "plain s = (r, s')" and "extends l l'" using refines [OF t] extends_span [OF sp tidy [OF t]] by simp_all
qed

end

lemma spanned_quiet: "spanned (quiet f) f"
  by unfold_locales (auto simp: quiet_def split: prod.splits)

lemma spanned_call: "spanned (with_span tr name (quiet f)) f"
  by (rule spanned.span_around [OF spanned_quiet])

interpretation commit: spanned "Commit_traced tr api ctx" "Commit api ctx" for tr api ctx
  unfolding Commit_traced_def by (rule spanned_call)

interpretation rollback: spanned "Rollback_traced tr api ctx" "Rollback api ctx" for tr api ctx
  unfolding Rollback_traced_def by (rule spanned_call)

interpretation begin_tx: spanned "Begin_traced tr api ctx" "BeginTransaction api ctx" for tr api ctx
  unfolding Begin_traced_def by (rule spanned_call)

interpretation cancel: spanned "Cancel_traced tr api ctx panicking err" "CancelTransactionFunc api ctx panicking err" for tr api ctx panicking err
proof
  fix d l r d' l'
  assume c: "Cancel_traced tr api ctx panicking err (d, l) = (r, d', l')"
  obtain q1 d1 l1 where rb: "Rollback_traced tr api ctx (d, l) = (q1, d1, l1)" by (cases "Rollback_traced tr api ctx (d, l)") auto
  obtain q2 d2 l2 where cm: "Commit_traced tr api ctx (d, l) = (q2, d2, l2)" by (cases "Commit_traced tr api ctx (d, l)") auto
  obtain q3 d3 l3 where rc: "Rollback_traced tr api ctx (d2, l2) = (q3, d3, l3)" by (cases "Rollback_traced tr api ctx (d2, l2)") auto
  note facts = rollback.refines [OF rb] rollback.tidy [OF rb] commit.refines [OF cm] commit.tidy [OF cm] rollback.refines [OF rc] rollback.tidy [OF rc]
  show "CancelTransactionFunc api ctx panicking err d = (r, d')" and "extends l l'"
    using c rb cm rc facts extends_trans [of l l2 l3]
    by (auto simp: Cancel_traced_def CancelTransactionFunc_def split: option.splits if_splits)
qed

text \<open>The same contract for the front end of the KMS, whose log is a part of its environment.\<close>

definition strip :: "'k traced_env \<Rightarrow> 'k kms_env" where
  "strip e = \<lparr>reads = reads e, service = fst (service e)\<rparr>"

definition env_spanned :: "('k traced_env \<Rightarrow> 'r \<times> 'k traced_env) \<Rightarrow> ('k kms_env \<Rightarrow> 'r \<times> 'k kms_env) \<Rightarrow> bool" where
  "env_spanned traced plain \<longleftrightarrow>
     (\<forall>e r e'. traced e = (r, e') \<longrightarrow> plain (strip e) = (r, strip e') \<and> extends (snd (service e)) (snd (service e')))"

lemma env_spanned_around:
  assumes "env_spanned traced plain"
  shows "env_spanned (env_span tr name traced) plain"
  unfolding env_spanned_def
proof (intro allI impI)
  fix e r e'
  assume w: "env_span tr name traced e = (r, e')"
  obtain sp l1 where sp: "startSpan tr name (snd (service e)) = (sp, l1)" by fastforce
  define e0 where "e0 = e\<lparr>service := (fst (service e), l1)\<rparr>"
  obtain q e1 where t: "traced e0 = (q, e1)" by fastforce
  have r: "r = q" "e' = e1\<lparr>service := (fst (service e1), end_span sp (snd (service e1)))\<rparr>"
    using w sp t by (auto simp: env_span_def e0_def)
  have "plain (strip e0) = (q, strip e1)" "extends (snd (service e0)) (snd (service e1))"
    using assms t unfolding env_spanned_def by blast+
  moreover have "strip e0 = strip e" "strip e' = strip e1" using r by (simp_all add: e0_def strip_def)
  ultimately show "plain (strip e) = (r, strip e') \<and> extends (snd (service e)) (snd (service e'))"
    using r extends_span [OF sp, of "snd (service e1)"] by (simp add: e0_def)
qed

lemma genDek_spanned: "env_spanned (genDek rnd) (genDek rnd)"
  by (auto simp: env_spanned_def genDek_def strip_def split: prod.splits sum.splits)

lemma encryptDek_spanned: "env_spanned (encryptDek g rnd dek p) (encryptDek g rnd dek p)"
  by (auto simp: env_spanned_def encryptDek_def strip_def split: prod.splits sum.splits)

text \<open>A call of the provider from the front end.\<close>

lemma provider_call:
  assumes "spanned (f :: 'k \<times> tracer_log \<Rightarrow> 'r outcome \<times> 'k \<times> tracer_log) f0"
  shows "env_spanned (\<lambda>e. case f (service e) of (r, s) \<Rightarrow> (out_bind r h, e\<lparr>service := s\<rparr>))
    (\<lambda>e. case f0 (service e) of (r, s) \<Rightarrow> (out_bind r h, e\<lparr>service := s\<rparr>))"
  unfolding env_spanned_def
proof (intro allI impI)
  fix e :: "'k traced_env" and r e'
  assume a: "(case f (service e) of (r, s) \<Rightarrow> (out_bind r h, e\<lparr>service := s\<rparr>)) = (r, e')"
  obtain q s l where f: "f (fst (service e), snd (service e)) = (q, s, l)" by (cases "f (fst (service e), snd (service e))") auto
  then show "(case f0 (service (strip e)) of (r, s) \<Rightarrow> (out_bind r h, (strip e)\<lparr>service := s\<rparr>)) = (r, strip e') \<and>
      extends (snd (service e)) (snd (service e'))"
    using spanned.refines [OF assms f] spanned.tidy [OF assms f] a by (auto simp: strip_def)
qed

lemma env_spanned_seq:
  assumes "env_spanned m m0" and "\<And>x. env_spanned (f x) (f0 x)"
  shows "env_spanned (\<lambda>e. case m e of (Inl err, e1) \<Rightarrow> (Returns (Inl err), e1) | (Inr x, e1) \<Rightarrow> f x e1)
    (\<lambda>e. case m0 e of (Inl err, e1) \<Rightarrow> (Returns (Inl err), e1) | (Inr x, e1) \<Rightarrow> f0 x e1)"
  unfolding env_spanned_def
proof (intro allI impI)
  fix e r e'
  assume a: "(case m e of (Inl err, e1) \<Rightarrow> (Returns (Inl err), e1) | (Inr x, e1) \<Rightarrow> f x e1) = (r, e')"
  obtain q e1 where m: "m e = (q, e1)" by fastforce
  then have m0: "m0 (strip e) = (q, strip e1)" "extends (snd (service e)) (snd (service e1))" using assms(1) unfolding env_spanned_def by blast+
  show "(case m0 (strip e) of (Inl err, e1) \<Rightarrow> (Returns (Inl err), e1) | (Inr x, e1) \<Rightarrow> f0 x e1) = (r, strip e') \<and>
      extends (snd (service e)) (snd (service e'))"
  proof (cases q)
    case (Inr x)
    then have "f0 x (strip e1) = (r, strip e') \<and> extends (snd (service e1)) (snd (service e'))"
      using a m assms(2) [of x] unfolding env_spanned_def by simp
    then show ?thesis using Inr m0 extends_trans by auto
  qed (use a m m0 in auto)
qed

text \<open>A client of the AWS provider with its spans, and one without.\<close>

definition traced_kms :: "tracer \<Rightarrow> 'k aws_api \<Rightarrow> KMS \<Rightarrow> ('k \<times> tracer_log) Kms" where
  "traced_kms tr api c = \<lparr>client = traced_provider tr api c, provider = AwsKms\<rparr>"

definition plain_kms :: "'k aws_api \<Rightarrow> KMS \<Rightarrow> 'k Kms" where
  "plain_kms api c = \<lparr>client = aws_provider api c, provider = AwsKms\<rparr>"

text \<open>
  C28: The spans of the KMS.  Each of the four operations with its spans, on a client of the AWS provider with its spans, has the
  result and leaves the service and the random source as the operation without spans does, and adds well-nested spans to the log: each span
  that was started is ended, inner ones first, also after an error or a panic.
\<close>

theorem kms_spans_transparent:
  fixes api :: "'k aws_api"
  shows "env_spanned (Encrypt_traced tr g rnd (traced_kms tr api c) ctx p) (Kms_Encrypt g rnd (plain_kms api c) ctx p) \<and>
   env_spanned (Decrypt_traced tr g (traced_kms tr api c) ctx i) (Kms_Decrypt g (plain_kms api c) ctx i) \<and>
   env_spanned (DescribeKey_traced tr (traced_kms tr api c) ctx kid) (Kms_DescribeKey (plain_kms api c) ctx kid) \<and>
   env_spanned (ReEncrypt_traced tr (traced_kms tr api c) ctx i) (Kms_ReEncrypt (plain_kms api c) ctx i)"
proof -
  note enc = provider_call [OF spanned_call]
  have e: "env_spanned (Encrypt_traced tr g rnd (traced_kms tr api c) ctx p) (Kms_Encrypt g rnd (plain_kms api c) ctx p)"
    unfolding Encrypt_traced_def Kms_Encrypt_def [abs_def] genDek_traced_def encryptDek_traced_def traced_kms_def plain_kms_def
      traced_provider_def aws_provider_def
    by (auto intro!: env_spanned_around env_spanned_seq genDek_spanned encryptDek_spanned enc split: prod.split)
  have "env_spanned (Decrypt_traced tr g (traced_kms tr api c) ctx i) (Kms_Decrypt g (plain_kms api c) ctx i)"
    unfolding Decrypt_traced_def Kms_Decrypt_def [abs_def] traced_kms_def plain_kms_def traced_provider_def aws_provider_def
    by (auto intro!: env_spanned_around enc)
  moreover have "env_spanned (DescribeKey_traced tr (traced_kms tr api c) ctx kid) (Kms_DescribeKey (plain_kms api c) ctx kid)"
    unfolding DescribeKey_traced_def Kms_DescribeKey_def [abs_def] traced_kms_def plain_kms_def traced_provider_def aws_provider_def
    by (auto intro!: env_spanned_around enc)
  moreover have "env_spanned (ReEncrypt_traced tr (traced_kms tr api c) ctx i) (Kms_ReEncrypt (plain_kms api c) ctx i)"
    unfolding ReEncrypt_traced_def Kms_ReEncrypt_def [abs_def] traced_kms_def plain_kms_def traced_provider_def aws_provider_def
    by (auto intro!: env_spanned_around enc)
  ultimately show ?thesis using e by blast
qed

text \<open>The cancel function of a transaction with its spans: the same decision on the database, and well-nested spans.\<close>

theorem transaction_spans_transparent:
  "Cancel_traced tr api ctx panicking err (d, l) = (r, d', l') \<Longrightarrow>
   CancelTransactionFunc api ctx panicking err d = (r, d') \<and> extends l l'"
  by (intro conjI) (erule cancel.refines, erule cancel.tidy)

end
