(* ===== verification/Database.thy ===== *)
theory Database
  imports Telemetry
begin

text \<open>
  The database package: the logger of the ORM (\<^verbatim>\<open>db/logger.go\<close>), the session guard (\<^verbatim>\<open>db/session_guard_plugin.go\<close>),
  the driver for RDS (\<^verbatim>\<open>db/rds_mysql_driver.go\<close>), the construction of a connection (\<^verbatim>\<open>db/database.go\<close>) and its component
  (\<^verbatim>\<open>db/client.go\<close>).  GORM, \<^verbatim>\<open>database/sql\<close>, the MySQL driver, the download of the certificates and the AWS SDK are
  arguments.  What is printed to the standard output is left out.
\<close>

section \<open>The database configuration\<close>

record DBConfig =
  DriverName :: string
  Username :: string
  Password :: string
  Host :: string
  DatabaseName :: string
  Port :: int
  MaxIdleConns :: int
  MaxOpenConns :: int
  ConnMaxLifetime :: int
  ConnMaxIdleTime :: int
  LogLevel :: string
  AuthMethod :: string
  AwsRegion :: string

text \<open>The levels of the ORM's logger.\<close>

definition Silent :: int where "Silent = 1"
definition ErrorLevel :: int where "ErrorLevel = 2"
definition WarnLevel :: int where "WarnLevel = 3"
definition InfoLevel :: int where "InfoLevel = 4"

lemmas level_defs = Silent_def ErrorLevel_def WarnLevel_def InfoLevel_def

definition mappingLogLevel :: "string \<Rightarrow> int" where
  "mappingLogLevel logLevel =
     (let l = ToUpper logLevel in
      if l = ''SILENT'' then Silent else if l = ''ERROR'' then ErrorLevel else if l = ''WARN'' then WarnLevel
      else if l = ''INFO'' then InfoLevel else if l = ''DEBUG'' then InfoLevel else InfoLevel)"

definition AuthMethodAWSIAM :: string where
  "AuthMethodAWSIAM = ''aws_iam''"

definition AuthMethodUsernamePassword :: string where
  "AuthMethodUsernamePassword = ''username_password''"

text \<open>
  The defaults (\<^verbatim>\<open>mariaDbConfig\<close> is the same object as \<^verbatim>\<open>cfg\<close>), the data source name and the dialectors.
\<close>

definition db_defaults :: "DBConfig \<Rightarrow> DBConfig" where
  "db_defaults cfg =
     (let cfg = (if LogLevel cfg = [] then cfg\<lparr>LogLevel := ''warn''\<rparr> else cfg);
          cfg = (if DriverName cfg = [] then cfg\<lparr>DriverName := ''mysql''\<rparr> else cfg)
      in if AuthMethod cfg = [] then cfg\<lparr>AuthMethod := AuthMethodUsernamePassword\<rparr> else cfg)"

definition dsn_of :: "DBConfig \<Rightarrow> string" where
  "dsn_of cfg = Username cfg @ '':'' @ Password cfg @ ''@tcp('' @ Host cfg @ '':'' @ Itoa (Port cfg) @ '')/'' @ DatabaseName cfg
     @ ''?charset=utf8mb4&parseTime=True&loc=Local''"

datatype dialector = MysqlOpen string | MysqlNew string string

section \<open>The logger of the ORM\<close>

record db_logger =
  LogLevel_of :: int
  SlowThreshold :: int
  SkipCallerLookup :: bool
  IgnoreRecordNotFoundError :: bool
  ContextFn :: "(go_ctx \<Rightarrow> (string \<times> string) list) option"

definition NewLogger :: "int \<Rightarrow> db_logger" where
  "NewLogger logLevel =
     \<lparr>LogLevel_of = logLevel, SlowThreshold = 200 * 1000000, SkipCallerLookup = False, IgnoreRecordNotFoundError = True,
      ContextFn = None\<rparr>"

definition LogMode :: "db_logger \<Rightarrow> int \<Rightarrow> db_logger" where
  "LogMode l level =
     \<lparr>LogLevel_of = level, SlowThreshold = SlowThreshold l, SkipCallerLookup = SkipCallerLookup l,
      IgnoreRecordNotFoundError = IgnoreRecordNotFoundError l, ContextFn = ContextFn l\<rparr>"

text \<open>\<^verbatim>\<open>SetAsDefault\<close> replaces the default logger of the ORM.\<close>

definition SetAsDefault :: "db_logger \<Rightarrow> db_logger \<Rightarrow> db_logger" where
  "SetAsDefault l dflt = l"

definition ErrRecordNotFound :: gerror where
  "ErrRecordNotFound = Sentinel ''record not found''"

text \<open>
  The logger a message goes to: its fields, and the number of frames it skips to name the caller.  \<open>lg\<close> is what the kit's \<^verbatim>\<open>GetLogger\<close>
  gives for the context and \<open>Caller i\<close> the file of the \<open>i\<close>-th frame of the stack.
\<close>

definition gormPackage :: string where
  "gormPackage = ''gorm.io/gorm''"

definition is_caller :: "(nat \<Rightarrow> string option) \<Rightarrow> nat \<Rightarrow> bool" where
  "is_caller Caller i =
     (case Caller i of
        None \<Rightarrow> False
      | Some file \<Rightarrow> \<not> HasSuffix file ''_test.go'' \<and> \<not> Contains file gormPackage)"

definition logger_of :: "(nat \<Rightarrow> string option) \<Rightarrow> (go_ctx \<Rightarrow> logger) \<Rightarrow> db_logger \<Rightarrow> go_ctx \<Rightarrow> logger \<times> nat" where
  "logger_of Caller lg l ctx =
     (let logger = lg ctx;
          logger = (case ContextFn l of None \<Rightarrow> logger | Some f \<Rightarrow> With logger (f ctx))
      in if SkipCallerLookup l then (logger, 0)
         else (case find (is_caller Caller) [2..<15] of Some i \<Rightarrow> (logger, i) | None \<Rightarrow> (logger, 0)))"

text \<open>
  The line that a message or a query gives, if it is logged: \<open>Info\<close> logs at the debug level.  \<open>msg\<close> is the formatted message; durations and
  counts are written in base 10.  A line has the fields of its logger before its own.
\<close>

definition log_with :: "logger \<times> nat \<Rightarrow> log_level \<Rightarrow> string \<Rightarrow> (string \<times> string) list \<Rightarrow> log_line \<times> nat" where
  "log_with lg lvl msg flds = (Line lvl msg (fst lg @ flds), snd lg)"

definition db_Info :: "db_logger \<Rightarrow> logger \<times> nat \<Rightarrow> string \<Rightarrow> (log_line \<times> nat) option" where
  "db_Info l lg msg = (if LogLevel_of l < InfoLevel then None else Some (log_with lg LDebug msg []))"

definition db_Warn :: "db_logger \<Rightarrow> logger \<times> nat \<Rightarrow> string \<Rightarrow> (log_line \<times> nat) option" where
  "db_Warn l lg msg = (if LogLevel_of l < WarnLevel then None else Some (log_with lg LWarn msg []))"

definition db_Error :: "db_logger \<Rightarrow> logger \<times> nat \<Rightarrow> string \<Rightarrow> (log_line \<times> nat) option" where
  "db_Error l lg msg = (if LogLevel_of l < ErrorLevel then None else Some (log_with lg LError msg []))"

definition query_fields :: "int \<Rightarrow> string \<times> int \<Rightarrow> (string \<times> string) list" where
  "query_fields elapsed fc = (case fc of (sql, rows) \<Rightarrow> [(''elapsed'', Itoa elapsed), (''rows'', Itoa rows), (''sql'', sql)])"

definition Trace :: "db_logger \<Rightarrow> logger \<times> nat \<Rightarrow> int \<Rightarrow> string \<times> int \<Rightarrow> gerror option \<Rightarrow> (log_line \<times> nat) option" where
  "Trace l lg elapsed fc err =
     (if LogLevel_of l \<le> 0 then None
      else if (case err of None \<Rightarrow> False | Some e \<Rightarrow>
                 LogLevel_of l \<ge> ErrorLevel \<and> (\<not> IgnoreRecordNotFoundError l \<or> \<not> errors_Is e ErrRecordNotFound))
        then Some (log_with lg LError ''trace'' ((''error'', err_msg (the err)) # query_fields elapsed fc))
      else if SlowThreshold l \<noteq> 0 \<and> elapsed > SlowThreshold l \<and> LogLevel_of l \<ge> WarnLevel
        then Some (log_with lg LWarn ''trace'' (query_fields elapsed fc))
      else if LogLevel_of l \<ge> InfoLevel then Some (log_with lg LDebug ''trace'' (query_fields elapsed fc))
      else None)"

section \<open>The session guard\<close>

text \<open>The destination of a query, as far as reflection looks at it.\<close>

datatype dest = DNil | DPtrNil | DPtr dest | DSlice | DArray | DOtherKind

fun elem_is_slice :: "dest \<Rightarrow> bool" where
  "elem_is_slice DPtrNil = False"
| "elem_is_slice (DPtr d) = elem_is_slice d"
| "elem_is_slice DSlice = True"
| "elem_is_slice DArray = True"
| "elem_is_slice _ = False"

definition destIsSlice :: "dest \<Rightarrow> bool" where
  "destIsSlice d = (if d = DNil then False else elem_is_slice d)"

record stmt =
  Dest :: dest
  RaiseErrorOnNotFound :: bool

text \<open>
  The statements of the database handles: a handle (\<^verbatim>\<open>*gorm.DB\<close>, here a number) has a statement or none.  The plugin keeps
  the handle it was initialized with.
\<close>

type_synonym stmts = "nat \<rightharpoonup> stmt"

record sessionGuardPlugin =
  guard_root :: "nat option"

definition newSessionGuardPlugin :: sessionGuardPlugin where
  "newSessionGuardPlugin = \<lparr>guard_root = None\<rparr>"

definition sessionGuard_Name :: "sessionGuardPlugin \<Rightarrow> string" where
  "sessionGuard_Name p = ''hsk-session-guard''"

definition guardBeforeQuery :: "nat \<Rightarrow> stmts \<Rightarrow> stmts" where
  "guardBeforeQuery tx h =
     (case h tx of
        None \<Rightarrow> h
      | Some s \<Rightarrow>
          (if destIsSlice (Dest s) then h(tx \<mapsto> s\<lparr>RaiseErrorOnNotFound := False\<rparr>)
           else if RaiseErrorOnNotFound s then h
           else h(tx \<mapsto> s\<lparr>RaiseErrorOnNotFound := False\<rparr>)))"

definition ResetSessionFlags :: "nat option \<Rightarrow> stmts \<Rightarrow> stmts" where
  "ResetSessionFlags db h =
     (case db of
        None \<Rightarrow> h
      | Some d \<Rightarrow> (case h d of None \<Rightarrow> h | Some s \<Rightarrow> h(d \<mapsto> s\<lparr>RaiseErrorOnNotFound := False\<rparr>)))"

definition resetRootSessionFlags :: "sessionGuardPlugin \<Rightarrow> stmts \<Rightarrow> stmts" where
  "resetRootSessionFlags p h =
     (case guard_root p of
        None \<Rightarrow> h
      | Some r \<Rightarrow> (case h r of None \<Rightarrow> h | Some s \<Rightarrow> h(r \<mapsto> s\<lparr>RaiseErrorOnNotFound := False\<rparr>)))"

text \<open>
  \<^verbatim>\<open>Initialize\<close> registers callbacks until one registration fails; \<open>callback d op before name\<close> is the registration of a callback with
  that name before or after the callback \<open>op\<close> of the ORM.
\<close>

datatype callback_fn = GuardBeforeQuery | ResetRoot

definition guard_after :: "string list" where
  "guard_after = [''gorm:query'', ''gorm:create'', ''gorm:update'', ''gorm:delete'', ''gorm:row'', ''gorm:raw'']"

type_synonym 'g registrar = "nat \<Rightarrow> string \<Rightarrow> bool \<Rightarrow> string \<Rightarrow> callback_fn \<Rightarrow> 'g \<Rightarrow> gerror option \<times> 'g"

fun register_after :: "'g registrar \<Rightarrow> nat \<Rightarrow> string list \<Rightarrow> 'g \<Rightarrow> gerror option \<times> 'g" where
  "register_after callback db [] g = (None, g)"
| "register_after callback db (op # ops) g =
     (case callback db op False ''hsk:session_guard:after'' ResetRoot g of
        (Some err, g') \<Rightarrow> (Some err, g')
      | (None, g') \<Rightarrow> register_after callback db ops g')"

definition sessionGuard_Initialize :: "'g registrar \<Rightarrow> nat \<Rightarrow> sessionGuardPlugin \<Rightarrow> 'g \<Rightarrow> gerror option \<times> sessionGuardPlugin \<times> 'g" where
  "sessionGuard_Initialize callback db p g =
     (let p = p\<lparr>guard_root := Some db\<rparr> in
      case callback db ''gorm:query'' True ''hsk:session_guard:before_query'' GuardBeforeQuery g of
        (Some err, g') \<Rightarrow> (Some err, p, g')
      | (None, g') \<Rightarrow> (case register_after callback db guard_after g' of (e, g'') \<Rightarrow> (e, p, g'')))"

section \<open>The RDS driver\<close>

record RdsMysqlDriver =
  rds_Host :: string
  rds_Port :: int
  rds_Username :: string
  rds_Password :: string
  rds_DatabaseName :: string
  rds_AuthMethod :: string
  rds_AwsRegion :: string

text \<open>
  The download and use of the certificates: \<open>http_Get n url\<close> is the answer to the request made by the \<open>n\<close>-th attempt.  Only the body of the answer is
  used, not its status.
\<close>

record 'r cert_lib =
  http_Get :: "nat \<Rightarrow> string \<Rightarrow> 'r res"
  io_ReadAll :: "'r \<Rightarrow> string res"
  AppendCertsFromPEM :: "string \<Rightarrow> bool"
  RegisterTLSConfig :: "string \<Rightarrow> string \<Rightarrow> gerror option"

definition pem_url :: string where
  "pem_url = ''https://truststore.pki.rds.amazonaws.com/global/global-bundle.pem''"

definition loadAwsRDSCAPem :: "'r cert_lib \<Rightarrow> nat \<Rightarrow> string res" where
  "loadAwsRDSCAPem lib n = res_bind (http_Get lib n pem_url) (io_ReadAll lib)"

definition RegisterTLS :: "'r cert_lib \<Rightarrow> nat \<Rightarrow> gerror option" where
  "RegisterTLS lib n =
     (case loadAwsRDSCAPem lib n of
        Inl err \<Rightarrow> Some err
      | Inr pem \<Rightarrow>
          (if \<not> AppendCertsFromPEM lib pem then Some (Errorf ''failed to append AWS RDS CA'')
           else RegisterTLSConfig lib ''rds'' pem))"

text \<open>\<^verbatim>\<open>sync.Once\<close> with the error it left behind, and the number of attempts made.\<close>

record tls_once =
  once_done :: bool
  registerTLSErr :: "gerror option"
  downloads :: nat

definition RegisterTLSOnce :: "'r cert_lib \<Rightarrow> tls_once \<Rightarrow> gerror option \<times> tls_once" where
  "RegisterTLSOnce lib o1 =
     (let o2 = (if once_done o1 then o1
                else \<lparr>once_done = True, registerTLSErr = RegisterTLS lib (downloads o1), downloads = downloads o1 + 1\<rparr>)
      in (registerTLSErr o2, o2))"

text \<open>
  A driver: \<open>attempts\<close> counts the tokens asked for, \<open>rotating\<close> says that its goroutine has been started.  The AWS SDK answers the \<open>n\<close>-th
  attempt.
\<close>

record Driver =
  drv_config :: RdsMysqlDriver
  token :: string
  initErr :: "gerror option"
  attempts :: nat
  rotating :: bool

record 'c aws_lib =
  LoadDefaultConfig :: "nat \<Rightarrow> 'c res"
  BuildAuthToken :: "nat \<Rightarrow> string \<Rightarrow> string \<Rightarrow> string \<Rightarrow> 'c \<Rightarrow> string res"

definition endpoint :: "RdsMysqlDriver \<Rightarrow> string" where
  "endpoint c = rds_Host c @ '':'' @ Itoa (rds_Port c)"

definition fetch_token :: "'c aws_lib \<Rightarrow> RdsMysqlDriver \<Rightarrow> nat \<Rightarrow> string res" where
  "fetch_token aws c n =
     res_bind (LoadDefaultConfig aws n) (BuildAuthToken aws n (endpoint c) (rds_AwsRegion c) (rds_Username c))"

definition buildToken :: "'c aws_lib \<Rightarrow> Driver \<Rightarrow> gerror option \<times> Driver" where
  "buildToken aws r =
     (case fetch_token aws (drv_config r) (attempts r) of
        Inl err \<Rightarrow> (Some err, r\<lparr>attempts := attempts r + 1\<rparr>)
      | Inr t \<Rightarrow> (None, r\<lparr>token := t, attempts := attempts r + 1\<rparr>))"

fun buildTokenWithRetry :: "'c aws_lib \<Rightarrow> nat \<Rightarrow> Driver \<Rightarrow> gerror option \<times> Driver" where
  "buildTokenWithRetry aws numRetries r =
     (case buildToken aws r of
        (Some err, r') \<Rightarrow> (case numRetries of 0 \<Rightarrow> (Some err, r') | Suc n \<Rightarrow> buildTokenWithRetry aws n r')
      | (None, r') \<Rightarrow> (None, r'))"

declare buildTokenWithRetry.simps [simp del]

text \<open>
  \<^verbatim>\<open>startRotation\<close> fetches the first token at once, where a failure is only printed, and starts the goroutine, which never ends:
  \<open>rotation_round\<close> is one round of its loop.
\<close>

definition startRotation :: "'c aws_lib \<Rightarrow> Driver \<Rightarrow> Driver" where
  "startRotation aws r = (snd (buildTokenWithRetry aws 5 r))\<lparr>rotating := True\<rparr>"

definition rotation_round :: "'c aws_lib \<Rightarrow> Driver \<Rightarrow> Driver" where
  "rotation_round aws r = (if rotating r then snd (buildTokenWithRetry aws 5 r) else r)"

definition NewDriver :: "'r cert_lib \<Rightarrow> 'c aws_lib \<Rightarrow> RdsMysqlDriver \<Rightarrow> tls_once \<Rightarrow> Driver \<times> tls_once" where
  "NewDriver lib aws config o1 =
     (let drv = \<lparr>drv_config = config, token = [], initErr = None, attempts = 0, rotating = False\<rparr> in
      if rds_AuthMethod config = AuthMethodAWSIAM then
        (case RegisterTLSOnce lib o1 of
           (Some err, o2) \<Rightarrow> (drv\<lparr>initErr := Some err\<rparr>, o2)
         | (None, o2) \<Rightarrow> (startRotation aws drv, o2))
      else (drv, o1))"

text \<open>The settings a connection is opened with; \<open>mysql_open\<close> formats them and opens a connection.\<close>

record mysql_config =
  mc_Addr :: string
  mc_DBName :: string
  mc_Net :: string
  AllowCleartextPasswords :: bool
  AllowNativePasswords :: bool
  ParseTime :: bool
  mc_User :: string
  mc_Passwd :: string
  mc_TLSConfig :: string

definition Driver_Open :: "(mysql_config \<Rightarrow> 'conn res) \<Rightarrow> Driver \<Rightarrow> 'conn res" where
  "Driver_Open mysql_open r =
     (case initErr r of
        Some err \<Rightarrow> Inl err
      | None \<Rightarrow>
          (let c = drv_config r;
               mysqlConfig = \<lparr>mc_Addr = endpoint c, mc_DBName = rds_DatabaseName c, mc_Net = ''tcp'', AllowCleartextPasswords = True,
                 AllowNativePasswords = True, ParseTime = True, mc_User = rds_Username c, mc_Passwd = [], mc_TLSConfig = []\<rparr>;
               mysqlConfig =
                 (if rds_AuthMethod c = AuthMethodAWSIAM then mysqlConfig\<lparr>mc_Passwd := token r, mc_TLSConfig := ''rds''\<rparr>
                  else if rds_AuthMethod c = AuthMethodUsernamePassword then mysqlConfig\<lparr>mc_Passwd := rds_Password c\<rparr>
                  else mysqlConfig)
           in mysql_open mysqlConfig))"

section \<open>The connection\<close>

text \<open>
  GORM and \<^verbatim>\<open>database/sql\<close> on a state \<^typ>\<open>'g\<close>: a handle \<^typ>\<open>'d\<close> and its pool \<^typ>\<open>'q\<close>.
\<close>

datatype db_plugin = PrometheusPlugin string int string | TracingPlugin

record ('d, 'q, 'g) gorm =
  gorm_Open :: "dialector \<Rightarrow> db_logger \<Rightarrow> 'g \<Rightarrow> 'd res \<times> 'g"
  gorm_Use :: "'d \<Rightarrow> db_plugin \<Rightarrow> 'g \<Rightarrow> gerror option \<times> 'g"
  gorm_DB :: "'d \<Rightarrow> 'g \<Rightarrow> 'q res \<times> 'g"
  SetMaxIdleConns :: "'q \<Rightarrow> int \<Rightarrow> 'g \<Rightarrow> 'g"
  SetMaxOpenConns :: "'q \<Rightarrow> int \<Rightarrow> 'g \<Rightarrow> 'g"
  SetConnMaxLifetime :: "'q \<Rightarrow> int \<Rightarrow> 'g \<Rightarrow> 'g"
  SetConnMaxIdleTime :: "'q \<Rightarrow> int \<Rightarrow> 'g \<Rightarrow> 'g"
  gorm_Raw :: "'d \<Rightarrow> string \<Rightarrow> 'g \<Rightarrow> gerror option \<times> 'g"
  sql_Close :: "'q \<Rightarrow> 'g \<Rightarrow> gerror option \<times> 'g"

text \<open>
  The process: the drivers registered by name, whose registration panics on a name in use, the state of \<^verbatim>\<open>registerTLSOnce\<close>, the
  configuration that \<^verbatim>\<open>cfg\<close> points to, and the state of GORM.
\<close>

record 'g db_world =
  drivers :: "string \<rightharpoonup> Driver"
  tls :: tls_once
  cfg_of :: DBConfig
  gorm_state :: 'g

definition in_gorm :: "('g \<Rightarrow> 'a \<times> 'g) \<Rightarrow> 'g db_world \<Rightarrow> 'a \<times> 'g db_world" where
  "in_gorm f w = (case f (gorm_state w) of (x, g) \<Rightarrow> (x, w\<lparr>gorm_state := g\<rparr>))"

definition sql_Register :: "string \<Rightarrow> Driver \<Rightarrow> (unit, 'g db_world) op" where
  "sql_Register name drv w =
     (if name \<in> dom (drivers w) then (Panics (''sql: Register called twice for driver '' @ name), w)
      else (Returns (Inr ()), w\<lparr>drivers := (drivers w)(name \<mapsto> drv)\<rparr>))"

text \<open>The dialector: for IAM a driver is made and registered, under the name \<^verbatim>\<open>rds\<close> unless another is configured.\<close>

definition rds_config :: "DBConfig \<Rightarrow> RdsMysqlDriver" where
  "rds_config c =
     \<lparr>rds_Host = Host c, rds_Port = Port c, rds_Username = Username c, rds_Password = Password c, rds_DatabaseName = DatabaseName c,
      rds_AuthMethod = AuthMethodAWSIAM, rds_AwsRegion = AwsRegion c\<rparr>"

definition iam_driver_name :: "DBConfig \<Rightarrow> string" where
  "iam_driver_name c = (if DriverName c = [] \<or> DriverName c = ''mysql'' then ''rds'' else DriverName c)"

definition db_dialector :: "'r cert_lib \<Rightarrow> 'c aws_lib \<Rightarrow> (dialector, 'g db_world) op" where
  "db_dialector lib aws w =
     (let c = cfg_of w; dsn = dsn_of c in
      if AuthMethod c = AuthMethodUsernamePassword then (Returns (Inr (MysqlOpen dsn)), w)
      else if AuthMethod c = AuthMethodAWSIAM then
        (let c = c\<lparr>DriverName := iam_driver_name c\<rparr>;
             (drv, o2) = NewDriver lib aws (rds_config c) (tls w)
         in op_bind (sql_Register (DriverName c) drv) (\<lambda>_. op_return (MysqlNew (DriverName c) dsn)) (w\<lparr>cfg_of := c, tls := o2\<rparr>))
      else (Returns (Inl (Errorf ''invalid auth method'')), w))"

text \<open>\<^verbatim>\<open>New\<close> on a configuration that is not \<^verbatim>\<open>nil\<close>; for \<^verbatim>\<open>nil\<close> it fails at once.\<close>

definition db_prometheus :: "DBConfig \<Rightarrow> db_plugin" where
  "db_prometheus c = PrometheusPlugin (DatabaseName c) 15 ''gorm_status''"

definition set_pool :: "('d, 'q, 'g) gorm \<Rightarrow> DBConfig \<Rightarrow> 'q \<Rightarrow> 'g \<Rightarrow> 'g" where
  "set_pool gl c sqlDb g =
     SetConnMaxIdleTime gl sqlDb (ConnMaxIdleTime c)
       (SetConnMaxLifetime gl sqlDb (ConnMaxLifetime c)
         (SetMaxOpenConns gl sqlDb (MaxOpenConns c) (SetMaxIdleConns gl sqlDb (MaxIdleConns c) g)))"

definition db_connect :: "('d, 'q, 'g) gorm \<Rightarrow> TracingConfig \<Rightarrow> DBConfig \<Rightarrow> dialector \<Rightarrow> ('d, 'g db_world) op" where
  "db_connect gl tc c dial =
     op_bind (op_res (in_gorm (gorm_Open gl dial (NewLogger (mappingLogLevel (LogLevel c)))))) (\<lambda>db.
     op_bind (op_err (in_gorm (gorm_Use gl db (db_prometheus c)))) (\<lambda>_.
     op_bind (op_when (IsEnableDBTracing tc) (op_err (in_gorm (gorm_Use gl db TracingPlugin)))) (\<lambda>_.
     op_bind (op_res (in_gorm (gorm_DB gl db))) (\<lambda>sqlDb.
     op_bind (op_do (\<lambda>w. w\<lparr>gorm_state := set_pool gl c sqlDb (gorm_state w)\<rparr>)) (\<lambda>_.
     op_bind (op_err (in_gorm (gorm_Raw gl db ''SELECT 1''))) (\<lambda>_.
     op_return db))))))"

definition db_New_cfg :: "'r cert_lib \<Rightarrow> 'c aws_lib \<Rightarrow> ('d, 'q, 'g) gorm \<Rightarrow> TracingConfig \<Rightarrow> ('d, 'g db_world) op" where
  "db_New_cfg lib aws gl tc w =
     (let w = w\<lparr>cfg_of := db_defaults (cfg_of w)\<rparr>
      in op_bind (db_dialector lib aws) (\<lambda>dial w. db_connect gl tc (cfg_of w) dial w) w)"

definition db_New :: "'r cert_lib \<Rightarrow> 'c aws_lib \<Rightarrow> ('d, 'q, 'g) gorm \<Rightarrow> TracingConfig \<Rightarrow> bool \<Rightarrow> ('d, 'g db_world) op" where
  "db_New lib aws gl tc cfg_nil w =
     (if cfg_nil then (Returns (Inl (Errorf ''config is nil'')), w) else db_New_cfg lib aws gl tc w)"

text \<open>The client: its handle, if it has one.\<close>

definition db_NewClient :: "'r cert_lib \<Rightarrow> 'c aws_lib \<Rightarrow> ('d, 'q, 'g) gorm \<Rightarrow> TracingConfig \<Rightarrow> bool \<Rightarrow> ('d option, 'g db_world) op" where
  "db_NewClient lib aws gl tc cfg_nil = op_bind (db_New lib aws gl tc cfg_nil) (\<lambda>db. op_return (Some db))"

definition Client_Stop :: "('d, 'q, 'g) gorm \<Rightarrow> 'd option \<Rightarrow> 'g \<Rightarrow> gerror option \<times> 'g" where
  "Client_Stop gl c g =
     (case c of
        None \<Rightarrow> (None, g)
      | Some db \<Rightarrow>
          (case gorm_DB gl db g of
             (Inl err, g') \<Rightarrow> (Some err, g')
           | (Inr sqlDB, g') \<Rightarrow> sql_Close gl sqlDB g'))"

definition db_component :: "('d, 'q, 'g) gorm \<Rightarrow> 'd option \<Rightarrow> 'g component" where
  "db_component gl c = \<lparr>Name = ''mariadb'', Start = (\<lambda>_ g. (None, g)), Stop = (\<lambda>_. Client_Stop gl c)\<rparr>"

section \<open>Properties\<close>

subsection \<open>The token of the driver\<close>

lemma buildTokenWithRetry_spec:
  "case buildTokenWithRetry aws n r of (e, r') \<Rightarrow>
     (e = None \<longleftrightarrow> (\<exists>i \<le> n. is_ok (fetch_token aws (drv_config r) (attempts r + i)))) \<and>
     attempts r < attempts r' \<and> attempts r' \<le> attempts r + n + 1 \<and> (e \<noteq> None \<longrightarrow> attempts r' = attempts r + n + 1)"
proof (induction aws n r rule: buildTokenWithRetry.induct)
  case (1 aws n r)
  let ?f = "fetch_token aws (drv_config r)"
  show ?case
  proof (cases "?f (attempts r)")
    case (Inr t)
    then have "\<exists>i \<le> n. is_ok (?f (attempts r + i))" by (auto intro: exI [of _ 0])
    then show ?thesis using Inr by (subst buildTokenWithRetry.simps) (simp add: buildToken_def)
  next
    case (Inl err)
    then have b: "buildToken aws r = (Some err, r\<lparr>attempts := attempts r + 1\<rparr>)" by (simp add: buildToken_def)
    show ?thesis
    proof (cases n)
      case 0
      then show ?thesis using Inl b by (subst buildTokenWithRetry.simps) simp
    next
      case (Suc m)
      have shift: "(\<exists>i \<le> Suc m. is_ok (?f (attempts r + i))) \<longleftrightarrow> (\<exists>i \<le> m. is_ok (?f (attempts r + 1 + i)))"
        using Inl by (auto simp: less_Suc_eq_le [symmetric] Ex_less_Suc2)
      have "buildTokenWithRetry aws n r = buildTokenWithRetry aws m (r\<lparr>attempts := attempts r + 1\<rparr>)"
        using Suc b by (subst buildTokenWithRetry.simps) simp
      then show ?thesis using 1 [OF b [symmetric] refl Suc] shift Suc by (auto split: prod.splits)
    qed
  qed
qed

text \<open>The token that the last successful attempt among the first \<open>n\<close> gave; the empty one when all failed.\<close>

fun last_token :: "(nat \<Rightarrow> string res) \<Rightarrow> nat \<Rightarrow> string" where
  "last_token fetch 0 = []"
| "last_token fetch (Suc n) = (case fetch n of Inr t \<Rightarrow> t | Inl _ \<Rightarrow> last_token fetch n)"

definition token_inv :: "'c aws_lib \<Rightarrow> RdsMysqlDriver \<Rightarrow> Driver \<Rightarrow> bool" where
  "token_inv aws c r \<longleftrightarrow> drv_config r = c \<and> initErr r = None \<and> token r = last_token (fetch_token aws c) (attempts r)"

lemma token_inv_build: "token_inv aws c r \<Longrightarrow> token_inv aws c (snd (buildToken aws r))"
  by (auto simp: token_inv_def buildToken_def split: sum.splits)

lemma rotating_build [simp]: "rotating (snd (buildToken aws r)) = rotating r"
  by (auto simp: buildToken_def split: sum.splits)

lemma token_inv_retry:
  "token_inv aws c r \<Longrightarrow> token_inv aws c (snd (buildTokenWithRetry aws n r)) \<and> rotating (snd (buildTokenWithRetry aws n r)) = rotating r"
proof (induction aws n r rule: buildTokenWithRetry.induct)
  case (1 aws n r)
  obtain e r' where b: "buildToken aws r = (e, r')" by (cases "buildToken aws r")
  then have "token_inv aws c r'" "rotating r' = rotating r" using token_inv_build [OF 1(2)] rotating_build [of aws r] by auto
  then show ?case using 1(1) [OF b [symmetric]] b by (subst (1 2) buildTokenWithRetry.simps) (auto split: option.splits nat.splits)
qed

lemma rotation_rounds:
  assumes "token_inv aws c r" "rotating r"
  shows "let r' = (rotation_round aws ^^ k) r in
    token_inv aws c r' \<and> rotating r' \<and> attempts r + k \<le> attempts r' \<and> attempts r' \<le> attempts r + 6 * k"
proof (induction k)
  case (Suc k)
  define r1 where "r1 = (rotation_round aws ^^ k) r"
  from Suc have i: "token_inv aws c r1" "rotating r1" "attempts r + k \<le> attempts r1" "attempts r1 \<le> attempts r + 6 * k"
    by (simp_all add: Let_def r1_def)
  have "(rotation_round aws ^^ Suc k) r = snd (buildTokenWithRetry aws 5 r1)"
    using i(2) by (simp add: r1_def [symmetric]) (simp add: rotation_round_def)
  then show ?case
    using i token_inv_retry [OF i(1), of 5] buildTokenWithRetry_spec [where aws = aws and n = 5 and r = r1]
    by (auto simp: Let_def split: prod.splits)
qed (use assms in simp)


text \<open>
  A failed first download of the RDS certificates is final: every later IAM driver fails to open, without a
  new attempt.
\<close>

theorem RegisterTLSOnce_sticky:
  assumes "once_done o1" and "registerTLSErr o1 = Some err" and "rds_AuthMethod c = AuthMethodAWSIAM"
  shows "snd (NewDriver lib aws c o1) = o1 \<and> Driver_Open mysql_open (fst (NewDriver lib aws c o1)) = Inl err"
  using assms by (simp add: NewDriver_def RegisterTLSOnce_def Driver_Open_def Let_def)

subsection \<open>The query log\<close>

text \<open>
  The query log.  An error is logged as an error unless it is a missing record and those are ignored; other queries
  are logged as warnings when slow, else at the debug level; nothing is logged beyond the configured level, and
  nothing at all when silent.  Every line carries the statement, the rows and the time.
\<close>

theorem Trace_levels:
  "Trace (NewLogger level) lg elapsed fc err =
     (if level \<ge> ErrorLevel \<and> err \<noteq> None \<and> \<not> errors_Is (the err) ErrRecordNotFound
        then Some (log_with lg LError ''trace'' ((''error'', err_msg (the err)) # query_fields elapsed fc))
      else if level \<ge> WarnLevel \<and> elapsed > 200000000 then Some (log_with lg LWarn ''trace'' (query_fields elapsed fc))
      else if level \<ge> InfoLevel then Some (log_with lg LDebug ''trace'' (query_fields elapsed fc)) else None)"
  by (auto simp: Trace_def NewLogger_def level_defs split: option.splits)

subsection \<open>The session guard\<close>

text \<open>
  The session guard clears the flag exactly for queries into slices and arrays (through any number of pointers):
  after it a query raises an error for a missing record when it asked for one and reads a single record.
\<close>

theorem guardBeforeQuery_spec:
  "guardBeforeQuery tx h =
     (case h tx of None \<Rightarrow> h
      | Some s \<Rightarrow> h(tx \<mapsto> s\<lparr>RaiseErrorOnNotFound := RaiseErrorOnNotFound s \<and> \<not> destIsSlice (Dest s)\<rparr>))"
  by (auto simp: guardBeforeQuery_def fun_upd_idem split: option.splits)

text \<open>The registrations of the guard, on a registrar that records them.\<close>

definition recording :: "(string \<Rightarrow> gerror option) \<Rightarrow> (nat \<times> string \<times> bool \<times> callback_fn) list registrar" where
  "recording fails db op before name fn g = (case fails op of None \<Rightarrow> (None, g @ [(db, op, before, fn)]) | Some e \<Rightarrow> (Some e, g))"

lemma register_after_recording:
  "(\<forall>op \<in> set ops. fails op = None) \<Longrightarrow>
   register_after (recording fails) db ops g = (None, g @ map (\<lambda>op. (db, op, False, ResetRoot)) ops)"
  by (induction ops arbitrary: g) (auto simp: recording_def)

text \<open>
  A plugin that is initialized on a handle resets the flag of that handle after each of the six kinds of operations, and only that
  handle's; a registration that fails ends the initialization.
\<close>

theorem sessionGuard_resets:
  "resetRootSessionFlags (fst (snd (sessionGuard_Initialize callback db p g))) h =
     h(db := map_option (\<lambda>s. s\<lparr>RaiseErrorOnNotFound := False\<rparr>) (h db)) \<and>
   ((\<forall>op \<in> set guard_after. fails op = None) \<longrightarrow>
    sessionGuard_Initialize (recording fails) db p [] =
      (None, p\<lparr>guard_root := Some db\<rparr>, (db, ''gorm:query'', True, GuardBeforeQuery) # map (\<lambda>op. (db, op, False, ResetRoot)) guard_after))"
proof -
  have "fst (snd (sessionGuard_Initialize callback db p g)) = p\<lparr>guard_root := Some db\<rparr>"
    by (auto simp: sessionGuard_Initialize_def Let_def split: prod.splits option.splits)
  moreover have "sessionGuard_Initialize (recording fails) db p [] =
      (None, p\<lparr>guard_root := Some db\<rparr>, (db, ''gorm:query'', True, GuardBeforeQuery) # map (\<lambda>op. (db, op, False, ResetRoot)) guard_after)"
    if "\<forall>op \<in> set guard_after. fails op = None"
  proof -
    have "fails ''gorm:query'' = None" using that by (simp add: guard_after_def)
    then show ?thesis using register_after_recording [OF that] by (simp add: sessionGuard_Initialize_def recording_def Let_def)
  qed
  ultimately show ?thesis by (auto simp: resetRootSessionFlags_def fun_eq_iff split: option.splits)
qed

subsection \<open>The connection\<close>

lemma in_gorm_eq: "in_gorm f w = (x, w') \<longleftrightarrow> (\<exists>g. f (gorm_state w) = (x, g) \<and> w' = w\<lparr>gorm_state := g\<rparr>)"
  by (auto simp: in_gorm_def split: prod.splits)

lemma sql_Register_ok:
  "sql_Register name drv w = (Returns (Inr u), w') \<longleftrightarrow> name \<notin> dom (drivers w) \<and> w' = w\<lparr>drivers := (drivers w)(name \<mapsto> drv)\<rparr>"
  by (auto simp: sql_Register_def)

definition gorm_calls :: "('d, 'q, 'g) gorm \<Rightarrow> TracingConfig \<Rightarrow> DBConfig \<Rightarrow> dialector \<Rightarrow> 'd \<Rightarrow> 'g \<Rightarrow> 'g \<Rightarrow> bool" where
  "gorm_calls gl tc c dial db g g' \<longleftrightarrow>
     (\<exists>g1 g2 g3 g4 q.
        gorm_Open gl dial (NewLogger (mappingLogLevel (LogLevel c))) g = (Inr db, g1) \<and>
        gorm_Use gl db (db_prometheus c) g1 = (None, g2) \<and>
        (if IsEnableDBTracing tc then gorm_Use gl db TracingPlugin g2 = (None, g3) else g3 = g2) \<and>
        gorm_DB gl db g3 = (Inr q, g4) \<and>
        gorm_Raw gl db ''SELECT 1'' (set_pool gl c q g4) = (None, g'))"

lemma db_connect_ok:
  "db_connect gl tc c dial w = (Returns (Inr db), w') \<longleftrightarrow>
     (\<exists>g'. gorm_calls gl tc c dial db (gorm_state w) g' \<and> w' = w\<lparr>gorm_state := g'\<rparr>)"
  by (cases "IsEnableDBTracing tc")
    (auto simp: db_connect_def op_bind_eq_ok in_gorm_eq op_when_ok gorm_calls_def op_return_def op_do_def)

lemma db_connect_drivers: "drivers (snd (db_connect gl tc c dial w)) = drivers w"
proof -
  have [simp]: "drivers (snd (op_res (in_gorm f) w)) = drivers w" for f :: "'g \<Rightarrow> 'x res \<times> 'g" and w
    by (auto simp: op_res_def in_gorm_def split: prod.splits)
  have [simp]: "drivers (snd (op_err (in_gorm f) w)) = drivers w" for f :: "'g \<Rightarrow> gerror option \<times> 'g" and w
    by (auto simp: op_err_def in_gorm_def split: prod.splits option.splits)
  show ?thesis unfolding db_connect_def
    by (intro op_bind_keeps) (simp_all add: op_when_def)
qed

lemma db_dialector_ok:
  "db_dialector lib aws w = (Returns (Inr dial), w') \<longleftrightarrow>
     (let c = cfg_of w in
      AuthMethod c = AuthMethodUsernamePassword \<and> dial = MysqlOpen (dsn_of c) \<and> w' = w \<or>
      AuthMethod c = AuthMethodAWSIAM \<and> iam_driver_name c \<notin> dom (drivers w) \<and> dial = MysqlNew (iam_driver_name c) (dsn_of c) \<and>
      (\<exists>drv o2. NewDriver lib aws (rds_config c) (tls w) = (drv, o2) \<and>
         w' = w\<lparr>cfg_of := c\<lparr>DriverName := iam_driver_name c\<rparr>, tls := o2, drivers := (drivers w)(iam_driver_name c \<mapsto> drv)\<rparr>))"
proof -
  have "rds_config (c\<lparr>DriverName := n\<rparr>) = rds_config c" for c n by (simp add: rds_config_def)
  moreover have "AuthMethodAWSIAM \<noteq> AuthMethodUsernamePassword" by (simp add: AuthMethodAWSIAM_def AuthMethodUsernamePassword_def)
  ultimately show ?thesis
    by (cases "NewDriver lib aws (rds_config (cfg_of w)) (tls w)")
      (auto simp: db_dialector_def Let_def op_bind_eq_ok sql_Register_ok op_return_def)
qed

text \<open>
  What a successful \<^verbatim>\<open>New\<close> has done, and that nothing else makes it succeed: the configuration has its defaults, the authentication method is one
  of the two, for IAM a driver has been made and registered under a name that was free, and the calls of GORM have succeeded in their
  order: the connection, the metrics plugin, the tracing plugin when database tracing is enabled, the settings of the pool and the raw
  statement.
\<close>

theorem db_New_ok:
  "db_New lib aws gl tc cfg_nil w = (Returns (Inr db), w') \<longleftrightarrow>
     \<not> cfg_nil \<and>
     (let c = db_defaults (cfg_of w); n = iam_driver_name c; (drv, o2) = NewDriver lib aws (rds_config c) (tls w) in
      AuthMethod c = AuthMethodUsernamePassword \<and>
        (\<exists>g. gorm_calls gl tc c (MysqlOpen (dsn_of c)) db (gorm_state w) g \<and> w' = w\<lparr>cfg_of := c, gorm_state := g\<rparr>) \<or>
      AuthMethod c = AuthMethodAWSIAM \<and> n \<notin> dom (drivers w) \<and>
        (\<exists>g. gorm_calls gl tc c (MysqlNew n (dsn_of c)) db (gorm_state w) g \<and>
           w' = w\<lparr>cfg_of := c\<lparr>DriverName := n\<rparr>, tls := o2, drivers := (drivers w)(n \<mapsto> drv), gorm_state := g\<rparr>))"
proof -
  have "gorm_calls gl tc (c\<lparr>DriverName := n\<rparr>) = gorm_calls gl tc c" for c n
    by (simp add: fun_eq_iff gorm_calls_def db_prometheus_def set_pool_def)
  moreover have "AuthMethodAWSIAM \<noteq> AuthMethodUsernamePassword" by (simp add: AuthMethodAWSIAM_def AuthMethodUsernamePassword_def)
  moreover obtain drv o2 where "NewDriver lib aws (rds_config (db_defaults (cfg_of w))) (tls w) = (drv, o2)" by fastforce
  ultimately show ?thesis
    by (cases "AuthMethod (db_defaults (cfg_of w)) = AuthMethodAWSIAM"; cases "AuthMethod (db_defaults (cfg_of w)) = AuthMethodUsernamePassword")
      (simp_all add: db_New_def db_New_cfg_def Let_def op_bind_eq_ok db_dialector_ok db_connect_ok)
qed

text \<open>
  With IAM a second \<^verbatim>\<open>New\<close> under the same driver name panics, whatever became of the first: also when that one registered its driver and
  then failed to connect, so that a connection cannot be retried.
\<close>

theorem db_New_again_panics:
  assumes "AuthMethod (db_defaults (cfg_of w)) = AuthMethodAWSIAM" and "AuthMethod (db_defaults c) = AuthMethodAWSIAM"
    and "iam_driver_name (db_defaults c) = iam_driver_name (db_defaults (cfg_of w))"
    and "db_New lib aws gl tc False w = (r, w1)"
  shows "fst (db_New lib' aws' gl' tc' False (w1\<lparr>cfg_of := c\<rparr>)) =
    Panics (''sql: Register called twice for driver '' @ iam_driver_name (db_defaults c))"
proof -
  let ?n = "iam_driver_name (db_defaults c)"
  have ne: "AuthMethodAWSIAM \<noteq> AuthMethodUsernamePassword" by (simp add: AuthMethodAWSIAM_def AuthMethodUsernamePassword_def)
  let ?w = "w\<lparr>cfg_of := db_defaults (cfg_of w)\<rparr>"
  have "?n \<in> dom (drivers (snd (db_dialector lib aws ?w)))"
    using assms(1,3) ne by (auto simp: db_dialector_def Let_def op_bind_def sql_Register_def split: prod.splits)
  then have "?n \<in> dom (drivers w1)"
    using assms(4) db_connect_drivers [of gl tc] unfolding db_New_def db_New_cfg_def Let_def op_bind_def
    by (auto split: prod.splits outcome.splits sum.splits) (metis snd_conv)
  then show ?thesis using assms(2) ne
    by (auto simp: db_New_def db_New_cfg_def db_dialector_def Let_def op_bind_def sql_Register_def split: prod.splits)
qed

definition example_db :: DBConfig where
  "example_db = \<lparr>DriverName = [], Username = ''app'', Password = [], Host = ''db'', DatabaseName = ''shop'', Port = 9, MaxIdleConns = 1,
     MaxOpenConns = 2, ConnMaxLifetime = 0, ConnMaxIdleTime = 0, LogLevel = [], AuthMethod = AuthMethodAWSIAM, AwsRegion = ''eu''\<rparr>"

definition example_certs :: "string cert_lib" where
  "example_certs = \<lparr>http_Get = (\<lambda>_ u. Inr u), io_ReadAll = Inr, AppendCertsFromPEM = (\<lambda>_. True), RegisterTLSConfig = (\<lambda>_ _. None)\<rparr>"

definition example_aws :: "nat aws_lib" where
  "example_aws = \<lparr>LoadDefaultConfig = (\<lambda>n. if n = 0 then Inl (Errorf ''no credentials'') else Inr n),
     BuildAuthToken = (\<lambda>n e r u c. Inr (e @ '' '' @ r @ '' '' @ u))\<rparr>"

definition example_once :: tls_once where
  "example_once = \<lparr>once_done = False, registerTLSErr = None, downloads = 0\<rparr>"


theorem db_New_again_panics_witness:
  "let gl = \<lparr>gorm_Open = (\<lambda>_ _ g. (Inl (Errorf ''down''), g)), gorm_Use = (\<lambda>_ _ g. (None, g)), gorm_DB = (\<lambda>d g. (Inr d, g)),
       SetMaxIdleConns = (\<lambda>_ _ g. g), SetMaxOpenConns = (\<lambda>_ _ g. g), SetConnMaxLifetime = (\<lambda>_ _ g. g), SetConnMaxIdleTime = (\<lambda>_ _ g. g),
       gorm_Raw = (\<lambda>_ _ g. (None, g)), sql_Close = (\<lambda>_ g. (None, g))\<rparr> :: (unit, unit, unit) gorm;
     (r, w1) = db_New example_certs example_aws gl (loadTracingConfigFromEnv (\<lambda>_. [])) False
       \<lparr>drivers = Map.empty, tls = example_once, cfg_of = example_db, gorm_state = ()\<rparr>
   in fst (db_New example_certs example_aws gl (loadTracingConfigFromEnv (\<lambda>_. [])) False (w1\<lparr>cfg_of := example_db\<rparr>)) =
        Panics ''sql: Register called twice for driver rds''"
proof -
  have d: "AuthMethod (db_defaults example_db) = AuthMethodAWSIAM" "iam_driver_name (db_defaults example_db) = ''rds''" by code_simp+
  show ?thesis unfolding Let_def
    by (split prod.split) (use d in \<open>auto dest!: db_New_again_panics [rotated 3, where c = example_db and lib' = example_certs and aws' = example_aws]\<close>)
qed

end
