(* ===== verification/Redis_Store.thy ===== *)
theory Redis_Store
  imports Telemetry
begin

text \<open>
  The Redis store: its construction and its component (\<^verbatim>\<open>redis/redis.go\<close>) and its commands (\<^verbatim>\<open>redis/redis_store.go\<close>).  The
  client library, the files, the Prometheus registry and the tracing hook are arguments; log lines are left out.
\<close>

section \<open>Construction\<close>

record RedisConfig =
  redis_Host :: string
  redis_Port :: int
  redis_Password :: string
  redis_Username :: string
  redis_DB :: int
  redis_EnableTracing :: bool
  redis_MaxIdleConns :: int
  redis_MaxActiveConns :: int
  TLSEnabled :: bool
  TLSCAFile :: string
  TLSCertFile :: string
  TLSKeyFile :: string
  TLSServerName :: string
  TLSInsecureSkipVerify :: bool

text \<open>
  The options of the client.  \<open>RootCAs\<close> is \<^const>\<open>None\<close> for the roots of the system and otherwise the certificates of a pool, which stays empty when the file
  holds none; certificates are the contents of their files.
\<close>

record tls_options =
  InsecureSkipVerify :: bool
  RootCAs :: "string list option"
  Certificates :: "(string \<times> string) list"
  tls_ServerName :: string

record redis_options =
  opt_Addr :: string
  opt_Password :: string
  opt_Username :: string
  opt_DB :: int
  DisableIdentity :: bool
  opt_MaxIdleConns :: int
  opt_MaxActiveConns :: int
  opt_TLSConfig :: "tls_options option"

record redis_files =
  os_ReadFile :: "string \<Rightarrow> string res"
  pem_certs :: "string \<Rightarrow> string list"
  LoadX509KeyPair :: "string \<Rightarrow> string \<Rightarrow> (string \<times> string) res"

definition redis_base_options :: "RedisConfig \<Rightarrow> redis_options" where
  "redis_base_options c =
     \<lparr>opt_Addr = redis_Host c @ '':'' @ Itoa (redis_Port c), opt_Password = redis_Password c, opt_Username = redis_Username c,
      opt_DB = redis_DB c, DisableIdentity = True, opt_MaxIdleConns = redis_MaxIdleConns c, opt_MaxActiveConns = redis_MaxActiveConns c,
      opt_TLSConfig = None\<rparr>"

definition redis_tls :: "redis_files \<Rightarrow> RedisConfig \<Rightarrow> tls_options res" where
  "redis_tls fs c =
     (let t = \<lparr>InsecureSkipVerify = TLSInsecureSkipVerify c, RootCAs = None, Certificates = [], tls_ServerName = []\<rparr> in
      res_bind (if TLSCAFile c \<noteq> [] then res_bind (os_ReadFile fs (TLSCAFile c)) (\<lambda>caCert. Inr (t\<lparr>RootCAs := Some (pem_certs fs caCert)\<rparr>))
                else Inr t) (\<lambda>t.
      res_bind (if TLSCertFile c \<noteq> [] \<and> TLSKeyFile c \<noteq> []
                then res_bind (LoadX509KeyPair fs (TLSCertFile c) (TLSKeyFile c)) (\<lambda>cert. Inr (t\<lparr>Certificates := [cert]\<rparr>))
                else Inr t) (\<lambda>t.
      Inr (if TLSServerName c \<noteq> [] then t\<lparr>tls_ServerName := TLSServerName c\<rparr> else t))))"

definition redis_options_of :: "redis_files \<Rightarrow> RedisConfig \<Rightarrow> redis_options res" where
  "redis_options_of fs c =
     (if TLSEnabled c then res_bind (redis_tls fs c) (\<lambda>t. Inr ((redis_base_options c)\<lparr>opt_TLSConfig := Some t\<rparr>))
      else Inr (redis_base_options c))"

text \<open>
  The ping loop: \<open>ping n\<close> is the reply of the \<open>n\<close>-th ping, the result whether it connected and the pings made
  (the counter starts at 0 and grows by one, so \<open>3 \<le> i\<close> is \<^verbatim>\<open>i == 3\<close>).
\<close>

function ping_loop :: "(nat \<Rightarrow> string) \<Rightarrow> nat \<Rightarrow> bool \<times> nat" where
  "ping_loop ping i =
     (if ping i = ''PONG'' then (True, Suc i) else if 3 \<le> i then (False, Suc i) else ping_loop ping (Suc i))"
  by auto
termination by (relation "measure (\<lambda>(p, i). 3 - i)") auto

declare ping_loop.simps [simp del]

text \<open>
  The client library on a state \<^typ>\<open>'s\<close>: a client \<^typ>\<open>'c\<close> made from options, the registration of its metrics, which may panic, the tracing hook,
  the replies to pings and the closing of a client.
\<close>

record ('c, 's) redis_lib =
  redis_NewClient :: "redis_options \<Rightarrow> 's \<Rightarrow> 'c \<times> 's"
  register_collector :: "string \<Rightarrow> string \<Rightarrow> 'c \<Rightarrow> (unit, 's) op"
  InstrumentTracing :: "'c \<Rightarrow> 's \<Rightarrow> gerror option \<times> 's"
  redis_Ping :: "'c \<Rightarrow> 's \<Rightarrow> nat \<Rightarrow> string"
  redis_Close :: "'c \<Rightarrow> 's \<Rightarrow> gerror option \<times> 's"

definition Redis_connect :: "('c, 's) redis_lib \<Rightarrow> 'c \<Rightarrow> ('c, 's) op" where
  "Redis_connect lib rdb s =
     (if \<not> fst (ping_loop (redis_Ping lib rdb s) 0) then (Returns (Inl (Errorf ''redis is not connected'')), s)
      else (Returns (Inr rdb), s))"

definition Redis_New :: "redis_files \<Rightarrow> ('c, 's) redis_lib \<Rightarrow> TracingConfig \<Rightarrow> RedisConfig \<Rightarrow> ('c, 's) op" where
  "Redis_New fs lib tc config =
     op_bind (op_res (\<lambda>s. (redis_options_of fs config, s))) (\<lambda>options.
     op_bind (op_val (redis_NewClient lib options)) (\<lambda>rdb.
     op_bind (register_collector lib ''redis'' ''client'' rdb) (\<lambda>_.
     op_bind (op_when (IsEnableRedisTracing tc) (op_err (InstrumentTracing lib rdb))) (\<lambda>_.
     Redis_connect lib rdb))))"

definition redis_component :: "('c, 's) redis_lib \<Rightarrow> 'c option \<Rightarrow> 's component" where
  "redis_component lib client = \<lparr>Name = ''redis'', Start = (\<lambda>_ s. (None, s)),
     Stop = (\<lambda>_ s. case client of None \<Rightarrow> (None, s) | Some c \<Rightarrow> redis_Close lib c s)\<rparr>"

section \<open>Commands\<close>

definition DefaultCommandTimeout :: int where
  "DefaultCommandTimeout = 5 * second"

definition wrapperCtx :: "int \<Rightarrow> go_ctx \<Rightarrow> go_ctx" where
  "wrapperCtx now ctx = (if deadline ctx = None then WithTimeout ctx now DefaultCommandTimeout else ctx)"

record 's redis_client =
  rc_Get :: "go_ctx \<Rightarrow> string \<Rightarrow> 's \<Rightarrow> string res \<times> 's"
  rc_Set :: "go_ctx \<Rightarrow> string \<Rightarrow> string \<Rightarrow> int \<Rightarrow> 's \<Rightarrow> gerror option \<times> 's"
  rc_Del :: "go_ctx \<Rightarrow> string list \<Rightarrow> 's \<Rightarrow> gerror option \<times> 's"
  rc_Exists :: "go_ctx \<Rightarrow> string list \<Rightarrow> 's \<Rightarrow> int res \<times> 's"
  rc_Expire :: "go_ctx \<Rightarrow> string \<Rightarrow> int \<Rightarrow> 's \<Rightarrow> gerror option \<times> 's"
  rc_Incr :: "go_ctx \<Rightarrow> string \<Rightarrow> 's \<Rightarrow> int res \<times> 's"

definition redis_Nil :: gerror where
  "redis_Nil = Sentinel ''redis: nil''"

text \<open>\<^verbatim>\<open>Result()\<close> of a failed command carries the empty string beside the error.\<close>

definition Redis_Get :: "'s redis_client \<Rightarrow> int \<Rightarrow> go_ctx \<Rightarrow> string \<Rightarrow> 's \<Rightarrow> string res \<times> 's" where
  "Redis_Get cl now ctx key s =
     (case rc_Get cl (wrapperCtx now ctx) key s of
        (Inl err, s') \<Rightarrow> (if \<not> errors_Is err redis_Nil then (Inl err, s') else (Inr [], s'))
      | (Inr v, s') \<Rightarrow> (Inr v, s'))"

definition Redis_Set :: "'s redis_client \<Rightarrow> int \<Rightarrow> go_ctx \<Rightarrow> string \<Rightarrow> string \<Rightarrow> int \<Rightarrow> 's \<Rightarrow> gerror option \<times> 's" where
  "Redis_Set cl now ctx key val expiration s = rc_Set cl (wrapperCtx now ctx) key val expiration s"

definition Redis_Del :: "'s redis_client \<Rightarrow> int \<Rightarrow> go_ctx \<Rightarrow> string list \<Rightarrow> 's \<Rightarrow> gerror option \<times> 's" where
  "Redis_Del cl now ctx ks s = rc_Del cl (wrapperCtx now ctx) ks s"

definition Redis_Exists :: "'s redis_client \<Rightarrow> int \<Rightarrow> go_ctx \<Rightarrow> string list \<Rightarrow> 's \<Rightarrow> bool res \<times> 's" where
  "Redis_Exists cl now ctx ks s =
     (case rc_Exists cl (wrapperCtx now ctx) ks s of
        (Inl err, s') \<Rightarrow> (Inl err, s')
      | (Inr val, s') \<Rightarrow> (Inr (val = int (length ks)), s'))"

definition Redis_Expire :: "'s redis_client \<Rightarrow> int \<Rightarrow> go_ctx \<Rightarrow> string \<Rightarrow> int \<Rightarrow> 's \<Rightarrow> gerror option \<times> 's" where
  "Redis_Expire cl now ctx key expiration s = rc_Expire cl (wrapperCtx now ctx) key expiration s"

definition Redis_Incr :: "'s redis_client \<Rightarrow> int \<Rightarrow> go_ctx \<Rightarrow> string \<Rightarrow> 's \<Rightarrow> int res \<times> 's" where
  "Redis_Incr cl now ctx key s =
     (case rc_Incr cl (wrapperCtx now ctx) key s of
        (Inl err, s') \<Rightarrow> (Inl err, s')
      | (Inr val, s') \<Rightarrow> (Inr val, s'))"

definition GetClient :: "'c option \<Rightarrow> 'c option" where
  "GetClient client = client"

section \<open>Properties\<close>

lemma ping_loop_ok: "i \<le> 3 \<Longrightarrow> fst (ping_loop ping i) \<longleftrightarrow> (\<exists>j. i \<le> j \<and> j \<le> 3 \<and> ping j = ''PONG'')"
proof (induction ping i rule: ping_loop.induct)
  case (1 ping i)
  show ?case
  proof (cases "ping i = ''PONG'' \<or> i = 3")
    case True
    then show ?thesis using 1(2) by (subst ping_loop.simps) (auto simp: le_Suc_eq)
  next
    case False
    then have "i \<le> j \<and> j \<le> 3 \<and> ping j = ''PONG'' \<longleftrightarrow> Suc i \<le> j \<and> j \<le> 3 \<and> ping j = ''PONG''" for j
      by (cases "j = i") auto
    then have "(\<exists>j. i \<le> j \<and> j \<le> 3 \<and> ping j = ''PONG'') \<longleftrightarrow> (\<exists>j. Suc i \<le> j \<and> j \<le> 3 \<and> ping j = ''PONG'')"
      by (simp only:)
    moreover have "ping_loop ping i = ping_loop ping (Suc i)" using False 1(2) by (subst ping_loop.simps) simp
    ultimately show ?thesis using 1 False by simp
  qed
qed

text \<open>
  A store is made exactly when the TLS files can be read, the metrics collector is accepted, tracing can be installed when it is enabled,
  and one of four pings is answered.
\<close>

theorem Redis_New_ok:
  "Redis_New fs lib tc config s = (Returns (Inr rdb), s') \<longleftrightarrow>
     (\<exists>options s1 s2. redis_options_of fs config = Inr options \<and> redis_NewClient lib options s = (rdb, s1) \<and>
        register_collector lib ''redis'' ''client'' rdb s1 = (Returns (Inr ()), s2) \<and>
        (if IsEnableRedisTracing tc then InstrumentTracing lib rdb s2 = (None, s') else s' = s2) \<and>
        (\<exists>j < 4. redis_Ping lib rdb s' j = ''PONG''))"
proof -
  have "j \<le> 3 \<longleftrightarrow> j < 4" for j :: nat by auto
  then have p: "fst (ping_loop ping 0) \<longleftrightarrow> (\<exists>j < 4. ping j = ''PONG'')" for ping using ping_loop_ok [of 0 ping] by simp
  have "Redis_connect lib c t = (Returns (Inr rdb), s') \<longleftrightarrow> c = rdb \<and> t = s' \<and> (\<exists>j < 4. redis_Ping lib rdb s' j = ''PONG'')" for c t
    by (auto simp: Redis_connect_def p)
  then show ?thesis
    by (cases "IsEnableRedisTracing tc") (auto simp: Redis_New_def op_bind_eq_ok op_when_ok)
qed

text \<open>
  The TLS options.  Without TLS none are set; with it the CA file, the server name and the key pair are used whether or not verification is
  on, and one file of a key pair without the other is ignored.
\<close>

theorem redis_options_tls:
  assumes "redis_options_of fs c = Inr opts"
  shows "(\<not> TLSEnabled c \<longrightarrow> opt_TLSConfig opts = None) \<and>
    (TLSEnabled c \<longrightarrow> (\<exists>t. opt_TLSConfig opts = Some t \<and> InsecureSkipVerify t = TLSInsecureSkipVerify c \<and> tls_ServerName t = TLSServerName c \<and>
       (if TLSCAFile c = [] then RootCAs t = None else (\<exists>pem. os_ReadFile fs (TLSCAFile c) = Inr pem \<and> RootCAs t = Some (pem_certs fs pem))) \<and>
       (if TLSCertFile c = [] \<or> TLSKeyFile c = [] then Certificates t = []
        else (\<exists>kp. LoadX509KeyPair fs (TLSCertFile c) (TLSKeyFile c) = Inr kp \<and> Certificates t = [kp]))))"
  using assms by (auto simp: redis_options_of_def redis_tls_def redis_base_options_def Let_def res_bind_eq_Inr split: if_splits)

text \<open>
  Redis commands.  Every command runs under a deadline: the caller's, or five seconds from now.  Reading a missing key is
  the empty string and no error, so that it cannot be told from an empty value; every other error is passed on.
\<close>

theorem Redis_commands:
  "deadline (wrapperCtx now ctx) = Some (case deadline ctx of None \<Rightarrow> now + 5000000000 | Some t \<Rightarrow> t) \<and>
   fst (Redis_Get cl now ctx key s) =
     (case fst (rc_Get cl (wrapperCtx now ctx) key s) of
        Inr v \<Rightarrow> Inr v | Inl e \<Rightarrow> (if errors_Is e redis_Nil then Inr [] else Inl e))"
  by (auto simp: wrapperCtx_def WithTimeout_def DefaultCommandTimeout_def second_def Redis_Get_def
      split: option.splits prod.splits sum.splits)

end
