(* ===== verification/Metrics.thy ===== *)
theory Metrics
  imports Lifecycle Go_Time
begin

text \<open>
  Metrics: the registry that adapts the Kafka library's metrics to Prometheus (\<^verbatim>\<open>kafka/metrics.go\<close>) and the metrics of
  a service (\<^verbatim>\<open>metrics/metrics.go\<close>).  Both keep a map from names to metrics; what their callers rely on is the
  interface \<open>registry\<close>.
\<close>

section \<open>What a registry promises\<close>

text \<open>
  \<open>entry s n\<close> is the metric registered under a name, \<open>add n x s\<close> a call that registers one unless the name is taken.
  An entry is never replaced, and an entry that exists after a call is the old one or a new one under the name of the call.
\<close>

locale registry =
  fixes valid :: "'s \<Rightarrow> bool"
    and entry :: "'s \<Rightarrow> string \<Rightarrow> 'm option"
    and add :: "string \<Rightarrow> 'x \<Rightarrow> 's \<Rightarrow> 's"
  assumes add_valid: "valid s \<Longrightarrow> valid (add n x s)"
    and add_keeps: "valid s \<Longrightarrow> entry s m = Some v \<Longrightarrow> entry (add n x s) m = Some v"
    and add_other: "valid s \<Longrightarrow> m \<noteq> n \<Longrightarrow> entry (add n x s) m = entry s m"
begin

lemma adds_keep:
  "valid s \<Longrightarrow> entry s m = Some v \<Longrightarrow> entry (fold (\<lambda>(n, x). add n x) nxs s) m = Some v \<and> valid (fold (\<lambda>(n, x). add n x) nxs s)"
proof (induction nxs arbitrary: s)
  case (Cons nx nxs)
  then show ?case using Cons.IH [of "add (fst nx) (snd nx) s"] add_keeps add_valid by (cases nx) auto
qed simp

lemma adds_untouched:
  "valid s \<Longrightarrow> m \<notin> fst ` set nxs \<Longrightarrow> entry (fold (\<lambda>(n, x). add n x) nxs s) m = entry s m"
proof (induction nxs arbitrary: s)
  case (Cons nx nxs)
  then show ?case using Cons.IH [of "add (fst nx) (snd nx) s"] add_other add_valid by (cases nx) auto
qed simp

end

section \<open>The Kafka registry\<close>

text \<open>
  The kinds of metrics of the Kafka library.  A caller passes a constructor or an instance; what the registry hands out
  is an adapter around a Prometheus collector, or the argument itself.  A collector has a name and an identity.
\<close>

datatype kind = Counter | Gauge | GaugeFloat64 | Meter | Histogram | Timer

datatype collector = PromGauge string nat | PromSummary string nat | OtherCollector nat

datatype any_metric = Constructor kind | Instance kind | PromCounterAdapter collector | PromGaugeAdapter collector
  | PromMeterAdapter collector | PromHistogramAdapter collector | OtherValue nat

text \<open>
  The state: the entries of one registry, the adapters of the process (\<^verbatim>\<open>promMetrics\<close>), the state of the default
  registerer, and a counter for the identities of new collectors.  The registerer is Prometheus's: an argument, which answers that the
  collector is registered, that another one with its name was before, or that it failed.
\<close>

datatype register_result = Registered | AlreadyRegistered collector | RegisterFailed gerror

type_synonym 'p registerer = "collector \<Rightarrow> 'p \<Rightarrow> register_result \<times> 'p"

record 'p prom_state =
  registered :: "string \<rightharpoonup> any_metric"
  promMetrics :: "string \<rightharpoonup> any_metric"
  defaultRegisterer :: 'p
  fresh :: nat

definition NewPromRegistry :: "'p prom_state \<Rightarrow> 'p prom_state" where
  "NewPromRegistry s = s\<lparr>registered := Map.empty\<rparr>"

definition sanitizeMetricName :: "string \<Rightarrow> string" where
  "sanitizeMetricName name = ReplaceAll name ''-'' ''_''"

text \<open>A constructor is called, anything else is used as it is.\<close>

fun actual_of :: "any_metric \<Rightarrow> any_metric" where
  "actual_of (Constructor k) = Instance k"
| "actual_of x = x"

text \<open>The interface of the Kafka library that a value has: the adapters have the ones they adapt.\<close>

fun kind_of :: "any_metric \<Rightarrow> kind option" where
  "kind_of (Instance k) = Some k"
| "kind_of (PromCounterAdapter _) = Some Counter"
| "kind_of (PromGaugeAdapter _) = Some Gauge"
| "kind_of (PromMeterAdapter _) = Some Meter"
| "kind_of (PromHistogramAdapter _) = Some Histogram"
| "kind_of _ = None"

text \<open>
  Registration of a new gauge or summary: under a taken name the existing collector is used, and the type assertion on it
  panics when it is of another kind; after any other failure the new, unregistered one is used.
\<close>

definition register_gauge :: "'p registerer \<Rightarrow> string \<Rightarrow> 'p prom_state \<Rightarrow> collector outcome \<times> 'p prom_state" where
  "register_gauge Reg promName s =
     (let promGauge = PromGauge promName (fresh s); (r, p') = Reg promGauge (defaultRegisterer s);
          s' = s\<lparr>fresh := fresh s + 1, defaultRegisterer := p'\<rparr>
      in (case r of
            AlreadyRegistered (PromGauge nm i) \<Rightarrow> Returns (Inr (PromGauge nm i))
          | AlreadyRegistered _ \<Rightarrow> Panics ''interface conversion''
          | _ \<Rightarrow> Returns (Inr promGauge), s'))"

definition register_summary :: "'p registerer \<Rightarrow> string \<Rightarrow> 'p prom_state \<Rightarrow> collector outcome \<times> 'p prom_state" where
  "register_summary Reg promName s =
     (let promSummary = PromSummary promName (fresh s); (r, p') = Reg promSummary (defaultRegisterer s);
          s' = s\<lparr>fresh := fresh s + 1, defaultRegisterer := p'\<rparr>
      in (case r of
            AlreadyRegistered (PromSummary nm i) \<Rightarrow> Returns (Inr (PromSummary nm i))
          | AlreadyRegistered _ \<Rightarrow> Panics ''interface conversion''
          | _ \<Rightarrow> Returns (Inr promSummary), s'))"

definition make_adapter :: "'p registerer \<Rightarrow> any_metric \<Rightarrow> string \<Rightarrow> 'p prom_state \<Rightarrow> any_metric option outcome \<times> 'p prom_state" where
  "make_adapter Reg actual promName s =
     (case kind_of actual of
        Some Counter \<Rightarrow> (case register_gauge Reg promName s of (r, s') \<Rightarrow> (out_bind r (\<lambda>c. Returns (Inr (Some (PromCounterAdapter c)))), s'))
      | Some Gauge \<Rightarrow> (case register_gauge Reg promName s of (r, s') \<Rightarrow> (out_bind r (\<lambda>c. Returns (Inr (Some (PromGaugeAdapter c)))), s'))
      | Some Meter \<Rightarrow> (case register_gauge Reg promName s of (r, s') \<Rightarrow> (out_bind r (\<lambda>c. Returns (Inr (Some (PromMeterAdapter c)))), s'))
      | Some Histogram \<Rightarrow> (case register_summary Reg promName s of (r, s') \<Rightarrow> (out_bind r (\<lambda>c. Returns (Inr (Some (PromHistogramAdapter c)))), s'))
      | _ \<Rightarrow> (Returns (Inr None), s))"

text \<open>The first part of \<^verbatim>\<open>GetOrRegister\<close>, under the read lock, and the second, under the write lock.\<close>

definition gor_read :: "string \<Rightarrow> 'p prom_state \<Rightarrow> any_metric option" where
  "gor_read name s = registered s name"

definition gor_locked :: "'p registerer \<Rightarrow> string \<Rightarrow> any_metric \<Rightarrow> 'p prom_state \<Rightarrow> any_metric outcome \<times> 'p prom_state" where
  "gor_locked Reg name i s =
     (case registered s name of
        Some metric \<Rightarrow> (Returns (Inr metric), s)
      | None \<Rightarrow>
          (let actual = actual_of i; promName = sanitizeMetricName name in
           case promMetrics s promName of
             Some metric \<Rightarrow> (Returns (Inr metric), s\<lparr>registered := (registered s)(name \<mapsto> metric)\<rparr>)
           | None \<Rightarrow>
               (case make_adapter Reg actual promName s of
                  (Panics p, s') \<Rightarrow> (Panics p, s')
                | (Returns (Inl e), s') \<Rightarrow> (Returns (Inl e), s')
                | (Returns (Inr (Some adapter)), s') \<Rightarrow>
                    (Returns (Inr adapter),
                     s'\<lparr>promMetrics := (promMetrics s')(promName \<mapsto> adapter), registered := (registered s')(name \<mapsto> adapter)\<rparr>)
                | (Returns (Inr None), s') \<Rightarrow> (Returns (Inr i), s'))))"

definition GetOrRegister :: "'p registerer \<Rightarrow> string \<Rightarrow> any_metric \<Rightarrow> 'p prom_state \<Rightarrow> any_metric outcome \<times> 'p prom_state" where
  "GetOrRegister Reg name i s =
     (case gor_read name s of
        Some metric \<Rightarrow> (Returns (Inr metric), s)
      | None \<Rightarrow> gor_locked Reg name i s)"

definition Prom_Register :: "'p registerer \<Rightarrow> string \<Rightarrow> any_metric \<Rightarrow> 'p prom_state \<Rightarrow> gerror option \<times> 'p prom_state" where
  "Prom_Register Reg name i s = (None, snd (GetOrRegister Reg name i s))"

definition Prom_Get :: "string \<Rightarrow> 'p prom_state \<Rightarrow> any_metric option" where
  "Prom_Get name s = registered s name"

definition Unregister :: "string \<Rightarrow> 'p prom_state \<Rightarrow> 'p prom_state" where
  "Unregister name s = s\<lparr>registered := (registered s)(name := None)\<rparr>"

definition UnregisterAll :: "'p prom_state \<Rightarrow> 'p prom_state" where
  "UnregisterAll s = s\<lparr>registered := Map.empty\<rparr>"

text \<open>
  The adapters on the values of the collectors: gauges hold a float, summaries what was observed.  \<^verbatim>\<open>float64\<close> of an integer and the sum
  of two floats round.  Reading back gives zero, as the methods of the adapters do.
\<close>

record collector_values =
  gauge_of :: "string \<Rightarrow> rat"
  observed :: "string \<Rightarrow> rat list"

fun gauge_name :: "collector \<Rightarrow> string" where
  "gauge_name (PromGauge n _) = n"
| "gauge_name (PromSummary n _) = n"
| "gauge_name (OtherCollector _) = []"

definition float_of_int :: "int \<Rightarrow> rat" where
  "float_of_int v = fl64 (of_int v)"

definition gauge_Set :: "collector \<Rightarrow> rat \<Rightarrow> collector_values \<Rightarrow> collector_values" where
  "gauge_Set g x s = s\<lparr>gauge_of := (gauge_of s)(gauge_name g := x)\<rparr>"

definition gauge_Add :: "collector \<Rightarrow> rat \<Rightarrow> collector_values \<Rightarrow> collector_values" where
  "gauge_Add g x s = gauge_Set g (fl64 (gauge_of s (gauge_name g) + x)) s"

definition Counter_Clear :: "collector \<Rightarrow> collector_values \<Rightarrow> collector_values" where
  "Counter_Clear g s = gauge_Set g 0 s"

definition Counter_Inc :: "int \<Rightarrow> collector \<Rightarrow> collector_values \<Rightarrow> collector_values" where
  "Counter_Inc v g s = gauge_Add g (float_of_int v) s"

definition Counter_Dec :: "int \<Rightarrow> collector \<Rightarrow> collector_values \<Rightarrow> collector_values" where
  "Counter_Dec v g s = gauge_Add g (- float_of_int v) s"

definition Counter_Count :: "collector \<Rightarrow> collector_values \<Rightarrow> int" where
  "Counter_Count g s = 0"

definition Gauge_Update :: "int \<Rightarrow> collector \<Rightarrow> collector_values \<Rightarrow> collector_values" where
  "Gauge_Update v g s = gauge_Set g (float_of_int v) s"

definition Gauge_Value :: "collector \<Rightarrow> collector_values \<Rightarrow> int" where
  "Gauge_Value g s = 0"

definition Meter_Mark :: "int \<Rightarrow> collector \<Rightarrow> collector_values \<Rightarrow> collector_values" where
  "Meter_Mark v g s = gauge_Add g (float_of_int v) s"

definition Histogram_Update :: "int \<Rightarrow> collector \<Rightarrow> collector_values \<Rightarrow> collector_values" where
  "Histogram_Update v g s = s\<lparr>observed := (observed s)(gauge_name g := observed s (gauge_name g) @ [float_of_int v])\<rparr>"

definition Histogram_Count :: "collector \<Rightarrow> collector_values \<Rightarrow> int" where
  "Histogram_Count g s = 0"

text \<open>The readings of a meter and of a histogram that are floats: all zero.\<close>

definition Meter_Rate :: "collector \<Rightarrow> collector_values \<Rightarrow> rat" where
  "Meter_Rate g s = 0"

definition Histogram_Percentile :: "rat \<Rightarrow> collector \<Rightarrow> collector_values \<Rightarrow> rat" where
  "Histogram_Percentile q g s = 0"

lemma make_adapter_registered: "registered (snd (make_adapter Reg a n s)) = registered s"
  by (auto simp: make_adapter_def register_gauge_def register_summary_def Let_def split: kind.splits option.splits prod.splits)

lemma gor_locked_registered:
  "registered (snd (gor_locked Reg n i s)) =
     (case fst (gor_locked Reg n i s) of
        Returns (Inr m) \<Rightarrow> (if registered s n = None \<and> registered (snd (gor_locked Reg n i s)) n \<noteq> None then (registered s)(n \<mapsto> m) else registered s)
      | _ \<Rightarrow> registered s)"
proof (cases "registered s n")
  case (Some m)
  then show ?thesis by (simp add: gor_locked_def)
next
  case None
  obtain r s' where m: "make_adapter Reg (actual_of i) (sanitizeMetricName n) s = (r, s')"
    by (cases "make_adapter Reg (actual_of i) (sanitizeMetricName n) s")
  have "registered s' = registered s" using make_adapter_registered [of Reg "actual_of i" "sanitizeMetricName n" s] m by simp
  then show ?thesis using None m
    by (auto simp: gor_locked_def Let_def split: option.splits outcome.splits sum.splits)
qed

lemma gor_locked_keeps: "registered s m = Some v \<Longrightarrow> registered (snd (gor_locked Reg n i s)) m = Some v"
  by (subst gor_locked_registered) (auto split: outcome.splits sum.splits)

lemma gor_locked_other: "m \<noteq> n \<Longrightarrow> registered (snd (gor_locked Reg n i s)) m = registered s m"
  by (subst gor_locked_registered) (auto split: outcome.splits sum.splits)

lemma GetOrRegister_snd: "snd (GetOrRegister Reg n i s) = (if registered s n = None then snd (gor_locked Reg n i s) else s)"
  by (simp add: GetOrRegister_def gor_read_def split: option.split)

interpretation pr: registry "\<lambda>s. True" registered "\<lambda>n i s. snd (gor_locked Reg n i s)" for Reg
  by unfold_locales (auto simp: gor_locked_keeps gor_locked_other)

section \<open>The metrics of a service\<close>

record MetricsConfig =
  Namespace :: string
  Subsystem :: string
  ServiceName :: string
  Port :: int
  Path :: string

definition DefaultConfig :: MetricsConfig where
  "DefaultConfig = \<lparr>Namespace = [], Subsystem = [], ServiceName = [], Port = 9090, Path = ''/metrics''\<rparr>"

text \<open>
  The instruments are their values: a counter by its labels (method, endpoint, status), the observed durations by
  method and endpoint, the in-flight gauge and the up gauge of the service.  \<open>server\<close> is the address of the running
  metrics server.  The process-wide parts are the names and custom collectors known to the default registerer, the patterns of
  the default mux and the servers started on it.
\<close>

record Metrics =
  httpRequestsTotal :: "string \<times> string \<times> string \<Rightarrow> nat"
  httpRequestDuration :: "string \<times> string \<Rightarrow> int list"
  httpRequestsInFlight :: int
  serviceUp :: int
  customMetrics :: "string \<rightharpoonup> nat"
  config :: "MetricsConfig option"
  server :: "string option"

record 'p process =
  prom :: 'p
  default_mux :: "string set"
  default_servers :: "string list"

text \<open>
  Prometheus's default registerer again, as the package-level functions use it: a collector is a vector with its namespace, subsystem and
  name, or a custom one.
\<close>

datatype prom_collector = Vec string string string | CustomCollector nat

record 'p prometheus =
  MustRegister :: "prom_collector list \<Rightarrow> 'p \<Rightarrow> unit outcome \<times> 'p"
  prom_Unregister :: "prom_collector \<Rightarrow> 'p \<Rightarrow> 'p"

text \<open>The operations are those of instances made by \<^verbatim>\<open>New\<close>, whose configuration is set; the label of the service is constant in them.\<close>

definition SetServiceUp :: "bool \<Rightarrow> Metrics \<Rightarrow> Metrics" where
  "SetServiceUp up m = m\<lparr>serviceUp := (if up then 1 else 0)\<rparr>"

definition metric_collectors :: "MetricsConfig \<Rightarrow> prom_collector list" where
  "metric_collectors c = map (Vec (Namespace c) (Subsystem c))
     [''http_requests_total'', ''http_request_duration_seconds'', ''http_requests_in_flight'', ''service_up'']"

definition Metrics_New :: "'p prometheus \<Rightarrow> MetricsConfig option \<Rightarrow> 'p process \<Rightarrow> Metrics outcome \<times> 'p process" where
  "Metrics_New pm cfg pr =
     (let c = (case cfg of None \<Rightarrow> DefaultConfig | Some c \<Rightarrow> c);
          m = \<lparr>httpRequestsTotal = (\<lambda>_. 0), httpRequestDuration = (\<lambda>_. []), httpRequestsInFlight = 0, serviceUp = 0,
               customMetrics = Map.empty, config = Some c, server = None\<rparr>;
          (r, p') = MustRegister pm (metric_collectors c) (prom pr)
      in (out_bind r (\<lambda>_. Returns (Inr (SetServiceUp False m))), pr\<lparr>prom := p'\<rparr>))"

text \<open>
  The middleware: the handler is given by the codes it passes to \<^verbatim>\<open>WriteHeader\<close> and whether it panics.  \<open>start\<close> and
  \<open>now\<close> are what the clock reads.
\<close>

definition recorded_status :: "int list \<Rightarrow> int" where
  "recorded_status codes = fold (\<lambda>code _. code) codes 200"

definition Metrics_HTTPMiddleware ::
  "(http_request \<Rightarrow> Metrics \<Rightarrow> (int list \<times> bool) \<times> Metrics) \<Rightarrow> int \<Rightarrow> int \<Rightarrow> string \<Rightarrow> http_request \<Rightarrow> Metrics \<Rightarrow> bool \<times> Metrics" where
  "Metrics_HTTPMiddleware next_h start now pattern r m =
     (let m1 = m\<lparr>httpRequestsInFlight := httpRequestsInFlight m + 1\<rparr>;
          ((codes, panicked), m2) = next_h r m1
      in if panicked then (True, m2\<lparr>httpRequestsInFlight := httpRequestsInFlight m2 - 1\<rparr>)
         else (let duration = now - start;
                   statusCode = Itoa (recorded_status codes);
                   url = (if pattern = [] then url_path r else pattern);
                   m3 = m2\<lparr>httpRequestsTotal := (httpRequestsTotal m2)((req_method r, url, statusCode) := Suc (httpRequestsTotal m2 (req_method r, url, statusCode)))\<rparr>;
                   m4 = m3\<lparr>httpRequestDuration := (httpRequestDuration m3)((req_method r, url) := httpRequestDuration m3 (req_method r, url) @ [duration])\<rparr>
               in (False, m4\<lparr>httpRequestsInFlight := httpRequestsInFlight m4 - 1\<rparr>)))"

definition AddCustomMetric :: "'p prometheus \<Rightarrow> string \<Rightarrow> nat \<Rightarrow> Metrics \<times> 'p process \<Rightarrow> unit outcome \<times> Metrics \<times> 'p process" where
  "AddCustomMetric pm name metric = (\<lambda>(m, pr).
     (if customMetrics m name \<noteq> None then (Returns (Inl (Errorf (''metric with name '' @ name @ '' already exists''))), m, pr)
      else (let m' = m\<lparr>customMetrics := (customMetrics m)(name \<mapsto> metric)\<rparr>;
                (r, p') = MustRegister pm [CustomCollector metric] (prom pr)
            in (r, m', pr\<lparr>prom := p'\<rparr>))))"

definition RemoveCustomMetric :: "'p prometheus \<Rightarrow> string \<Rightarrow> Metrics \<times> 'p process \<Rightarrow> gerror option \<times> Metrics \<times> 'p process" where
  "RemoveCustomMetric pm name = (\<lambda>(m, pr).
     (case customMetrics m name of
        None \<Rightarrow> (Some (Errorf (''metric with name '' @ name @ '' does not exist'')), m, pr)
      | Some metric \<Rightarrow>
          (None, m\<lparr>customMetrics := (customMetrics m)(name := None)\<rparr>, pr\<lparr>prom := prom_Unregister pm (CustomCollector metric) (prom pr)\<rparr>)))"

text \<open>\<^verbatim>\<open>StartMetricsServer\<close> serves the default mux, which panics on a pattern it already has.\<close>

definition StartMetricsServer :: "Metrics \<times> 'p process \<Rightarrow> unit outcome \<times> Metrics \<times> 'p process" where
  "StartMetricsServer = (\<lambda>(m, pr).
     (case config m of
        None \<Rightarrow> (Panics ''nil pointer dereference'', m, pr)
      | Some c \<Rightarrow>
          (if Path c \<in> default_mux pr then (Panics ''http: multiple registrations'', m, pr)
           else (Returns (Inr ()), SetServiceUp True m,
                 pr\<lparr>default_mux := insert (Path c) (default_mux pr), default_servers := default_servers pr @ ['':'' @ Itoa (Port c)]\<rparr>))))"

text \<open>
  \<^verbatim>\<open>StartMetricsServerWithContext\<close>, run to its end: it serves on the default mux until its context is done, then shuts its server down (\<open>Shutdown\<close>)
  within five seconds from \<open>now\<close>.
\<close>

definition StartMetricsServerWithContext ::
  "(go_ctx \<Rightarrow> string \<Rightarrow> gerror option) \<Rightarrow> int \<Rightarrow> MetricsConfig option \<Rightarrow> Metrics \<times> 'p process \<Rightarrow> unit outcome \<times> Metrics \<times> 'p process" where
  "StartMetricsServerWithContext Shutdown now cfg = (\<lambda>(m, pr).
     (let c = (case cfg of None \<Rightarrow> DefaultConfig | Some c \<Rightarrow> c); addr = '':'' @ Itoa (Port c) in
      if Path c \<in> default_mux pr then (Panics ''http: multiple registrations'', m, pr)
      else (let pr' = pr\<lparr>default_mux := insert (Path c) (default_mux pr)\<rparr> in
            case Shutdown (WithTimeout background now (5 * second)) addr of
              Some err \<Rightarrow> (Returns (Inl (Errorf (''metrics server shutdown error: '' @ err_msg err))), SetServiceUp True m, pr')
            | None \<Rightarrow> (Returns (Inr ()), SetServiceUp True m, pr'))))"

definition GetConfig :: "Metrics \<Rightarrow> MetricsConfig option" where
  "GetConfig m = config m"

definition Metrics_Start :: "Metrics \<Rightarrow> gerror option \<times> Metrics" where
  "Metrics_Start m =
     (case config m of
        None \<Rightarrow> (None, m)
      | Some c \<Rightarrow>
          (if server m \<noteq> None \<or> Port c = 0 then (None, m)
           else (None, SetServiceUp True (m\<lparr>server := Some ('':'' @ Itoa (Port c))\<rparr>))))"

text \<open>\<open>Shutdown\<close> is the graceful shutdown of the server at an address.\<close>

definition Metrics_Stop :: "(go_ctx \<Rightarrow> string \<Rightarrow> gerror option) \<Rightarrow> go_ctx \<Rightarrow> Metrics \<Rightarrow> gerror option \<times> Metrics" where
  "Metrics_Stop Shutdown ctx m =
     (let m1 = SetServiceUp False m in
      case server m1 of
        None \<Rightarrow> (None, m1)
      | Some addr \<Rightarrow> (let err = Shutdown ctx addr in (err, m1\<lparr>server := None\<rparr>)))"

definition metrics_component :: "(go_ctx \<Rightarrow> string \<Rightarrow> gerror option) \<Rightarrow> Metrics component" where
  "metrics_component Shutdown = \<lparr>Name = ''metrics'', Start = (\<lambda>_. Metrics_Start), Stop = Metrics_Stop Shutdown\<rparr>"

text \<open>
  The metrics of HTTP clients, by method, host, path and status, and the instrumented transport.  A transport returns a response, with its status, or an
  error; \<open>start\<close> and \<open>stop\<close> are the readings of the clock before and after it.
\<close>

record client_metrics =
  HttpClientMetricsRequest :: "string \<times> string \<times> string \<times> string \<Rightarrow> nat"
  HttpClientMetricsLatency :: "string \<times> string \<times> string \<Rightarrow> rat list"

definition RecordHttpClientMetricsRequest :: "string \<Rightarrow> string \<Rightarrow> string \<Rightarrow> string \<Rightarrow> client_metrics \<Rightarrow> client_metrics" where
  "RecordHttpClientMetricsRequest method host path status m =
     m\<lparr>HttpClientMetricsRequest := (HttpClientMetricsRequest m)((method, host, path, status) := Suc (HttpClientMetricsRequest m (method, host, path, status)))\<rparr>"

definition RecordHttpClientMetricsLatency :: "string \<Rightarrow> string \<Rightarrow> string \<Rightarrow> int \<Rightarrow> client_metrics \<Rightarrow> client_metrics" where
  "RecordHttpClientMetricsLatency method host path d m =
     m\<lparr>HttpClientMetricsLatency := (HttpClientMetricsLatency m)((method, host, path) := HttpClientMetricsLatency m (method, host, path) @ [duration_Seconds d])\<rparr>"

definition RoundTrip :: "(http_request \<Rightarrow> int res) \<Rightarrow> string \<Rightarrow> string \<Rightarrow> nanos \<Rightarrow> nanos \<Rightarrow> http_request \<Rightarrow> client_metrics \<Rightarrow> int res \<times> client_metrics" where
  "RoundTrip base req_host url_host start stop r m =
     (let res = base r;
          duration = time_Sub stop start;
          status = (case res of Inl _ \<Rightarrow> 500 | Inr code \<Rightarrow> code);
          host = (if req_host = [] then url_host else req_host)
      in (res, RecordHttpClientMetricsLatency (req_method r) host (url_path r) duration
                 (RecordHttpClientMetricsRequest (req_method r) host (url_path r) (Itoa status) m)))"

interpretation custom: registry "\<lambda>s. True" "\<lambda>(m, pr). customMetrics m" "\<lambda>n x s. snd (AddCustomMetric pm n x s)" for pm
  by unfold_locales (auto simp: AddCustomMetric_def Let_def split: prod.splits)

section \<open>Properties\<close>

text \<open>
  C23: one metric per name, under any interleaving.  When a call of \<^verbatim>\<open>GetOrRegister\<close> has registered \<open>m\<close> under a
  name, then after any further calls have run their locked part, by whichever callers and for whichever names, a
  reader finds \<open>m\<close>, and a caller that looked before and found nothing gets \<open>m\<close> too.
\<close>

theorem GetOrRegister_once:
  assumes "gor_locked Reg n i s = (Returns (Inr m), s1)" and "registered s1 n = Some m"
    and "s2 = fold (\<lambda>(n, i) s. snd (gor_locked Reg n i s)) calls s1"
  shows "gor_read n s2 = Some m \<and> gor_locked Reg n j s2 = (Returns (Inr m), s2) \<and> GetOrRegister Reg n j s2 = (Returns (Inr m), s2)"
proof -
  have "registered s2 n = Some m" using pr.adds_keep [where Reg = Reg, of s1 n m calls] assms(2,3) by (simp add: case_prod_unfold)
  then show ?thesis by (simp add: gor_read_def gor_locked_def GetOrRegister_def)
qed

theorem GetOrRegister_once_witness:
  "\<exists>m s1. gor_locked (\<lambda>c p. (Registered, p)) ''requests'' (Constructor Counter) \<lparr>registered = Map.empty, promMetrics = Map.empty, defaultRegisterer = (), fresh = 0\<rparr>
       = (Returns (Inr m), s1) \<and>
     gor_read ''requests'' (fold (\<lambda>(n, i) s. snd (gor_locked (\<lambda>c p. (Registered, p)) n i s)) [(''requests'', Constructor Meter), (''other'', Constructor Gauge)] s1) = Some m"
proof -
  let ?s = "\<lparr>registered = Map.empty, promMetrics = Map.empty, defaultRegisterer = (), fresh = 0\<rparr>"
  obtain m s1 where *: "gor_locked (\<lambda>c p. (Registered, p)) ''requests'' (Constructor Counter) ?s = (Returns (Inr m), s1)" "registered s1 ''requests'' = Some m"
    by (simp add: gor_locked_def make_adapter_def register_gauge_def Let_def)
  then show ?thesis using GetOrRegister_once [OF * refl] by blast
qed

text \<open>
  Metrics of different names that differ only in dashes and underscores share one adapter, also when they are of
  different kinds: the second caller is handed the adapter of the first kind.
\<close>

theorem GetOrRegister_collision:
  assumes "gor_locked Reg n i s = (Returns (Inr m), s1)" and "promMetrics s1 (sanitizeMetricName n) = Some m"
    and "sanitizeMetricName n' = sanitizeMetricName n" and "registered s1 n' = None"
  shows "fst (gor_locked Reg n' j s1) = Returns (Inr m)"
  using assms by (simp add: gor_locked_def Let_def)

text \<open>
  A typing of the registry: a kind with an adapter for each Prometheus name.  A registry is well typed when all its metrics have the kind of their
  name, a call when it asks for the kind of its name, and the registerer when a collector it has under a name is of the class that the kind of
  the name needs, as long as the process registers no others (\<open>P\<close> is what it knows of its state).
\<close>

definition gauge_kind :: "kind \<Rightarrow> bool" where
  "gauge_kind k \<longleftrightarrow> k \<in> {Counter, Gauge, Meter}"

fun collector_of :: "kind \<Rightarrow> collector \<Rightarrow> bool" where
  "collector_of k (PromGauge _ _) = gauge_kind k"
| "collector_of k (PromSummary _ _) = (k = Histogram)"
| "collector_of k (OtherCollector _) = False"

definition registry_typed :: "(string \<Rightarrow> kind) \<Rightarrow> 'p prom_state \<Rightarrow> bool" where
  "registry_typed \<Gamma> s \<longleftrightarrow>
     (\<forall>n m. registered s n = Some m \<longrightarrow> kind_of m = Some (\<Gamma> (sanitizeMetricName n))) \<and>
     (\<forall>p m. promMetrics s p = Some m \<longrightarrow> kind_of m = Some (\<Gamma> p))"

definition call_typed :: "(string \<Rightarrow> kind) \<Rightarrow> string \<times> any_metric \<Rightarrow> bool" where
  "call_typed \<Gamma> c \<longleftrightarrow> kind_of (actual_of (snd c)) = Some (\<Gamma> (sanitizeMetricName (fst c))) \<and> \<Gamma> (sanitizeMetricName (fst c)) \<notin> {Timer, GaugeFloat64}"

definition registerer_typed :: "(string \<Rightarrow> kind) \<Rightarrow> 'p registerer \<Rightarrow> ('p \<Rightarrow> bool) \<Rightarrow> bool" where
  "registerer_typed \<Gamma> Reg P \<longleftrightarrow>
     (\<forall>c p r p'. P p \<and> collector_of (\<Gamma> (gauge_name c)) c \<and> Reg c p = (r, p') \<longrightarrow>
        P p' \<and> (\<forall>c'. r = AlreadyRegistered c' \<longrightarrow> collector_of (\<Gamma> (gauge_name c)) c'))"

lemma summary_collector: "collector_of Histogram c \<Longrightarrow> \<exists>nm j. c = PromSummary nm j"
  by (cases c) (auto simp: gauge_kind_def)

lemma gauge_collector: "collector_of k c \<Longrightarrow> k \<noteq> Histogram \<Longrightarrow> \<exists>nm j. c = PromGauge nm j"
  by (cases c) auto

lemma make_adapter_typed:
  assumes "registerer_typed \<Gamma> Reg P" and "P (defaultRegisterer s)" and "kind_of a = Some (\<Gamma> pn)" and "\<Gamma> pn \<notin> {Timer, GaugeFloat64}"
  shows "\<exists>m s'. make_adapter Reg a pn s = (Returns (Inr (Some m)), s') \<and> kind_of m = Some (\<Gamma> pn) \<and> P (defaultRegisterer s') \<and>
    registered s' = registered s \<and> promMetrics s' = promMetrics s"
proof (cases "\<Gamma> pn = Histogram")
  case True
  obtain r p' where r: "Reg (PromSummary pn (fresh s)) (defaultRegisterer s) = (r, p')" by fastforce
  have "P p' \<and> (\<forall>c'. r = AlreadyRegistered c' \<longrightarrow> collector_of Histogram c')"
    using assms(1,2) r True unfolding registerer_typed_def by (metis collector_of.simps(2) gauge_name.simps(2))
  moreover from this have "(\<exists>nm j. r = AlreadyRegistered (PromSummary nm j)) \<or> (\<forall>c'. r \<noteq> AlreadyRegistered c')"
    using summary_collector by blast
  ultimately show ?thesis using r True assms(3)
    by (cases r) (auto simp: make_adapter_def register_summary_def Let_def)
next
  case False
  then have g: "gauge_kind (\<Gamma> pn)" using assms(4) by (cases "\<Gamma> pn") (auto simp: gauge_kind_def)
  obtain r p' where r: "Reg (PromGauge pn (fresh s)) (defaultRegisterer s) = (r, p')" by fastforce
  have "P p' \<and> (\<forall>c'. r = AlreadyRegistered c' \<longrightarrow> collector_of (\<Gamma> pn) c')"
    using assms(1,2) r g unfolding registerer_typed_def by (metis collector_of.simps(1) gauge_name.simps(1))
  moreover from this have "(\<exists>nm j. r = AlreadyRegistered (PromGauge nm j)) \<or> (\<forall>c'. r \<noteq> AlreadyRegistered c')"
    using False gauge_collector by blast
  ultimately show ?thesis using r False g assms(3)
    by (cases r) (auto simp: make_adapter_def register_gauge_def gauge_kind_def Let_def)
qed

lemma gor_locked_typed:
  assumes "registerer_typed \<Gamma> Reg P" and "P (defaultRegisterer s)" and "registry_typed \<Gamma> s" and "call_typed \<Gamma> (n, i)"
  shows "\<exists>m s'. gor_locked Reg n i s = (Returns (Inr m), s') \<and> kind_of m = Some (\<Gamma> (sanitizeMetricName n)) \<and>
    P (defaultRegisterer s') \<and> registry_typed \<Gamma> s'"
proof -
  have c: "kind_of (actual_of i) = Some (\<Gamma> (sanitizeMetricName n))" "\<Gamma> (sanitizeMetricName n) \<notin> {Timer, GaugeFloat64}"
    using assms(4) by (simp_all add: call_typed_def)
  from make_adapter_typed [OF assms(1,2) c] assms(2,3) show ?thesis
    by (auto simp: gor_locked_def registry_typed_def Let_def split: option.split)
qed

lemma GetOrRegister_typed:
  assumes "registerer_typed \<Gamma> Reg P" and "P (defaultRegisterer s)" and "registry_typed \<Gamma> s" and "call_typed \<Gamma> (n, i)"
  shows "\<exists>m s'. GetOrRegister Reg n i s = (Returns (Inr m), s') \<and> kind_of m = Some (\<Gamma> (sanitizeMetricName n)) \<and>
    P (defaultRegisterer s') \<and> registry_typed \<Gamma> s'"
  using gor_locked_typed [OF assms] assms(2,3) by (auto simp: GetOrRegister_def gor_read_def registry_typed_def split: option.split)

lemma GetOrRegister_calls_typed:
  assumes "registerer_typed \<Gamma> Reg P" and "P (defaultRegisterer s)" and "registry_typed \<Gamma> s" and "list_all (call_typed \<Gamma>) calls"
  shows "P (defaultRegisterer (fold (\<lambda>(n, i) s. snd (GetOrRegister Reg n i s)) calls s)) \<and>
    registry_typed \<Gamma> (fold (\<lambda>(n, i) s. snd (GetOrRegister Reg n i s)) calls s)"
  using assms(2-4)
proof (induction calls arbitrary: s)
  case (Cons c calls)
  then obtain m s' where "GetOrRegister Reg (fst c) (snd c) s = (Returns (Inr m), s')" "P (defaultRegisterer s')" "registry_typed \<Gamma> s'"
    using GetOrRegister_typed [OF assms(1), of s "fst c" "snd c"] by auto
  with Cons show ?case by (simp add: case_prod_unfold)
qed simp

text \<open>
  C24: the registry is type sound.  When the callers agree on one kind for each Prometheus name, no sequence of calls makes a type assertion of
  \<^verbatim>\<open>GetOrRegister\<close> fail, and each call returns a metric of the kind it asked for; names that the sanitizing makes equal count as one.
\<close>

theorem GetOrRegister_type_sound:
  assumes "registerer_typed \<Gamma> Reg P" and "P (defaultRegisterer s)" and "registry_typed \<Gamma> s"
    and "list_all (call_typed \<Gamma>) calls" and "call_typed \<Gamma> (n, i)"
    and "s' = fold (\<lambda>(n, i) s. snd (GetOrRegister Reg n i s)) calls s"
  shows "registry_typed \<Gamma> s' \<and>
    (\<exists>m. fst (GetOrRegister Reg n i s') = Returns (Inr m) \<and> kind_of m = Some (\<Gamma> (sanitizeMetricName n)))"
  using GetOrRegister_calls_typed [OF assms(1-4)] GetOrRegister_typed [OF assms(1) _ _ assms(5)] assms(6) by fastforce

text \<open>A registerer that knows the names it has seen.\<close>

definition example_registerer :: "collector list registerer" where
  "example_registerer c p =
     (case filter (\<lambda>d. gauge_name d = gauge_name c) p of [] \<Rightarrow> (Registered, c # p) | d # _ \<Rightarrow> (AlreadyRegistered d, p))"

theorem GetOrRegister_type_sound_witness:
  "\<exists>m. fst (GetOrRegister example_registerer ''a-b'' (Constructor Histogram)
      (fold (\<lambda>(n, i) s. snd (GetOrRegister example_registerer n i s)) [(''c'', Instance Meter), (''a_b'', Constructor Histogram)]
        \<lparr>registered = Map.empty, promMetrics = Map.empty, defaultRegisterer = [PromGauge ''c'' 7], fresh = 0\<rparr>)) = Returns (Inr m) \<and>
    kind_of m = Some Histogram"
proof -
  define \<Gamma> where "\<Gamma> = (\<lambda>p :: string. if p = ''c'' then Meter else Histogram)"
  define P where "P = (\<lambda>p. \<forall>c \<in> set p. collector_of (\<Gamma> (gauge_name c)) c)"
  have "registerer_typed \<Gamma> example_registerer P"
    unfolding registerer_typed_def
  proof (intro allI impI, elim conjE)
    fix c p r p'
    assume a: "P p" "collector_of (\<Gamma> (gauge_name c)) c" "example_registerer c p = (r, p')"
    show "P p' \<and> (\<forall>c'. r = AlreadyRegistered c' \<longrightarrow> collector_of (\<Gamma> (gauge_name c)) c')"
    proof (cases "filter (\<lambda>d. gauge_name d = gauge_name c) p")
      case Nil
      then show ?thesis using a by (auto simp: example_registerer_def P_def)
    next
      case (Cons d ds)
      then have "d \<in> set (filter (\<lambda>d. gauge_name d = gauge_name c) p)" by simp
      then have "d \<in> set p" "gauge_name d = gauge_name c" by auto
      then show ?thesis using a Cons by (auto simp: example_registerer_def P_def)
    qed
  qed
  moreover have "P (defaultRegisterer \<lparr>registered = Map.empty, promMetrics = Map.empty, defaultRegisterer = [PromGauge ''c'' 7], fresh = 0\<rparr>)"
    by (simp add: P_def \<Gamma>_def gauge_kind_def)
  moreover have "registry_typed \<Gamma> \<lparr>registered = Map.empty, promMetrics = Map.empty, defaultRegisterer = [PromGauge ''c'' 7], fresh = 0\<rparr>"
    by (simp add: registry_typed_def)
  moreover have names: "sanitizeMetricName ''a-b'' = ''a_b''" "sanitizeMetricName ''c'' = ''c''" "sanitizeMetricName ''a_b'' = ''a_b''"
    by (simp_all add: sanitizeMetricName_def ReplaceAll_char)
  moreover have "list_all (call_typed \<Gamma>) [(''c'', Instance Meter), (''a_b'', Constructor Histogram)]" "call_typed \<Gamma> (''a-b'', Constructor Histogram)"
    by (simp_all add: call_typed_def \<Gamma>_def names)
  moreover have "\<Gamma> (sanitizeMetricName ''a-b'') = Histogram" by (simp add: names \<Gamma>_def)
  ultimately show ?thesis using GetOrRegister_type_sound [OF _ _ _ _ _ refl] by fastforce
qed

text \<open>
  For timers and floating-point gauges, which have no adapter, \<^verbatim>\<open>GetOrRegister\<close> registers nothing and returns its
  argument; given a constructor, that is the constructor function and not a metric.
\<close>

theorem GetOrRegister_unsupported:
  assumes "k \<in> {Timer, GaugeFloat64}" and "registered s n = None" and "promMetrics s (sanitizeMetricName n) = None"
  shows "GetOrRegister Reg n (Constructor k) s = (Returns (Inr (Constructor k)), s)"
  using assms by (auto simp: GetOrRegister_def gor_read_def gor_locked_def make_adapter_def Let_def)

lemma Counter_Inc_exact:
  assumes "\<forall>v \<in> set vs. 0 \<le> v" and "0 \<le> a" and "a + sum_list vs < 2 ^ 53" and "gauge_of s (gauge_name g) = of_int a"
  shows "gauge_of (fold (\<lambda>v. Counter_Inc v g) vs s) (gauge_name g) = of_int (a + sum_list vs)"
  using assms
proof (induction vs arbitrary: a s)
  case (Cons v vs)
  have sm: "0 \<le> sum_list vs" using Cons.prems(1) by (intro sum_list_nonneg) auto
  then have "\<bar>v\<bar> < 2 ^ 53" "\<bar>a + v\<bar> < 2 ^ 53" using Cons.prems by simp_all
  then have "fl64 (of_int a + fl64 (of_int v)) = of_int (a + v)" using fl64_of_int [of v] fl64_of_int [of "a + v"] by simp
  then have "gauge_of (Counter_Inc v g s) (gauge_name g) = of_int (a + v)"
    using Cons.prems(4) by (simp add: Counter_Inc_def gauge_Add_def gauge_Set_def float_of_int_def)
  then show ?case using Cons.IH [of "a + v" "Counter_Inc v g s"] Cons.prems by (simp add: add.assoc)
qed simp

text \<open>
  A Kafka counter: after it is cleared, its Prometheus gauge is the exact sum of its increments as long as that stays below \<open>2\<^sup>5\<^sup>3\<close>, and what
  the library reads back through the adapter is zero.
\<close>

theorem counter_adapter_exact:
  assumes "\<forall>v \<in> set vs. 0 \<le> v" and "sum_list vs < 2 ^ 53"
  shows "let s' = fold (\<lambda>v. Counter_Inc v g) vs (Counter_Clear g s)
    in gauge_of s' (gauge_name g) = of_int (sum_list vs) \<and> Counter_Count g s' = 0"
  using Counter_Inc_exact [OF assms(1), of 0 "Counter_Clear g s" g] assms(2)
  by (simp add: Counter_Count_def Counter_Clear_def gauge_Set_def Let_def)

text \<open>
  C25: the metrics middleware leaves the in-flight gauge as it found it, up to what other requests changed meanwhile, also when the
  handler panics, and counts the request exactly once, under the last status written (200 if none was), unless the handler panics.
\<close>

theorem Metrics_HTTPMiddleware_balanced:
  assumes "next_h r (m\<lparr>httpRequestsInFlight := httpRequestsInFlight m + 1\<rparr>) = ((codes, panicked), m2)"
    and "httpRequestsInFlight m2 = httpRequestsInFlight m + 1 + others"
    and "Metrics_HTTPMiddleware next_h start now pattern r m = (p, m')"
  shows "p = panicked \<and> httpRequestsInFlight m' = httpRequestsInFlight m + others \<and>
    (let l = (req_method r, if pattern = [] then url_path r else pattern, Itoa (if codes = [] then 200 else last codes))
     in httpRequestsTotal m' = (if panicked then httpRequestsTotal m2 else (httpRequestsTotal m2)(l := httpRequestsTotal m2 l + 1)))"
proof -
  have "recorded_status codes = (if codes = [] then 200 else last codes)"
    unfolding recorded_status_def by (induction codes rule: rev_induct) auto
  then show ?thesis using assms by (auto simp: Metrics_HTTPMiddleware_def Let_def split: if_splits)
qed


definition example_prometheus :: "unit prometheus" where
  "example_prometheus = \<lparr>MustRegister = (\<lambda>_ p. (Returns (Inr ()), p)), prom_Unregister = (\<lambda>_ p. p)\<rparr>"

theorem Metrics_HTTPMiddleware_balanced_witness:
  "\<exists>p m'. Metrics_HTTPMiddleware (\<lambda>r m. (([404], False), m)) 0 5 ''/users''
       \<lparr>req_method = ''GET'', url_path = ''/users/7'', req_header = [], remote_addr = [], req_ctx = background\<rparr>
       \<lparr>httpRequestsTotal = (\<lambda>_. 0), httpRequestDuration = (\<lambda>_. []), httpRequestsInFlight = 3, serviceUp = 1,
        customMetrics = Map.empty, config = None, server = None\<rparr> = (p, m') \<and>
     httpRequestsInFlight m' = 3"
proof -
  let ?m = "\<lparr>httpRequestsTotal = (\<lambda>_. 0), httpRequestDuration = (\<lambda>_. []), httpRequestsInFlight = 3, serviceUp = 1,
    customMetrics = Map.empty, config = None, server = None\<rparr>"
  let ?r = "\<lparr>req_method = ''GET'', url_path = ''/users/7'', req_header = [], remote_addr = [], req_ctx = background\<rparr>"
  obtain p m' where e: "Metrics_HTTPMiddleware (\<lambda>r m. (([404], False), m)) 0 5 ''/users'' ?r ?m = (p, m')"
    by (cases "Metrics_HTTPMiddleware (\<lambda>r m. (([404], False), m)) 0 5 ''/users'' ?r ?m")
  then show ?thesis
    using Metrics_HTTPMiddleware_balanced [where others = 0, OF refl _ e] by auto
qed


text \<open>
  The instrumented transport hands on the result of the transport it wraps, and counts and times every request exactly once: a failed one
  under the status 500.
\<close>

theorem RoundTrip_transparent:
  "case RoundTrip base rh uh t0 t1 r m of (res, m') \<Rightarrow>
     res = base r \<and>
     (\<forall>lb. HttpClientMetricsRequest m' lb = HttpClientMetricsRequest m lb +
        (if lb = (req_method r, if rh = [] then uh else rh, url_path r, Itoa (case base r of Inl _ \<Rightarrow> 500 | Inr c \<Rightarrow> c)) then 1 else 0)) \<and>
     (\<forall>lb. HttpClientMetricsLatency m' lb = HttpClientMetricsLatency m lb @
        (if lb = (req_method r, if rh = [] then uh else rh, url_path r) then [duration_Seconds (time_Sub t1 t0)] else []))"
  by (auto simp: RoundTrip_def RecordHttpClientMetricsRequest_def RecordHttpClientMetricsLatency_def Let_def)

end
