(* ===== verification/Sql_Models.thy ===== *)
theory Sql_Models
  imports Kit_Prelude
begin

text \<open>
  Generation of models from an SQL schema: \<^verbatim>\<open>internal/command/model.go\<close>.

  The regular expressions of the parser are written out as functions on strings.  \<^verbatim>\<open>cases.Title\<close> of the package
  \<^verbatim>\<open>golang.org/x/text\<close> is an argument; what is known of it is that it capitalises a word of ASCII letters.
\<close>

section \<open>Matching\<close>

text \<open>The longest prefix of characters of a class, and the rest: \<^verbatim>\<open>[class]*\<close>.\<close>

definition span_of :: "(char \<Rightarrow> bool) \<Rightarrow> string \<Rightarrow> string \<times> string" where
  "span_of P s = (takeWhile P s, dropWhile P s)"

text \<open>A literal at the head of the string.\<close>

fun literal :: "string \<Rightarrow> string \<Rightarrow> string option" where
  "literal [] s = Some s"
| "literal (p # ps) [] = None"
| "literal (p # ps) (c # s) = (if p = c then literal ps s else None)"

lemma literal_append [simp]: "literal p (p @ s) = Some s"
  by (induction p) auto

lemma literal_self [simp]: "literal p p = Some []"
  using literal_append [of p "[]"] by simp

lemma literal_iff: "literal p s = Some t \<longleftrightarrow> s = p @ t"
  by (induction p s rule: literal.induct) auto

lemma span_of_append:
  "(\<forall>c \<in> set w. P c) \<Longrightarrow> (s = [] \<or> \<not> P (hd s)) \<Longrightarrow> span_of P (w @ s) = (w, s)"
  by (cases s) (auto simp: span_of_def)

text \<open>\<^verbatim>\<open>\w+\<close> as a whole word: non-empty.\<close>

definition word :: "string \<Rightarrow> (string \<times> string) option" where
  "word s = (case span_of is_word s of (w, r) \<Rightarrow> if w = [] then None else Some (w, r))"

text \<open>The leftmost position at which a matcher succeeds.\<close>

fun search :: "(string \<Rightarrow> 'a option) \<Rightarrow> string \<Rightarrow> 'a option" where
  "search m [] = m []"
| "search m (c # s) = (case m (c # s) of Some x \<Rightarrow> Some x | None \<Rightarrow> search m s)"

lemma search_head: "m s = Some x \<Longrightarrow> search m s = Some x"
  by (cases s) auto

section \<open>Names and types\<close>

record Field =
  f_Name :: string
  f_Type :: string
  f_Tag :: string

record Table =
  t_Name :: string
  t_Fields :: "Field list"

definition sqlTypeToGo :: "string \<Rightarrow> string" where
  "sqlTypeToGo sqlType =
     (let t = ToLower sqlType in
      if Contains t ''bigint'' \<and> Contains t ''unsigned'' then ''uint64''
      else if Contains t ''int'' then ''int64''
      else if Contains t ''bool'' then ''bool''
      else if Contains t ''varchar'' \<or> Contains t ''text'' then ''string''
      else if Contains t ''datetime'' \<or> Contains t ''timestamp'' then ''time.Time''
      else if Contains t ''json'' then ''datatypes.JSON''
      else ''string'')"

text \<open>\<^verbatim>\<open>strings.NewReplacer\<close>: at each position the first of the pairs that matches is replaced.\<close>

fun replacer_at :: "(string \<times> string) list \<Rightarrow> string \<Rightarrow> (string \<times> string) option" where
  "replacer_at [] s = None"
| "replacer_at ((old, new) # ps) s = (if HasPrefix s old then Some (new, drop (length old) s) else replacer_at ps s)"

function Replacer_Replace :: "(string \<times> string) list \<Rightarrow> string \<Rightarrow> string" where
  "Replacer_Replace ps [] = []"
| "Replacer_Replace ps (c # s) =
     (case replacer_at ps (c # s) of
        None \<Rightarrow> c # Replacer_Replace ps s
      | Some (new, rest) \<Rightarrow>
          (if length rest < length (c # s) then new @ Replacer_Replace ps rest else c # Replacer_Replace ps s))"
  by pat_completeness auto
termination by (relation "measure (\<lambda>(ps, s). length s)") auto

definition abbreviations :: "(string \<times> string) list" where
  "abbreviations = [(''Id'', ''ID''), (''Url'', ''URL''), (''Uri'', ''URI''), (''Json'', ''JSON'')]"

definition toPascalCaseModel :: "(string \<Rightarrow> string) \<Rightarrow> string \<Rightarrow> string" where
  "toPascalCaseModel Title s =
     (let parts = map Title (Split s CHR ''_''); result = Join parts [] in Replacer_Replace abbreviations result)"

definition toSingular :: "string \<Rightarrow> string" where
  "toSingular name =
     (if HasSuffix name ''ies'' then take (length name - 3) name @ ''y''
      else if HasSuffix name ''ses'' \<or> HasSuffix name ''xes'' \<or> HasSuffix name ''zes'' then take (length name - 2) name
      else if HasSuffix name ''s'' \<and> length name > 1 then take (length name - 1) name
      else name)"

definition toCamel :: "(string \<Rightarrow> string) \<Rightarrow> string \<Rightarrow> string" where
  "toCamel Title s = (let s = toSingular s; parts = map Title (Split s CHR ''_'') in Join parts [])"

section \<open>The parser\<close>

text \<open>\<^verbatim>\<open>create table(?: if not exists)? (\w+)\<close>, with and without the optional part.\<close>

definition create_table_at :: "string \<Rightarrow> string option" where
  "create_table_at s =
     (case literal ''create table'' s of
        None \<Rightarrow> None
      | Some r \<Rightarrow>
          (let plain = (\<lambda>r. case literal '' '' r of None \<Rightarrow> None | Some r \<Rightarrow> map_option fst (word r)) in
           case literal '' if not exists'' r of
             None \<Rightarrow> plain r
           | Some r' \<Rightarrow> (case plain r' of Some n \<Rightarrow> Some n | None \<Rightarrow> plain r)))"

text \<open>\<^verbatim>\<open>^(\w+)\s+([a-zA-Z0-9_()]+)\<close>.\<close>

definition is_type_char :: "char \<Rightarrow> bool" where
  "is_type_char c \<longleftrightarrow> is_word c \<or> c = CHR ''('' \<or> c = CHR '')''"

definition column_at :: "string \<Rightarrow> (string \<times> string) option" where
  "column_at s =
     (case word s of
        None \<Rightarrow> None
      | Some (n, r) \<Rightarrow>
          (case span_of is_re_space r of (sp, r') \<Rightarrow>
             (case span_of is_type_char r' of (t, _) \<Rightarrow>
                if sp = [] \<or> t = [] then None else Some (n, t))))"

definition column_tag :: "string \<Rightarrow> string" where
  "column_tag columnName = ''`gorm:'' @ [CHR 0x22] @ ''column:'' @ columnName @ [CHR 0x22] @ ''`''"

record parser =
  tables :: "Table list"
  current :: Table
  inCreate :: bool

definition empty_table :: Table where
  "empty_table = \<lparr>t_Name = [], t_Fields = []\<rparr>"

definition flush :: "parser \<Rightarrow> parser" where
  "flush p = (if t_Name (current p) \<noteq> [] \<and> t_Fields (current p) \<noteq> [] then p\<lparr>tables := tables p @ [current p]\<rparr> else p)"

definition column_field :: "(string \<Rightarrow> string) \<Rightarrow> string \<Rightarrow> string \<Rightarrow> Field" where
  "column_field Title n t =
     (let columnName = ToLower n; sqlType = ToLower t; goType = sqlTypeToGo sqlType
      in \<lparr>f_Name = toPascalCaseModel Title columnName, f_Type = goType, f_Tag = column_tag columnName\<rparr>)"

definition parse_line :: "(string \<Rightarrow> string) \<Rightarrow> string \<Rightarrow> parser \<Rightarrow> parser" where
  "parse_line Title raw p =
     (let line = ToLower (TrimSpace raw) in
      if line = [] \<or> HasPrefix line ''--'' \<or> HasPrefix line ''create index'' then p
      else if HasPrefix line ''create table'' then
        (let p = (if inCreate p then flush p else p);
             p = p\<lparr>inCreate := True, current := empty_table\<rparr>
         in case search create_table_at line of None \<Rightarrow> p | Some n \<Rightarrow> p\<lparr>current := (current p)\<lparr>t_Name := n\<rparr>\<rparr>)
      else if inCreate p \<and> HasPrefix line '')'' then (flush p)\<lparr>inCreate := False\<rparr>
      else if inCreate p then
        (let line = TrimSuffix line '','' in
         case column_at line of
           None \<Rightarrow> p
         | Some (n, t) \<Rightarrow> p\<lparr>current := (current p)\<lparr>t_Fields := t_Fields (current p) @ [column_field Title n t]\<rparr>\<rparr>)
      else p)"

definition parseSQLToModels :: "(string \<Rightarrow> string) \<Rightarrow> string \<Rightarrow> Table list" where
  "parseSQLToModels Title sql =
     tables (fold (parse_line Title) (Split sql CHR 0x0A) \<lparr>tables = [], current = empty_table, inCreate = False\<rparr>)"

section \<open>The generators\<close>

definition nl :: string where
  "nl = [CHR 0x0A]"

definition tab :: string where
  "tab = [CHR 0x09]"

definition quoted :: "string \<Rightarrow> string" where
  "quoted s = [CHR 0x22] @ s @ [CHR 0x22]"

text \<open>\<^verbatim>\<open>%-*s\<close>.\<close>

definition pad_right :: "nat \<Rightarrow> string \<Rightarrow> string" where
  "pad_right n s = s @ replicate (n - length s) CHR '' ''"

definition model_imports :: "Field list \<Rightarrow> string list" where
  "model_imports fs =
     (if ''time.Time'' \<in> set (map f_Type fs) then [''time''] else []) @
     (if ''datatypes.JSON'' \<in> set (map f_Type fs) then [''gorm.io/datatypes''] else []) @
     (if ''gorm.DeletedAt'' \<in> set (map f_Type fs) then [''gorm.io/gorm''] else [])"

definition max_len :: "string list \<Rightarrow> nat" where
  "max_len ss = fold (\<lambda>s m. if length s > m then length s else m) ss 0"

definition generateModelCode :: "(string \<Rightarrow> string) \<Rightarrow> string \<Rightarrow> Field list \<Rightarrow> string" where
  "generateModelCode Title table fs =
     (let b = ''package models'' @ nl @ nl;
          imports = model_imports fs;
          b = (if imports \<noteq> [] then b @ ''import ('' @ nl @ concat (map (\<lambda>i. tab @ quoted i @ nl) imports) @ '')'' @ nl @ nl else b);
          structName = toPascalCaseModel Title (toSingular table);
          b = b @ ''// '' @ structName @ '' represents the `'' @ table @ ''` table.'' @ nl @ ''type '' @ structName @ '' struct {'' @ nl;
          maxNameLen = max_len (map (\<lambda>f. toPascalCaseModel Title (f_Name f)) fs);
          maxTypeLen = max_len (map f_Type fs);
          b = b @ concat (map (\<lambda>f. tab @ pad_right maxNameLen (toPascalCaseModel Title (f_Name f)) @ ''  ''
                 @ pad_right maxTypeLen (f_Type f) @ ''  '' @ f_Tag f @ nl) fs) @ ''}'' @ nl @ nl
      in b @ ''// TableName sets the actual table name for the '' @ structName @ '' model.'' @ nl
           @ ''func ('' @ structName @ '') TableName() string {'' @ nl @ tab @ ''return '' @ quoted table @ nl @ ''}'' @ nl)"

definition generateStoreCode :: "(string \<Rightarrow> string) \<Rightarrow> string \<Rightarrow> string \<Rightarrow> string" where
  "generateStoreCode Title modl table =
     (let n = toCamel Title table in
      concat (map (\<lambda>l. l @ nl)
        [''package stores'', [], ''import ('', tab @ quoted ''context'',
         tab @ quoted (''github.com/minhgiang16983/'' @ modl @ ''/internal/models''), tab @ quoted ''gorm.io/gorm'', '')'', [],
         ''type '' @ n @ ''Store struct {'', tab @ ''db *gorm.DB'', ''}'', [],
         ''func New'' @ n @ ''Store(db *gorm.DB) *'' @ n @ ''Store {'', tab @ ''return &'' @ n @ ''Store{db: db}'', ''}'', [],
         ''func (s *'' @ n @ ''Store) GetByID(ctx context.Context, id string) (*models.'' @ n @ '', error) {'',
         tab @ ''var m models.'' @ n,
         tab @ ''if err := s.db.WithContext(ctx).Where('' @ quoted ''id = ?'' @ '', id).First(&m).Error; err != nil {'',
         tab @ tab @ ''return nil, err'', tab @ ''}'', tab @ ''return &m, nil'', ''}'', [],
         ''func (s *'' @ n @ ''Store) Create(ctx context.Context, m *models.'' @ n @ '') error {'',
         tab @ ''return s.db.WithContext(ctx).Create(m).Error'', ''}'', [],
         ''func (s *'' @ n @ ''Store) DeleteByID(ctx context.Context, id string) error {'',
         tab @ ''return s.db.WithContext(ctx).Where('' @ quoted ''id = ?'' @ '', id).Delete(&models.'' @ n @ ''{}).Error'', ''}'']))"

definition generateMainCode :: "(string \<Rightarrow> string) \<Rightarrow> Table list \<Rightarrow> string" where
  "generateMainCode Title ts =
     (let ns = map (\<lambda>t. toCamel Title (t_Name t)) ts in
      ''package stores'' @ nl @ nl @ ''import ('' @ nl @ tab @ quoted ''gorm.io/gorm'' @ nl @ '')'' @ nl @ nl
      @ ''// StoreService integrates all stores to manage data'' @ nl @ ''type StoreService struct {'' @ nl
      @ concat (map (\<lambda>n. tab @ n @ ''Store *'' @ n @ ''Store'' @ nl) ns) @ ''}'' @ nl @ nl
      @ ''// NewStoreService initializes StoreService with MariaDB'' @ nl
      @ ''func NewStoreService(mariaDB *gorm.DB) *StoreService {'' @ nl @ tab @ ''return &StoreService{'' @ nl
      @ concat (map (\<lambda>n. tab @ tab @ n @ ''Store: New'' @ n @ ''Store(mariaDB),'' @ nl) ns)
      @ tab @ ''}'' @ nl @ ''}'' @ nl)"

text \<open>
  The files of the working directory are a map from paths to contents.  A model or store that exists is kept, \<^verbatim>\<open>main.go\<close>
  is always written.
\<close>

type_synonym files = "string \<rightharpoonup> string"

definition model_path :: "string \<Rightarrow> string" where
  "model_path table = ''internal/models/'' @ table @ ''.go''"

definition store_path :: "string \<Rightarrow> string" where
  "store_path table = ''internal/stores/'' @ table @ ''_store.go''"

definition main_path :: string where
  "main_path = ''internal/stores/main.go''"

definition write_new :: "string \<Rightarrow> string \<Rightarrow> files \<Rightarrow> files" where
  "write_new p content fs = (if fs p \<noteq> None then fs else fs(p \<mapsto> content))"

definition generate_table :: "(string \<Rightarrow> string) \<Rightarrow> string \<Rightarrow> Table \<Rightarrow> files \<Rightarrow> files" where
  "generate_table Title modl t fs =
     write_new (store_path (t_Name t)) (generateStoreCode Title modl (t_Name t))
       (write_new (model_path (t_Name t)) (generateModelCode Title (t_Name t) (t_Fields t)) fs)"

definition generateModelAndStoreFromSQL :: "(string \<Rightarrow> string) \<Rightarrow> string \<Rightarrow> string \<Rightarrow> files \<Rightarrow> gerror option \<times> files" where
  "generateModelAndStoreFromSQL Title modl sqlPath fs =
     (case fs sqlPath of
        None \<Rightarrow> (Some (Wrapf ''cannot read SQL file: '' (Errorf ''no such file or directory'')), fs)
      | Some data \<Rightarrow>
          (let ts = parseSQLToModels Title data;
               fs1 = fold (generate_table Title modl) ts fs
           in (None, fs1(main_path \<mapsto> generateMainCode Title ts))))"

section \<open>Schemas in standard form\<close>

text \<open>
  The lines of a schema as it is usually written: a \<^verbatim>\<open>CREATE TABLE\<close> line, one line per column, a closing line.  \<open>rest\<close> is what
  follows the type of a column (\<^verbatim>\<open>unsigned not null\<close> and the like).
\<close>

definition table_lines :: "string \<Rightarrow> (string \<times> string \<times> string) list \<Rightarrow> string list" where
  "table_lines n cols = [''CREATE TABLE '' @ n @ '' (''] @ map (\<lambda>(c, t, rest). ''  '' @ c @ '' '' @ t @ rest @ '','') cols @ ['');'']"

definition lower_word :: "string \<Rightarrow> bool" where
  "lower_word w \<longleftrightarrow> w \<noteq> [] \<and> (\<forall>c \<in> set w. is_word c \<and> lower_char c = c)"

definition column_ok :: "string \<times> string \<times> string \<Rightarrow> bool" where
  "column_ok = (\<lambda>(c, t, rest). lower_word c \<and> c \<noteq> ''create'' \<and> t \<noteq> [] \<and> (\<forall>x \<in> set t. is_type_char x \<and> lower_char x = x) \<and>
     (rest = [] \<or> hd rest = CHR '' '') \<and> (\<forall>x \<in> set rest. lower_char x = x \<and> x \<noteq> CHR 0x0A))"

lemma is_word_facts:
  "is_word c \<Longrightarrow> \<not> is_space c \<and> \<not> is_re_space c \<and> c \<noteq> CHR ''-'' \<and> c \<noteq> CHR '')'' \<and> c \<noteq> CHR '','' \<and> c \<noteq> CHR 0x0A \<and> c \<noteq> CHR '' ''"
proof -
  assume w: "is_word c"
  have n: "\<not> is_word (CHR ''-'')" "\<not> is_word (CHR '')'')" "\<not> is_word (CHR '','')" "\<not> is_word (CHR 0x0A)" "\<not> is_word (CHR '' '')"
    by code_simp+
  have sp: "is_space d \<Longrightarrow> \<not> is_word d" "is_re_space d \<Longrightarrow> is_space d" for d
    by (auto simp: is_space_def is_re_space_def is_word_def is_alnum_def Let_def)
  show "\<not> is_space c \<and> \<not> is_re_space c \<and> c \<noteq> CHR ''-'' \<and> c \<noteq> CHR '')'' \<and> c \<noteq> CHR '','' \<and> c \<noteq> CHR 0x0A \<and> c \<noteq> CHR '' ''"
    using w n sp by metis
qed

lemma TrimSpace_pad:
  "(\<forall>c \<in> set sp. is_space c) \<Longrightarrow> s \<noteq> [] \<Longrightarrow> \<not> is_space (hd s) \<Longrightarrow> \<not> is_space (last s) \<Longrightarrow> TrimSpace (sp @ s) = s"
proof -
  assume *: "\<forall>c \<in> set sp. is_space c" "s \<noteq> []" "\<not> is_space (hd s)" "\<not> is_space (last s)"
  have "dropWhile is_space (sp @ s) = s" using * by (cases s) (auto simp: dropWhile_append)
  moreover have "dropWhile is_space (rev s) = rev s" using * by (cases "rev s") (auto simp: hd_rev [symmetric])
  ultimately show ?thesis by (simp add: TrimSpace_def)
qed

lemma lower_word_simps:
  assumes "lower_word w"
  shows "w \<noteq> []" "is_word (hd w)" "ToLower w = w" "span_of is_word (w @ CHR '' '' # s) = (w, CHR '' '' # s)"
proof -
  show "w \<noteq> []" "is_word (hd w)" using assms by (cases w; simp add: lower_word_def)+
  show "ToLower w = w" using assms by (auto simp: lower_word_def ToLower_def intro: map_idI)
  show "span_of is_word (w @ CHR '' '' # s) = (w, CHR '' '' # s)"
    using assms is_word_facts [of "CHR '' ''"] by (intro span_of_append) (auto simp: lower_word_def)
qed

lemma word_prefix_unique:
  assumes "\<forall>c \<in> set v. is_word c" "lower_word w" "w @ CHR '' '' # s = v @ CHR '' '' # t"
  shows "w = v \<and> s = t"
proof -
  have "\<not> is_word (CHR '' '')" using is_word_facts [of "CHR '' ''"] by auto
  then have "takeWhile is_word (w @ CHR '' '' # s) = w" "takeWhile is_word (v @ CHR '' '' # t) = v"
    using assms(1,2) by (auto simp: takeWhile_append lower_word_def)
  then show ?thesis using assms(3) by simp
qed

lemma create_line:
  assumes "lower_word n"
  shows "search create_table_at (''create table '' @ n @ '' ('') = Some n"
proof (rule search_head)
  have lit: "literal ''create table'' (''create table '' @ n @ '' ('') = Some (CHR '' '' # n @ '' ('')"
    using literal_append [of "''create table''" "CHR '' '' # n @ '' (''"] by simp
  have no: "literal '' if not exists'' (CHR '' '' # n @ '' ('') = None"
  proof (cases "literal '' if not exists'' (CHR '' '' # n @ '' ('')")
    case (Some t)
    then have "n @ CHR '' '' # ''('' = ''if'' @ CHR '' '' # ''not exists'' @ t" by (auto simp: literal_iff)
    moreover have "\<forall>c \<in> set ''if''. is_word c" by (simp add: is_word_def is_alnum_def Let_def)
    ultimately show ?thesis using word_prefix_unique [OF _ assms] by fastforce
  qed
  have "span_of is_word (n @ '' ('') = (n, '' ('')" using lower_word_simps(4) [OF assms, of "''(''"] by simp
  then have w: "word (n @ '' ('') = Some (n, '' ('')" using lower_word_simps(1) [OF assms] by (simp add: word_def)
  have sp: "literal '' '' (CHR '' '' # n @ '' ('') = Some (n @ '' ('')" by simp
  show "create_table_at (''create table '' @ n @ '' ('') = Some n"
    unfolding create_table_at_def lit option.case Let_def no sp w by simp
qed

lemma space_chars [simp]:
  "is_space (CHR '' '')" "\<not> is_space (CHR ''C'')" "\<not> is_space (CHR ''('')" "\<not> is_space (CHR '')'')" "\<not> is_space (CHR '','')" "\<not> is_space (CHR '';'')"
  by code_simp+

lemma lower_create: "ToLower ''CREATE TABLE '' = ''create table ''" "ToLower '' ('' = '' (''" "ToLower '');'' = '');''" "ToLower '','' = '',''" "ToLower '' '' = '' ''"
  by code_simp+

lemma parse_create_line:
  assumes "lower_word n" "\<not> inCreate p"
  shows "parse_line Title (''CREATE TABLE '' @ n @ '' ('') p = p\<lparr>inCreate := True, current := \<lparr>t_Name = n, t_Fields = []\<rparr>\<rparr>"
proof -
  have "TrimSpace (''CREATE TABLE '' @ n @ '' ('') = ''CREATE TABLE '' @ n @ '' (''"
    using TrimSpace_pad [of "[]" "''CREATE TABLE '' @ n @ '' (''"] by simp
  then have line: "ToLower (TrimSpace (''CREATE TABLE '' @ n @ '' ('')) = ''create table '' @ n @ '' (''"
    using lower_word_simps(3) [OF assms(1)] lower_create by (simp only: ToLower_append)
  have "HasPrefix (''create table '' @ n @ '' ('') ''create table''" by (simp add: HasPrefix_def)
  moreover have "\<not> HasPrefix (''create table '' @ n @ '' ('') ''--''" "\<not> HasPrefix (''create table '' @ n @ '' ('') ''create index''"
    by (simp_all add: HasPrefix_def)
  ultimately show ?thesis using assms(2) create_line [OF assms(1)]
    unfolding parse_line_def line by (simp add: empty_table_def Let_def)
qed

lemma parse_close_line:
  assumes "inCreate p" "t_Name (current p) \<noteq> []"
  shows "parse_line Title '');'' p =
    (if t_Fields (current p) = [] then p else p\<lparr>tables := tables p @ [current p]\<rparr>)\<lparr>inCreate := False\<rparr>"
proof -
  have "ToLower (TrimSpace '');'') = '');''" using TrimSpace_pad [of "[]" "'');''"] lower_create by simp
  moreover have "HasPrefix '');'' '')''" "\<not> HasPrefix '');'' ''--''" "\<not> HasPrefix '');'' ''create index''" "\<not> HasPrefix '');'' ''create table''"
    by code_simp+
  ultimately show ?thesis using assms by (simp add: parse_line_def flush_def Let_def)
qed

lemma column_at_ok:
  assumes "column_ok (c, t, rest)"
  shows "column_at (c @ '' '' @ t @ rest) = Some (c, t)"
proof -
  have ok: "lower_word c" "t \<noteq> []" "\<forall>x \<in> set t. is_type_char x" "rest = [] \<or> hd rest = CHR '' ''"
    using assms by (auto simp: column_ok_def)
  have sp: "is_re_space (CHR '' '')" "\<not> is_type_char (CHR '' '')" "\<not> is_re_space (CHR ''('')" "\<not> is_re_space (CHR '')'')" by code_simp+
  have ht: "\<not> is_re_space (hd t)" using ok(2,3) is_word_facts sp by (cases t) (auto simp: is_type_char_def)
  have "span_of is_re_space ([CHR '' ''] @ t @ rest) = ([CHR '' ''], t @ rest)"
    using sp ht ok(2) by (intro span_of_append) (cases t; simp)+
  moreover have "span_of is_type_char (t @ rest) = (t, rest)"
    using ok sp by (intro span_of_append) auto
  ultimately show ?thesis
    using lower_word_simps(1,4) [OF ok(1)] ok(2) by (simp add: column_at_def word_def)
qed

lemma parse_column_line:
  assumes ok: "column_ok (c, t, rest)" and "inCreate p"
  shows "parse_line Title (''  '' @ c @ '' '' @ t @ rest @ '','') p =
    p\<lparr>current := (current p)\<lparr>t_Fields := t_Fields (current p) @ [column_field Title c t]\<rparr>\<rparr>"
proof -
  have c: "lower_word c" "c \<noteq> ''create''" "ToLower t = t" "ToLower rest = rest"
    using ok by (auto simp: column_ok_def ToLower_def intro: map_idI)
  have hc: "is_word (hd c)" "c \<noteq> []" using lower_word_simps [OF c(1)] by auto
  have "TrimSpace (''  '' @ c @ '' '' @ t @ rest @ '','') = c @ '' '' @ t @ rest @ '',''"
    using hc is_word_facts [OF hc(1)] by (intro TrimSpace_pad) (auto simp: hd_append)
  then have line: "ToLower (TrimSpace (''  '' @ c @ '' '' @ t @ rest @ '','')) = c @ '' '' @ t @ rest @ '',''"
    using lower_word_simps(3) [OF c(1)] c(3,4) lower_create by (simp only: ToLower_append)
  have create: "\<not> HasPrefix (c @ '' '' @ t @ rest @ '','') (''create '' @ x)" for x
  proof
    assume "HasPrefix (c @ '' '' @ t @ rest @ '','') (''create '' @ x)"
    then obtain y where "c @ CHR '' '' # t @ rest @ '','' = ''create'' @ CHR '' '' # x @ y" by (auto simp: HasPrefix_iff)
    moreover have "\<forall>d \<in> set ''create''. is_word d" by (simp add: is_word_def is_alnum_def Let_def)
    ultimately show False using word_prefix_unique [OF _ c(1)] c(2) by fastforce
  qed
  have head: "\<not> HasPrefix (c @ '' '' @ t @ rest @ '','') (d # x)" if "\<not> is_word d" for d x
    using hc that by (cases c) (auto simp: HasPrefix_iff)
  have nw: "\<not> is_word (CHR ''-'')" "\<not> is_word (CHR '')'')" by code_simp+
  have "TrimSuffix (c @ '' '' @ t @ rest @ '','') '','' = c @ '' '' @ t @ rest"
    using TrimSuffix_append [of "c @ '' '' @ t @ rest" "'',''"] by simp
  then show ?thesis
    using create [of "''table''"] create [of "''index''"] head [OF nw(1), of "''-''"] head [OF nw(2), of "[]"] hc(2) assms(2) column_at_ok [OF ok]
    unfolding parse_line_def line by (simp add: Let_def)
qed

lemma parse_columns:
  "(\<forall>x \<in> set cols. column_ok x) \<Longrightarrow> inCreate p \<Longrightarrow>
   fold (parse_line Title) (map (\<lambda>(c, t, rest). ''  '' @ c @ '' '' @ t @ rest @ '','') cols) p =
     p\<lparr>current := (current p)\<lparr>t_Fields := t_Fields (current p) @ map (\<lambda>(c, t, rest). column_field Title c t) cols\<rparr>\<rparr>"
proof (induction cols arbitrary: p)
  case (Cons x cols)
  obtain c t rest where x: "x = (c, t, rest)" by (cases x)
  then show ?case using Cons parse_column_line [of c t rest p Title] by simp
qed simp

lemma parse_table:
  assumes "lower_word n" "cols \<noteq> []" "\<forall>x \<in> set cols. column_ok x" "\<not> inCreate p"
  shows "let p' = fold (parse_line Title) (table_lines n cols) p in \<not> inCreate p' \<and>
    tables p' = tables p @ [\<lparr>t_Name = n, t_Fields = map (\<lambda>(c, t, rest). column_field Title c t) cols\<rparr>]"
proof -
  define p1 where "p1 = p\<lparr>inCreate := True, current := \<lparr>t_Name = n, t_Fields = []\<rparr>\<rparr>"
  have "fold (parse_line Title) (table_lines n cols) p = parse_line Title '');'' (fold (parse_line Title)
      (map (\<lambda>(c, t, rest). ''  '' @ c @ '' '' @ t @ rest @ '','') cols) (parse_line Title (''CREATE TABLE '' @ n @ '' ('') p))"
    unfolding table_lines_def fold_append fold.simps comp_apply id_apply by (rule refl)
  also have "parse_line Title (''CREATE TABLE '' @ n @ '' ('') p = p1"
    unfolding p1_def by (rule parse_create_line [OF assms(1,4)])
  also have "fold (parse_line Title) (map (\<lambda>(c, t, rest). ''  '' @ c @ '' '' @ t @ rest @ '','') cols) p1 =
      p1\<lparr>current := (current p1)\<lparr>t_Fields := t_Fields (current p1) @ map (\<lambda>(c, t, rest). column_field Title c t) cols\<rparr>\<rparr>"
    by (rule parse_columns [OF assms(3)]) (simp add: p1_def)
  finally show ?thesis
    using lower_word_simps(1) [OF assms(1)] assms(2) by (simp add: parse_close_line p1_def Let_def)
qed

lemma parse_tables:
  "(\<forall>(n, cols) \<in> set ts. lower_word n \<and> cols \<noteq> [] \<and> (\<forall>x \<in> set cols. column_ok x)) \<Longrightarrow> \<not> inCreate p \<Longrightarrow>
   tables (fold (parse_line Title) (concat (map (\<lambda>(n, cols). table_lines n cols) ts)) p) =
     tables p @ map (\<lambda>(n, cols). \<lparr>t_Name = n, t_Fields = map (\<lambda>(c, t, rest). column_field Title c t) cols\<rparr>) ts"
proof (induction ts arbitrary: p)
  case (Cons x ts)
  obtain n cols where x: "x = (n, cols)" by (cases x)
  then show ?case using Cons parse_table [of n cols p Title] by (simp add: Let_def)
qed simp

lemma table_lines_no_newline:
  assumes "lower_word n" "\<forall>x \<in> set cols. column_ok x" "l \<in> set (table_lines n cols)"
  shows "CHR 0x0A \<notin> set l"
proof -
  have nw: "\<not> is_word (CHR 0x0A)" "\<not> is_type_char (CHR 0x0A)" by code_simp+
  have w: "lower_word w \<Longrightarrow> CHR 0x0A \<notin> set w" for w using nw by (auto simp: lower_word_def)
  have "CHR 0x0A \<notin> set (''  '' @ c @ '' '' @ t @ rest @ '','')" if "column_ok (c, t, rest)" for c t rest
    using that nw w [of c] by (auto simp: column_ok_def)
  then show ?thesis using assms w [of n] by (auto simp: table_lines_def)
qed

lemma column_field_ok:
  assumes "column_ok (c, t, rest)"
  shows "column_field Title c t = \<lparr>f_Name = toPascalCaseModel Title c, f_Type = sqlTypeToGo t, f_Tag = column_tag c\<rparr>"
proof -
  have "ToLower c = c" "ToLower t = t"
    using assms by (auto simp: column_ok_def lower_word_def ToLower_def intro: map_idI)
  then show ?thesis by (simp add: column_field_def Let_def)
qed

section \<open>Properties\<close>




text \<open>
  Lines that are not columns become fields.  A key or constraint line inside a table is taken for a column whose
  name and type are its first two words: \<^verbatim>\<open>primary key (id)\<close> adds a field for a column \<^verbatim>\<open>primary\<close>.  And the word
  \<^verbatim>\<open>unsigned\<close> after a type is never seen: \<^verbatim>\<open>bigint unsigned\<close> is an \<^verbatim>\<open>int64\<close>, and the branch for \<^verbatim>\<open>uint64\<close> is not reached.
\<close>

theorem parse_line_misreads:
  assumes "inCreate p"
  shows "parse_line Title ''  primary key (id),'' p =
      p\<lparr>current := (current p)\<lparr>t_Fields := t_Fields (current p) @
        [\<lparr>f_Name = toPascalCaseModel Title ''primary'', f_Type = ''string'', f_Tag = column_tag ''primary''\<rparr>]\<rparr>\<rparr> \<and>
    parse_line Title ''  id bigint unsigned not null,'' p =
      p\<lparr>current := (current p)\<lparr>t_Fields := t_Fields (current p) @
        [\<lparr>f_Name = toPascalCaseModel Title ''id'', f_Type = ''int64'', f_Tag = column_tag ''id''\<rparr>]\<rparr>\<rparr>"
proof -
  have ok: "column_ok (''primary'', ''key'', '' (id)'')" "column_ok (''id'', ''bigint'', '' unsigned not null'')"
    by (simp_all add: lower_word_def column_ok_def is_type_char_def is_word_def is_alnum_def lower_char_def Let_def)
  have v: "sqlTypeToGo ''key'' = ''string''" "sqlTypeToGo ''bigint'' = ''int64''" by code_simp+
  show ?thesis
    using parse_column_line [OF ok(1) assms, of Title] parse_column_line [OF ok(2) assms, of Title]
      column_field_ok [OF ok(1), of Title] column_field_ok [OF ok(2), of Title] by (simp add: v)
qed

text \<open>What is known of \<^verbatim>\<open>cases.Title\<close>: a word of ASCII letters gets an upper-case first letter and lower-case others.\<close>

definition is_letter :: "char \<Rightarrow> bool" where
  "is_letter c = (let n = (of_char c :: nat) in (65 \<le> n \<and> n \<le> 90) \<or> (97 \<le> n \<and> n \<le> 122))"

definition title_law :: "(string \<Rightarrow> string) \<Rightarrow> bool" where
  "title_law Title \<longleftrightarrow> (\<forall>c w. is_letter c \<and> (\<forall>d \<in> set w. is_letter d) \<longrightarrow> Title (c # w) = upper_char c # map lower_char w)"

text \<open>
  The struct fields of a generated model are not in Pascal case: the conversion is applied a second time to the converted
  name, which has no separators left, so that only its first letter stays a capital.
\<close>

theorem generated_field_name:
  assumes "title_law Title"
  shows "f_Name (column_field Title ''created_at'' ''datetime'') = ''CreatedAt'' \<and>
    Contains (generateModelCode Title table [column_field Title ''created_at'' ''datetime'']) ''Createdat  time.Time''"
proof -
  have letters: "is_letter CHR ''c''" "\<forall>d \<in> set ''reated''. is_letter d" "is_letter CHR ''a''" "\<forall>d \<in> set ''t''. is_letter d"
      "is_letter CHR ''C''" "\<forall>d \<in> set ''reatedAt''. is_letter d"
    by (simp_all add: is_letter_def Let_def)
  have up: "upper_char CHR ''c'' # map lower_char ''reated'' = ''Created''" "upper_char CHR ''a'' # map lower_char ''t'' = ''At''"
      "upper_char CHR ''C'' # map lower_char ''reatedAt'' = ''Createdat''" by code_simp+
  have t: "Title ''created'' = ''Created''" "Title ''at'' = ''At''" "Title ''CreatedAt'' = ''Createdat''"
    using assms letters unfolding title_law_def up [symmetric] by blast+
  have sp: "Split ''created_at'' CHR ''_'' = [''created'', ''at'']" "Split ''CreatedAt'' CHR ''_'' = [''CreatedAt'']" by code_simp+
  have r: "Replacer_Replace abbreviations ''CreatedAt'' = ''CreatedAt''" "Replacer_Replace abbreviations ''Createdat'' = ''Createdat''" by code_simp+
  have n: "f_Name (column_field Title ''created_at'' ''datetime'') = ''CreatedAt''" "f_Type (column_field Title ''created_at'' ''datetime'') = ''time.Time''"
  proof -
    have "ToLower ''created_at'' = ''created_at''" "sqlTypeToGo (ToLower ''datetime'') = ''time.Time''" by code_simp+
    then show "f_Name (column_field Title ''created_at'' ''datetime'') = ''CreatedAt''" "f_Type (column_field Title ''created_at'' ''datetime'') = ''time.Time''"
      using t sp r by (simp_all add: column_field_def toPascalCaseModel_def Let_def)
  qed
  have p: "toPascalCaseModel Title ''CreatedAt'' = ''Createdat''" using t sp r by (simp add: toPascalCaseModel_def Let_def)
  have pad: "pad_right 9 ''Createdat'' @ ''  '' @ pad_right 9 ''time.Time'' = ''Createdat  time.Time''" "max_len [''Createdat''] = 9" "max_len [''time.Time''] = 9"
    by code_simp+
  have "Contains (generateModelCode Title table [column_field Title ''created_at'' ''datetime''])
      (pad_right 9 ''Createdat'' @ ''  '' @ pad_right 9 ''time.Time'')"
    unfolding Contains_iff generateModelCode_def Let_def list.map concat.simps n p pad(2,3) by (metis append_assoc)
  then show ?thesis using n pad(1) by simp
qed

lemma write_new_keeps: "fs p = Some c \<Longrightarrow> write_new q x fs p = Some c"
  by (auto simp: write_new_def)

text \<open>
  Generating again never changes a file that exists, except \<^verbatim>\<open>internal/stores/main.go\<close>, and creates the model and the
  store of every table that had none.
\<close>

theorem generate_keeps_files:
  assumes "generateModelAndStoreFromSQL Title modl sqlPath fs = (None, fs')"
  shows "(fs p = Some c \<and> p \<noteq> main_path \<longrightarrow> fs' p = Some c) \<and>
    (\<forall>t \<in> set (parseSQLToModels Title (the (fs sqlPath))). fs' (model_path (t_Name t)) \<noteq> None \<and> fs' (store_path (t_Name t)) \<noteq> None)"
proof -
  have keep: "f p = Some c \<Longrightarrow> fold (generate_table Title modl) ts f p = Some c" for f p c ts
    by (induction ts arbitrary: f) (auto simp: generate_table_def write_new_keeps)
  have made: "t \<in> set ts \<Longrightarrow> p \<in> {model_path (t_Name t), store_path (t_Name t)} \<Longrightarrow> fold (generate_table Title modl) ts f p \<noteq> None" for t ts f p
  proof (induction ts arbitrary: f)
    case (Cons u ts)
    have "t = u \<Longrightarrow> \<exists>c. generate_table Title modl u f p = Some c" using Cons.prems(2) by (auto simp: generate_table_def write_new_def)
    then show ?case using Cons keep by fastforce
  qed simp
  have "fs sqlPath \<noteq> None" and fs': "fs' = (fold (generate_table Title modl) (parseSQLToModels Title (the (fs sqlPath))) fs)
      (main_path \<mapsto> generateMainCode Title (parseSQLToModels Title (the (fs sqlPath))))"
    using assms by (auto simp: generateModelAndStoreFromSQL_def Let_def split: option.splits)
  show ?thesis using keep [of fs p c] made unfolding fs' by auto
qed

text \<open>C0: the singular of \<^verbatim>\<open>quizzes\<close> is \<^verbatim>\<open>quizz\<close>, although the comment beside the rule gives \<^verbatim>\<open>quiz\<close>; its other examples are right.\<close>

theorem toSingular_examples:
  "map toSingular [''categories'', ''addresses'', ''boxes'', ''quizzes'', ''users'', ''tokens''] =
     [''category'', ''address'', ''box'', ''quizz'', ''user'', ''token'']"
  by code_simp

end
