(* ===== verification/Proto_Services.thy ===== *)
theory Proto_Services
  imports Sql_Models
begin

text \<open>
  Generation of service interfaces and handlers from \<^verbatim>\<open>.proto\<close> files: \<^verbatim>\<open>internal/command/utils.go\<close>.

  The regular expressions are written out as functions.  One of them, the search for existing handler methods, holds the text
  \<^verbatim>\<open>func $begin:math:text$s\<close>: the anchor \<^verbatim>\<open>$\<close> stands before more text, so it matches nowhere and the set it
  collects is always empty.
\<close>

section \<open>Names\<close>

definition isValidServiceName :: "string \<Rightarrow> bool" where
  "isValidServiceName name \<longleftrightarrow> name \<noteq> [] \<and> (\<forall>c \<in> set name. is_alnum c \<or> c = CHR ''-'') \<and> \<not> HasPrefix name ''-'' \<and> \<not> HasSuffix name ''-''"

definition capitalise :: "string \<Rightarrow> string" where
  "capitalise p = (if length p > 0 then ToUpper (take 1 p) @ ToLower (drop 1 p) else p)"

definition toPascalCase :: "string \<Rightarrow> string" where
  "toPascalCase s = Join (map capitalise (Split s CHR ''-'')) []"

section \<open>Reading a proto file\<close>

record rpc =
  Method :: string
  Req :: string
  Resp :: string

text \<open>\<^verbatim>\<open>(?m)//.*$|/\*[\s\S]*?\*/\<close>: the rest after the shortest block comment, and the removal of all comments.\<close>

fun after_close :: "string \<Rightarrow> string option" where
  "after_close [] = None"
| "after_close (c # s) = (case literal ''*/'' (c # s) of Some r \<Rightarrow> Some r | None \<Rightarrow> after_close s)"

lemma after_close_length: "after_close s = Some r \<Longrightarrow> length r \<le> length s"
proof (induction s rule: after_close.induct)
  case (2 c s)
  then show ?case by (auto simp: literal_iff split: option.splits if_splits)
qed simp

lemma literal_length_eq: "literal p s = Some r \<Longrightarrow> length s = length p + length r"
  by (simp only: literal_iff length_append)

lemma literal_length: "literal p s = Some r \<Longrightarrow> length r \<le> length s"
  by (auto dest: literal_length_eq)

function strip_comments :: "string \<Rightarrow> string" where
  "strip_comments [] = []"
| "strip_comments (c # s) =
     (case literal ''//'' (c # s) of
        Some r \<Rightarrow> strip_comments (dropWhile (\<lambda>d. d \<noteq> CHR 0x0A) r)
      | None \<Rightarrow>
          (case literal ''/*'' (c # s) of
             Some r \<Rightarrow> (case after_close r of Some r' \<Rightarrow> strip_comments r' | None \<Rightarrow> c # strip_comments s)
           | None \<Rightarrow> c # strip_comments s))"
  by pat_completeness auto
termination
proof (relation "measure length")
  fix c :: char and s r
  assume "literal ''//'' (c # s) = Some r"
  from literal_length_eq [OF this] show "(dropWhile (\<lambda>d. d \<noteq> CHR 0x0A) r, c # s) \<in> measure length"
    using length_dropWhile_le [of "\<lambda>d. d \<noteq> CHR 0x0A" r] by simp
next
  fix c :: char and s r r'
  assume "literal ''/*'' (c # s) = Some r" "after_close r = Some r'"
  then show "(r', c # s) \<in> measure length" using after_close_length [of r r'] literal_length_eq [of "''/*''" "c # s" r] by simp
qed auto

text \<open>
  \<^verbatim>\<open>rpc\s+(\w+)\s*\((\w+)\)\s*returns\s*\((\w+)\)\s*(?:\{[^}]*\}|;)?\<close> at the head of the string: the method and what follows
  the match.
\<close>

definition skip_space :: "string \<Rightarrow> string" where
  "skip_space s = dropWhile is_re_space s"

definition paren_word :: "string \<Rightarrow> (string \<times> string) option" where
  "paren_word s =
     (case literal ''('' s of
        None \<Rightarrow> None
      | Some r \<Rightarrow>
          (case word r of
             None \<Rightarrow> None
           | Some (w, r') \<Rightarrow> (case literal '')'' r' of None \<Rightarrow> None | Some r'' \<Rightarrow> Some (w, r''))))"

definition rpc_tail :: "string \<Rightarrow> string" where
  "rpc_tail s =
     (let r = skip_space s in
      case literal ''{'' r of
        Some r1 \<Rightarrow> (let r2 = dropWhile (\<lambda>d. d \<noteq> CHR ''}'') r1 in if r2 = [] then r else tl r2)
      | None \<Rightarrow> (case literal '';'' r of Some r1 \<Rightarrow> r1 | None \<Rightarrow> r))"

definition rpc_at :: "string \<Rightarrow> (rpc \<times> string) option" where
  "rpc_at s =
     (case literal ''rpc'' s of
        None \<Rightarrow> None
      | Some r0 \<Rightarrow>
          (if skip_space r0 = r0 then None
           else (case word (skip_space r0) of
             None \<Rightarrow> None
           | Some (m, r1) \<Rightarrow>
               (case paren_word (skip_space r1) of
                  None \<Rightarrow> None
                | Some (q, r2) \<Rightarrow>
                    (case literal ''returns'' (skip_space r2) of
                       None \<Rightarrow> None
                     | Some r3 \<Rightarrow>
                         (case paren_word (skip_space r3) of
                            None \<Rightarrow> None
                          | Some (a, r4) \<Rightarrow> Some (\<lparr>Method = m, Req = q, Resp = a\<rparr>, rpc_tail r4)))))))"

lemma skip_space_length: "length (skip_space s) \<le> length s"
  by (simp add: skip_space_def length_dropWhile_le)

lemma word_length: "word s = Some (w, r) \<Longrightarrow> length r \<le> length s"
  by (auto simp: word_def span_of_def length_dropWhile_le split: if_splits)

lemma paren_word_length: "paren_word s = Some (w, r) \<Longrightarrow> length r \<le> length s"
  by (auto simp: paren_word_def literal_iff dest!: word_length split: option.splits)

lemma rpc_tail_length: "length (rpc_tail s) \<le> length s"
proof -
  have "length (tl (dropWhile P r)) \<le> length r" for P and r :: string
    using length_dropWhile_le [of P r] by simp
  then show ?thesis using skip_space_length [of s]
    by (auto simp: rpc_tail_def literal_iff Let_def split: option.splits intro: le_trans) (metis length_Cons le_Suc_eq le_trans)+
qed

lemma rpc_at_length: "rpc_at s = Some (x, r) \<Longrightarrow> length r < length s"
proof -
  assume "rpc_at s = Some (x, r)"
  then obtain r0 m r1 q r2 r3 a r4 where *: "literal ''rpc'' s = Some r0" "word (skip_space r0) = Some (m, r1)"
      "paren_word (skip_space r1) = Some (q, r2)" "literal ''returns'' (skip_space r2) = Some r3"
      "paren_word (skip_space r3) = Some (a, r4)" "r = rpc_tail r4"
    by (auto simp: rpc_at_def split: option.splits if_splits)
  have "length r \<le> length r4" "length r4 \<le> length r3" "length r3 \<le> length r2" "length r2 \<le> length r1" "length r1 \<le> length r0"
    using * rpc_tail_length [of r4] skip_space_length [of r3] skip_space_length [of r2] skip_space_length [of r1] skip_space_length [of r0]
    by (auto dest!: paren_word_length word_length literal_length)
  moreover have "length r0 < length s" using *(1) by (auto simp: literal_iff)
  ultimately show ?thesis by linarith
qed

text \<open>\<^verbatim>\<open>FindAllStringSubmatch\<close>: the matches from left to right, none overlapping the one before.\<close>

function find_rpcs :: "string \<Rightarrow> rpc list" where
  "find_rpcs s =
     (case rpc_at s of
        Some (x, r) \<Rightarrow> x # find_rpcs r
      | None \<Rightarrow> (case s of [] \<Rightarrow> [] | c # s' \<Rightarrow> find_rpcs s'))"
  by pat_completeness auto
termination by (relation "measure length") (auto dest: rpc_at_length)

declare find_rpcs.simps [simp del]

definition extractRPCsFromProto :: "string \<Rightarrow> rpc list" where
  "extractRPCsFromProto content = filter (\<lambda>x. Method x \<noteq> ''Health'') (find_rpcs (strip_comments content))"

section \<open>Existing methods\<close>

text \<open>
  \<^verbatim>\<open>\s*(\w+)\(ctx context\.Context, req \*\w+\.\w+\) \(\*\w+\.\w+, error\)\s*\<close> at the head of the string.
\<close>

definition qualified_type :: "string \<Rightarrow> string option" where
  "qualified_type s =
     (case word s of
        None \<Rightarrow> None
      | Some (_, r) \<Rightarrow>
          (case literal ''.'' r of None \<Rightarrow> None | Some r' \<Rightarrow> map_option snd (word r')))"

definition method_at :: "string \<Rightarrow> string option" where
  "method_at s =
     (case word (skip_space s) of
        None \<Rightarrow> None
      | Some (m, r) \<Rightarrow>
          (case literal ''(ctx context.Context, req *'' r of
             None \<Rightarrow> None
           | Some r1 \<Rightarrow>
               (case qualified_type r1 of
                  None \<Rightarrow> None
                | Some r2 \<Rightarrow>
                    (case literal '') (*'' r2 of
                       None \<Rightarrow> None
                     | Some r3 \<Rightarrow>
                         (case qualified_type r3 of
                            None \<Rightarrow> None
                          | Some r4 \<Rightarrow> (case literal '', error)'' r4 of None \<Rightarrow> None | Some _ \<Rightarrow> Some m))))))"

definition existing_in_lines :: "string list \<Rightarrow> string list" where
  "existing_in_lines ls = List.map_filter (\<lambda>l. search method_at (TrimSpace l)) ls"

definition extractExistingRPCs :: "string option \<Rightarrow> string list" where
  "extractExistingRPCs file =
     (case file of None \<Rightarrow> [] | Some data \<Rightarrow> existing_in_lines (Split data CHR 0x0A))"

text \<open>See the head of the theory.\<close>

definition existingHandlerMethods :: "string \<Rightarrow> string \<Rightarrow> string list" where
  "existingHandlerMethods pfx handler = []"

section \<open>The generated files\<close>

definition signature :: "rpc \<Rightarrow> string" where
  "signature x = Method x @ ''(ctx context.Context, req *pb.'' @ Req x @ '') (*pb.'' @ Resp x @ '', error)''"

definition interface_lines :: "string \<Rightarrow> string \<Rightarrow> rpc list \<Rightarrow> string list" where
  "interface_lines modl pfx xs =
     [''package services'', [], ''import ('', tab @ quoted ''context'', tab @ ''pb '' @ quoted (''github.com/minhgiang16983/'' @ modl @ ''/pb''), '')'', [],
      ''// '' @ pfx @ ''ServiceInterface defines the interface for '' @ pfx @ ''Service'',
      ''type '' @ pfx @ ''ServiceInterface interface {''] @ map (\<lambda>x. tab @ signature x) xs @ [''}'', []]"

definition interface_code :: "string \<Rightarrow> string \<Rightarrow> rpc list \<Rightarrow> string" where
  "interface_code modl pfx xs = Join (interface_lines modl pfx xs) nl"

definition handler_header :: "string \<Rightarrow> string" where
  "handler_header modl = concat (map (\<lambda>l. l @ nl)
     [''package services'', [], ''import ('', tab @ quoted ''context'', tab @ quoted ''fmt'',
      tab @ ''pb '' @ quoted (''github.com/minhgiang16983/'' @ modl @ ''/pb''), tab @ quoted ''google.golang.org/grpc/codes'',
      tab @ quoted ''google.golang.org/grpc/status'', '')'', []])"

definition handler_method :: "string \<Rightarrow> rpc \<Rightarrow> string" where
  "handler_method pfx x = concat (map (\<lambda>l. l @ nl)
     [''// '' @ Method x @ '' is not implemented yet'',
      ''func (s *'' @ pfx @ ''Service) '' @ Method x @ ''(ctx context.Context, req *pb.'' @ Req x @ '') (*pb.'' @ Resp x @ '', error) {'',
      tab @ ''if err := req.Validate(); err != nil {'',
      tab @ tab @ ''return nil, status.Errorf(codes.InvalidArgument, '' @ quoted ''invalid request: %v'' @ '', err)'',
      tab @ ''}'', tab @ ''return nil, fmt.Errorf('' @ quoted (Method x @ '' not implemented'') @ '')'', ''}'', []])"

text \<open>
  \<^verbatim>\<open>generateInterfaceAndHandler\<close> on the contents of the proto files (in the order of the directory; unreadable ones are
  skipped before) and on the two generated files.
\<close>

definition generateInterfaceAndHandler :: "string list \<Rightarrow> string \<Rightarrow> string \<Rightarrow> string option \<times> string option \<Rightarrow> gerror option \<times> string option \<times> string option" where
  "generateInterfaceAndHandler protos pfx serviceName = (\<lambda>(iface, handler).
     (let rpcDetails = concat (map extractRPCsFromProto protos) in
      if rpcDetails = [] then (Some (Errorf ''no RPCs found''), iface, handler)
      else (let existingRPCs = extractExistingRPCs iface;
                newRPCs = filter (\<lambda>x. Method x \<notin> set existingRPCs) rpcDetails;
                existingHandler = (case handler of None \<Rightarrow> [] | Some h \<Rightarrow> h);
                newHandlerRPCs = filter (\<lambda>x. Method x \<notin> set (existingHandlerMethods pfx existingHandler)) rpcDetails;
                hb = (if existingHandler = [] then handler_header serviceName else existingHandler)
            in (None, Some (interface_code serviceName pfx newRPCs),
                Some (hb @ concat (map (handler_method pfx) newHandlerRPCs))))))"

section \<open>Reading back what was generated\<close>

definition is_name :: "string \<Rightarrow> bool" where
  "is_name w \<longleftrightarrow> w \<noteq> [] \<and> (\<forall>c \<in> set w. is_word c)"

definition rpc_ok :: "rpc \<Rightarrow> bool" where
  "rpc_ok x \<longleftrightarrow> is_name (Method x) \<and> is_name (Req x) \<and> is_name (Resp x)"

lemma word_name: "is_name w \<Longrightarrow> s = [] \<or> \<not> is_word (hd s) \<Longrightarrow> word (w @ s) = Some (w, s)"
  by (simp add: word_def span_of_append is_name_def)

lemma not_word_chars [simp]:
  "\<not> is_word (CHR ''('')" "\<not> is_word (CHR '')'')" "\<not> is_word (CHR ''.'')" "\<not> is_word (CHR '' '')" "\<not> is_word (CHR '','')" "is_word (CHR ''p'')" "is_word (CHR ''b'')"
  by code_simp+

lemma skip_space_name: "is_name w \<Longrightarrow> skip_space (w @ s) = w @ s"
  using is_word_facts by (cases w) (auto simp: skip_space_def is_name_def)

lemma qualified_pb: "is_name w \<Longrightarrow> s = [] \<or> \<not> is_word (hd s) \<Longrightarrow> qualified_type (''pb.'' @ w @ s) = Some s"
proof -
  assume *: "is_name w" "s = [] \<or> \<not> is_word (hd s)"
  have "word (''pb.'' @ w @ s) = Some (''pb'', ''.'' @ w @ s)" using word_name [of "''pb''" "''.'' @ w @ s"] by (simp add: is_name_def)
  then show ?thesis using word_name [OF *] by (simp add: qualified_type_def)
qed

lemma method_at_signature:
  assumes "rpc_ok x"
  shows "method_at (signature x) = Some (Method x)"
proof -
  have n: "is_name (Method x)" "is_name (Req x)" "is_name (Resp x)" using assms by (auto simp: rpc_ok_def)
  let ?r1 = "''pb.'' @ Req x @ '') (*pb.'' @ Resp x @ '', error)''"
  let ?r3 = "''pb.'' @ Resp x @ '', error)''"
  have s: "signature x = Method x @ ''(ctx context.Context, req *'' @ ?r1" by (simp add: signature_def)
  have w: "word (skip_space (signature x)) = Some (Method x, ''(ctx context.Context, req *'' @ ?r1)"
    unfolding s skip_space_name [OF n(1)] by (rule word_name [OF n(1)]) simp
  have l1: "literal ''(ctx context.Context, req *'' (''(ctx context.Context, req *'' @ ?r1) = Some ?r1" by (rule literal_append)
  have q1: "qualified_type ?r1 = Some ('') (*'' @ ?r3)" using qualified_pb [OF n(2), of "'') (*'' @ ?r3"] by simp
  have l2: "literal '') (*'' ('') (*'' @ ?r3) = Some ?r3" by (rule literal_append)
  have q2: "qualified_type ?r3 = Some '', error)''" using qualified_pb [OF n(3), of "'', error)''"] by simp
  show ?thesis unfolding method_at_def w option.case prod.case l1 q1 l2 q2 literal_self by simp
qed

lemma search_Contains:
  "search m s = Some x \<Longrightarrow> (\<And>t y. m t = Some y \<Longrightarrow> Contains t p) \<Longrightarrow> Contains s p"
proof (induction s)
  case (Cons c s)
  show ?case
  proof (cases "m (c # s)")
    case None
    then have "Contains s p" using Cons by simp
    then obtain a b where "s = a @ p @ b" by (auto simp: Contains_iff)
    then have "c # s = (c # a) @ p @ b" by simp
    then show ?thesis unfolding Contains_iff by blast
  qed (use Cons.prems in blast)
next
  case Nil
  then show ?case using Nil.prems(2) [of "[]" x] by (simp only: search.simps)
qed

lemma method_at_Contains:
  assumes "method_at t = Some y"
  shows "Contains t ''(ctx context.Context, req *''"
proof -
  obtain m r r1 where "word (skip_space t) = Some (m, r)" "literal ''(ctx context.Context, req *'' r = Some r1"
    using assms unfolding method_at_def by (auto split: option.splits simp del: literal.simps)
  then have "dropWhile is_word (skip_space t) = r" "r = ''(ctx context.Context, req *'' @ r1"
    by (auto simp: word_def span_of_def literal_iff split: if_splits)
  then have "t = (takeWhile is_re_space t @ takeWhile is_word (skip_space t)) @ ''(ctx context.Context, req *'' @ r1"
    by (simp add: skip_space_def) (metis takeWhile_dropWhile_id)
  then show ?thesis unfolding Contains_iff by blast
qed

lemma no_method:
  assumes "CHR ''('' \<notin> set s"
  shows "search method_at s = None"
proof (cases "search method_at s")
  case (Some x)
  have "Contains s ''(ctx context.Context, req *''" by (rule search_Contains [OF Some method_at_Contains])
  then obtain a b where "s = a @ ''(ctx context.Context, req *'' @ b" unfolding Contains_iff by blast
  then show ?thesis using assms by simp
qed

lemma set_TrimSpace_notin: "c \<notin> set s \<Longrightarrow> c \<notin> set (TrimSpace s)"
  using set_TrimSpace by blast

lemma existing_interface_lines:
  assumes "\<forall>x \<in> set xs. rpc_ok x" "CHR ''('' \<notin> set modl" "CHR ''('' \<notin> set pfx"
  shows "existing_in_lines (interface_lines modl pfx xs) = map Method xs"
proof -
  have imp: "search method_at (TrimSpace ''import ('') = None" by code_simp
  have sig: "search method_at (TrimSpace (tab @ signature x)) = Some (Method x)" if "rpc_ok x" for x
  proof -
    have h: "is_word (hd (signature x))" "signature x \<noteq> []" using that by (cases "Method x"; simp add: rpc_ok_def is_name_def signature_def)+
    have "\<not> is_space (hd (signature x))" "last (signature x) = CHR '')''" using is_word_facts [OF h(1)] by (simp_all add: signature_def)
    moreover have "is_space (CHR 0x09)" by code_simp
    ultimately have "TrimSpace (tab @ signature x) = signature x" using h(2) by (intro TrimSpace_pad) (auto simp: tab_def)
    then show ?thesis using method_at_signature [OF that] by (simp add: search_head)
  qed
  have meth: "List.map_filter (\<lambda>l. search method_at (TrimSpace l)) (map (\<lambda>x. tab @ signature x) xs) = map Method xs"
    using assms(1) sig by (induction xs) (auto simp: List.map_filter_simps)
  have none: "search method_at (TrimSpace l) = None" if "CHR ''('' \<notin> set l" for l
    using no_method [OF set_TrimSpace_notin [OF that]] .
  have app: "List.map_filter f (as @ bs) = List.map_filter f as @ List.map_filter f bs" for f :: "string \<Rightarrow> string option" and as bs
    by (simp add: List.map_filter_def)
  show ?thesis
    unfolding existing_in_lines_def interface_lines_def app meth
    using assms(2,3) by (simp add: List.map_filter_simps none imp tab_def quoted_def)
qed

lemma interface_roundtrip:
  assumes "\<forall>x \<in> set xs. rpc_ok x" "CHR ''('' \<notin> set modl" "CHR ''('' \<notin> set pfx" "CHR 0x0A \<notin> set modl" "CHR 0x0A \<notin> set pfx"
  shows "extractExistingRPCs (Some (interface_code modl pfx xs)) = map Method xs"
proof -
  have name: "is_name w \<Longrightarrow> CHR 0x0A \<notin> set w" for w using is_word_facts [of "CHR 0x0A"] by (auto simp: is_name_def)
  have "CHR 0x0A \<notin> set l" if "l \<in> set (interface_lines modl pfx xs)" for l
    using that assms name by (auto simp: interface_lines_def signature_def rpc_ok_def tab_def quoted_def)
  then have "Split (interface_code modl pfx xs) CHR 0x0A = interface_lines modl pfx xs"
    unfolding interface_code_def nl_def by (intro Split_Join) (auto simp: interface_lines_def)
  then show ?thesis using existing_interface_lines [OF assms(1-3)] by (simp add: extractExistingRPCs_def)
qed

lemma word_is_name: "word s = Some (w, r) \<Longrightarrow> is_name w"
  by (auto simp: word_def span_of_def is_name_def split: if_splits dest: set_takeWhileD)

lemma rpc_at_ok: "rpc_at s = Some (x, r) \<Longrightarrow> rpc_ok x"
  by (auto simp: rpc_at_def paren_word_def rpc_ok_def word_is_name split: option.splits if_splits)

lemma find_rpcs_ok: "x \<in> set (find_rpcs s) \<Longrightarrow> rpc_ok x"
proof (induction s rule: find_rpcs.induct)
  case (1 s)
  show ?case
  proof (cases "rpc_at s")
    case None
    then show ?thesis using 1 by (subst (asm) (3) find_rpcs.simps) (auto split: list.splits)
  next
    case (Some y)
    then show ?thesis using 1 rpc_at_ok by (subst (asm) (3) find_rpcs.simps) (cases y, auto)
  qed
qed

lemma extract_ok: "x \<in> set (concat (map extractRPCsFromProto protos)) \<Longrightarrow> rpc_ok x"
  by (auto simp: extractRPCsFromProto_def dest: find_rpcs_ok)

text \<open>The declaration of a method in a service, in the usual form.\<close>

definition rpc_text :: "rpc \<Rightarrow> string" where
  "rpc_text x = ''  rpc '' @ Method x @ '' ('' @ Req x @ '') returns ('' @ Resp x @ '');'' @ nl"

lemma space_char [simp]: "is_re_space (CHR '' '')"
  by code_simp

lemma not_space_chars [simp]: "\<not> is_re_space (CHR ''('')" "\<not> is_re_space (CHR ''r'')" "\<not> is_re_space (CHR '';'')" "is_re_space (CHR 0x0A)"
  by code_simp+

lemma skip_space_Cons [simp]: "skip_space (CHR '' '' # s) = skip_space s"
  by (simp add: skip_space_def)

lemma skip_space_id: "s \<noteq> [] \<Longrightarrow> \<not> is_re_space (hd s) \<Longrightarrow> skip_space s = s"
  by (cases s) (auto simp: skip_space_def)

lemma paren_word_name: "is_name w \<Longrightarrow> paren_word (''('' @ w @ '')'' @ s) = Some (w, s)"
  using word_name [of w "'')'' @ s"] by (simp add: paren_word_def)

lemma rpc_at_text:
  assumes "rpc_ok x"
  shows "rpc_at (''rpc '' @ Method x @ '' ('' @ Req x @ '') returns ('' @ Resp x @ '');'' @ s) = Some (x, s)"
proof -
  have n: "is_name (Method x)" "is_name (Req x)" "is_name (Resp x)" using assms by (auto simp: rpc_ok_def)
  let ?r2 = "'' returns ('' @ Resp x @ '');'' @ s" and ?r3 = "'' ('' @ Resp x @ '');'' @ s"
  let ?r1 = "'' ('' @ Req x @ '')'' @ ?r2"
  have l0: "literal ''rpc'' (''rpc '' @ Method x @ ?r1) = Some ('' '' @ Method x @ ?r1)" by simp
  have s0: "skip_space ('' '' @ Method x @ ?r1) = Method x @ ?r1" using skip_space_name [OF n(1), of ?r1] by simp
  have ne: "Method x @ ?r1 \<noteq> '' '' @ Method x @ ?r1" by (metis append_Cons append_Nil not_Cons_self)
  have w: "word (Method x @ ?r1) = Some (Method x, ?r1)" by (rule word_name [OF n(1)]) simp
  have s1: "skip_space ?r1 = ''('' @ Req x @ '')'' @ ?r2" using skip_space_id [of "''('' @ Req x @ '')'' @ ?r2"] by simp
  have p1: "paren_word (''('' @ Req x @ '')'' @ ?r2) = Some (Req x, ?r2)" by (rule paren_word_name [OF n(2)])
  have s2: "skip_space ?r2 = ''returns'' @ ?r3" using skip_space_id [of "''returns'' @ ?r3"] by simp
  have s3: "skip_space ?r3 = ''('' @ Resp x @ '')'' @ '';'' @ s" using skip_space_id [of "''('' @ Resp x @ '')'' @ '';'' @ s"] by simp
  have p3: "paren_word (''('' @ Resp x @ '')'' @ '';'' @ s) = Some (Resp x, '';'' @ s)" by (rule paren_word_name [OF n(3)])
  have t: "rpc_tail ('';'' @ s) = s" using skip_space_id [of "'';'' @ s"] by (simp add: rpc_tail_def)
  have "rpc_at (''rpc '' @ Method x @ ?r1) = Some (x, s)"
    unfolding rpc_at_def l0 option.case s0 using ne by (simp only: if_False w option.case prod.case s1 p1 s2 literal_append s3 p3 t) simp
  then show ?thesis by simp
qed

lemma rpc_at_no_r: "s = [] \<or> hd s \<noteq> CHR ''r'' \<Longrightarrow> rpc_at s = None"
  by (cases s) (auto simp: rpc_at_def)

lemma find_rpcs_skip: "hd s \<noteq> CHR ''r'' \<Longrightarrow> s \<noteq> [] \<Longrightarrow> find_rpcs s = find_rpcs (tl s)"
  by (subst find_rpcs.simps) (simp add: rpc_at_no_r split: list.split)

lemma find_rpcs_text:
  assumes "rpc_ok x"
  shows "find_rpcs (rpc_text x @ s) = x # find_rpcs s"
proof -
  let ?t = "''rpc '' @ Method x @ '' ('' @ Req x @ '') returns ('' @ Resp x @ '');'' @ nl @ s"
  have "find_rpcs (rpc_text x @ s) = find_rpcs ('' '' @ ?t)"
    unfolding rpc_text_def by (subst find_rpcs_skip) (simp_all add: nl_def)
  also have "\<dots> = find_rpcs ?t" by (subst find_rpcs_skip) (simp_all)
  also have "\<dots> = x # find_rpcs (nl @ s)" by (subst find_rpcs.simps) (simp only: rpc_at_text [OF assms] option.case prod.case)
  also have "find_rpcs (nl @ s) = find_rpcs s" by (subst find_rpcs_skip) (simp_all add: nl_def)
  finally show ?thesis .
qed

lemma strip_comments_id: "CHR ''/'' \<notin> set s \<Longrightarrow> strip_comments s = s"
  by (induction s rule: strip_comments.induct) auto

section \<open>Properties\<close>



text \<open>
  C33: the methods of a generated interface are read back exactly by \<^verbatim>\<open>extractExistingRPCs\<close>.
\<close>

theorem interface_methods_read_back:
  assumes "\<forall>x \<in> set xs. rpc_ok x" and "set (modl @ pfx) \<inter> {CHR ''('', CHR 0x0A} = {}"
  shows "extractExistingRPCs (Some (interface_code modl pfx xs)) = map Method xs"
  using assms by (intro interface_roundtrip) auto

theorem interface_methods_read_back_witness:
  "extractExistingRPCs (Some (interface_code ''shop'' ''Shop'' [\<lparr>Method = ''GetUser'', Req = ''GetUserReq'', Resp = ''User''\<rparr>])) = [''GetUser'']"
  using interface_methods_read_back [of "[\<lparr>Method = ''GetUser'', Req = ''GetUserReq'', Resp = ''User''\<rparr>]" "''shop''" "''Shop''"]
  by (simp add: rpc_ok_def is_name_def is_word_def is_alnum_def Let_def)

text \<open>
  C34: generating a second time from the same files destroys the interface and doubles the handler.  The second run keeps
  only methods that were not in the interface yet, so that it writes an empty interface; and since existing handler methods
  are never recognised, it appends every method again, which does not compile.
\<close>

theorem regenerate_breaks_service:
  assumes "generateInterfaceAndHandler protos pfx modl (None, None) = (None, iface1, handler1)"
    and "set (modl @ pfx) \<inter> {CHR ''('', CHR 0x0A} = {}"
    and "generateInterfaceAndHandler protos pfx modl (iface1, handler1) = (r, iface2, handler2)"
  shows "r = None \<and> iface2 = Some (interface_code modl pfx []) \<and>
    handler2 = Some (the handler1 @ concat (map (handler_method pfx) (concat (map extractRPCsFromProto protos))))"
proof -
  define xs where "xs = concat (map extractRPCsFromProto protos)"
  have ne: "xs \<noteq> []"
    using assms(1) unfolding generateInterfaceAndHandler_def xs_def [symmetric] by (auto simp: Let_def split: if_splits)
  then have one: "iface1 = Some (interface_code modl pfx xs)" "handler1 = Some (handler_header modl @ concat (map (handler_method pfx) xs))"
    using assms(1) unfolding generateInterfaceAndHandler_def xs_def [symmetric]
    by (simp_all add: extractExistingRPCs_def existingHandlerMethods_def Let_def)
  have "extractExistingRPCs iface1 = map Method xs"
    unfolding one xs_def using assms(2) extract_ok by (intro interface_roundtrip) auto
  moreover have "handler_header modl \<noteq> []" by (simp add: handler_header_def)
  moreover have "filter (\<lambda>x. Method x \<notin> set (map Method xs)) xs = []" by (auto simp: filter_empty_conv)
  ultimately show ?thesis using assms(3) ne one(2)
    unfolding generateInterfaceAndHandler_def xs_def [symmetric] by (simp add: existingHandlerMethods_def Let_def)
qed

theorem regenerate_breaks_service_witness:
  "\<exists>iface1 handler1. generateInterfaceAndHandler [rpc_text \<lparr>Method = ''GetUser'', Req = ''GetUserReq'', Resp = ''User''\<rparr> @ ''}''] ''Shop'' ''shop'' (None, None) = (None, iface1, handler1) \<and>
     fst (snd (generateInterfaceAndHandler [rpc_text \<lparr>Method = ''GetUser'', Req = ''GetUserReq'', Resp = ''User''\<rparr> @ ''}''] ''Shop'' ''shop'' (iface1, handler1)))
       = Some (interface_code ''shop'' ''Shop'' [])"
proof -
  let ?x = "\<lparr>Method = ''GetUser'', Req = ''GetUserReq'', Resp = ''User''\<rparr>"
  let ?gen = "generateInterfaceAndHandler [rpc_text ?x @ ''}''] ''Shop'' ''shop''"
  have ok: "rpc_ok ?x" by (simp add: rpc_ok_def is_name_def is_word_def is_alnum_def Let_def)
  have sl: "CHR ''/'' \<notin> set (rpc_text ?x @ ''}'')" by (simp add: rpc_text_def nl_def)
  have "find_rpcs ''}'' = []" by (subst find_rpcs_skip) (simp_all add: find_rpcs.simps rpc_at_no_r)
  then have "extractRPCsFromProto (rpc_text ?x @ ''}'') = [?x]"
    by (simp add: extractRPCsFromProto_def strip_comments_id [OF sl] find_rpcs_text [OF ok])
  then obtain i h where a: "?gen (None, None) = (None, i, h)"
    by (simp add: generateInterfaceAndHandler_def Let_def)
  obtain r i2 h2 where b: "?gen (i, h) = (r, i2, h2)" using prod_cases3 by blast
  have "i2 = Some (interface_code ''shop'' ''Shop'' [])" using regenerate_breaks_service [OF a _ b] by simp
  then show ?thesis using a b by auto
qed

text \<open>
  The Pascal-case name of a valid service name is a non-empty string of letters and digits: a Go identifier, up to a
  leading digit.
\<close>

theorem toPascalCase_identifier:
  assumes "isValidServiceName name"
  shows "toPascalCase name \<noteq> [] \<and> list_all is_alnum (toPascalCase name)"
proof -
  have case_alnum: "is_alnum c \<Longrightarrow> is_alnum (upper_char c) \<and> is_alnum (lower_char c)" for c
    by (auto simp: is_alnum_def upper_char_def lower_char_def Let_def)
  have parts: "c \<in> set p \<Longrightarrow> p \<in> set (Split name CHR ''-'') \<Longrightarrow> is_alnum c" for c p
  proof -
    assume *: "c \<in> set p" "p \<in> set (Split name CHR ''-'')"
    have "set p \<subseteq> set (Join (Split name CHR ''-'') ''-'')" using *(2) by (rule set_Join_part)
    then have "c \<in> set name" using *(1) by auto
    moreover have "c \<noteq> CHR ''-''" using Split_parts_no_sep [OF *(2)] *(1) by auto
    ultimately show "is_alnum c" using assms by (auto simp: isValidServiceName_def)
  qed
  have cap: "\<forall>c \<in> set p. is_alnum c \<Longrightarrow> \<forall>c \<in> set (capitalise p). is_alnum c" for p
    using case_alnum by (cases p) (auto simp: capitalise_def ToUpper_def ToLower_def)
  have "list_all is_alnum (toPascalCase name)"
    unfolding toPascalCase_def Join_empty_sep list_all_iff using parts cap [rule_format] by fastforce
  moreover have "toPascalCase name \<noteq> []"
  proof -
    obtain c cs where n: "name = c # cs" "c \<noteq> CHR ''-''"
      using assms by (cases name) (auto simp: isValidServiceName_def HasPrefix_iff)
    obtain p ps where "Split name CHR ''-'' = p # ps" "p \<noteq> []" using n by (cases "Split cs CHR ''-''") auto
    then show ?thesis by (simp add: toPascalCase_def Join_empty_sep capitalise_def ToUpper_def)
  qed
  ultimately show ?thesis by blast
qed

end
