(* ===== verification/Scaffolding.thy ===== *)
theory Scaffolding
  imports Proto_Services
begin

text \<open>
  The other commands of the tool: \<^verbatim>\<open>internal/command/gen.go\<close>, \<^verbatim>\<open>internal/command/new.go\<close>,
  \<^verbatim>\<open>internal/command/implement.go\<close> and \<^verbatim>\<open>internal/command/clean.go\<close>.

  Files are a map from paths to contents; \<^verbatim>\<open>protoc\<close> and the JSON library are arguments.  Paths are those of Unix.
\<close>

section \<open>Paths\<close>

fun clean_step :: "bool \<Rightarrow> string \<Rightarrow> string list \<Rightarrow> string list" where
  "clean_step rooted c st =
     (if c = [] \<or> c = ''.'' then st
      else if c = ''..'' then
        (if st \<noteq> [] \<and> last st \<noteq> ''..'' then butlast st
         else if rooted then st else st @ [''..''])
      else st @ [c])"

definition filepath_Clean :: "string \<Rightarrow> string" where
  "filepath_Clean p =
     (if p = [] then ''.''
      else (let rooted = (hd p = CHR ''/'');
                st = fold (clean_step rooted) (Split p CHR ''/'') []
            in if rooted then ''/'' @ Join st ''/'' else if st = [] then ''.'' else Join st ''/''))"

definition filepath_Join :: "string list \<Rightarrow> string" where
  "filepath_Join es =
     (let ne = filter (\<lambda>e. e \<noteq> []) es in if ne = [] then [] else filepath_Clean (Join ne ''/''))"

definition filepath_Dir :: "string \<Rightarrow> string" where
  "filepath_Dir p = filepath_Clean (rev (dropWhile (\<lambda>c. c \<noteq> CHR ''/'') (rev p)))"

definition filepath_Base :: "string \<Rightarrow> string" where
  "filepath_Base p =
     (if p = [] then ''.''
      else (let q = rev (dropWhile (\<lambda>c. c = CHR ''/'') (rev p));
                b = rev (takeWhile (\<lambda>c. c \<noteq> CHR ''/'') (rev q))
            in if b = [] then ''/'' else b))"

section \<open>Running protoc\<close>

record GenClient =
  Lang :: string
  Dir :: string
  PbDir :: string
  WithResponseWrapper :: bool
  WithGw :: bool
  WithSwagger :: bool
  PluginDir :: string
  ThirdPartyDir :: string

definition applyLanguages :: "string list" where
  "applyLanguages = [''go'', ''php'']"

definition gen_accepts :: "string \<Rightarrow> bool" where
  "gen_accepts lang \<longleftrightarrow> ToLower lang \<in> set applyLanguages"

definition root_dir :: "string \<Rightarrow> GenClient \<Rightarrow> string" where
  "root_dir cwd s = filepath_Dir (filepath_Join [cwd, Dir s])"

definition arg_imports :: "string \<Rightarrow> string list" where
  "arg_imports rootDir = [''-I='' @ rootDir, ''-I=proto'', ''-I=proto/third_party'']"

definition args_swagger :: "string \<Rightarrow> string list" where
  "args_swagger swDir = [''--openapiv2_out='' @ swDir, ''--openapiv2_opt=json_names_for_fields=false'',
     ''--openapiv2_opt=allow_merge=true'', ''--openapiv2_opt=merge_file_name=doc'', ''--openapiv2_opt=disable_default_errors=true'']"

definition genArgsGo :: "string \<Rightarrow> GenClient \<Rightarrow> string list \<Rightarrow> string list" where
  "genArgsGo cwd s protoFiles =
     (let pb = filepath_Join [Dir s, PbDir s]; sw = filepath_Join [Dir s, ''docs/swagger''];
          args = arg_imports (root_dir cwd s) @
            [''--go_out='' @ pb, ''--go_opt=paths=import'', ''--go-grpc_out='' @ pb, ''--go-grpc_opt=paths=import''];
          args = (if WithGw s then args @ [''--grpc-gateway_out='' @ pb, ''--grpc-gateway_opt=paths=import''] else args);
          args = (if WithSwagger s then args @ args_swagger sw else args)
      in args @ [''--validate_out=lang=go,paths=import:'' @ pb] @ protoFiles)"

definition genArgsPhp :: "string \<Rightarrow> GenClient \<Rightarrow> string list \<Rightarrow> string list" where
  "genArgsPhp cwd s protoFiles =
     (let pb = filepath_Join [Dir s, PbDir s]; sw = filepath_Join [Dir s, ''docs/swagger''];
          args = arg_imports (root_dir cwd s) @ [''--php_out='' @ pb, ''--grpc_out='' @ pb] @
            [''--plugin=protoc-gen-grpc='' @ filepath_Join [root_dir cwd s, ''bin'', ''grpc_php_plugin'']];
          args = (if WithSwagger s then args @ args_swagger sw else args)
      in args @ protoFiles)"

definition genArgsByLang :: "string \<Rightarrow> GenClient \<Rightarrow> string list \<Rightarrow> string list" where
  "genArgsByLang cwd s protoFiles =
     (if Lang s = ''go'' then genArgsGo cwd s protoFiles
      else if Lang s = ''php'' then genArgsPhp cwd s protoFiles
      else [])"

definition genThirdPartyArgs :: "GenClient \<Rightarrow> string list \<Rightarrow> string list list" where
  "genThirdPartyArgs s thirdPartyFiles =
     (if Lang s \<noteq> ''php'' then []
      else map (\<lambda>file. [''-I='' @ filepath_Dir (ThirdPartyDir s), ''-I='' @ ThirdPartyDir s,
             ''--php_out='' @ filepath_Join [Dir s, PbDir s], file]) thirdPartyFiles)"

section \<open>Swagger documents\<close>

text \<open>JSON values as the decoder gives them; an object has no key twice.\<close>

datatype json = JNull | JBool bool | JNum string | JStr string | JArr "json list" | JObj "(string \<times> json) list"

definition jobj :: "json \<Rightarrow> (string \<times> json) list option" where
  "jobj j = (case j of JObj kvs \<Rightarrow> Some kvs | _ \<Rightarrow> None)"

text \<open>Apply \<open>f\<close> to the values of an object; the assignment to a key.\<close>

definition map_values :: "(string \<Rightarrow> json \<Rightarrow> json) \<Rightarrow> json \<Rightarrow> json" where
  "map_values f j = (case j of JObj kvs \<Rightarrow> JObj (map (\<lambda>(k, v). (k, f k v)) kvs) | _ \<Rightarrow> j)"

fun jset :: "string \<Rightarrow> json \<Rightarrow> (string \<times> json) list \<Rightarrow> (string \<times> json) list" where
  "jset k v [] = [(k, v)]"
| "jset k v ((k', v') # kvs) = (if k = k' then (k, v) # kvs else (k', v') # jset k v kvs)"

definition described :: "string \<Rightarrow> string \<Rightarrow> json" where
  "described ty d = JObj [(''type'', JStr ty), (''description'', JStr d)]"

definition status_properties :: json where
  "status_properties = JObj [(''error_code'', described ''integer'' ''HTTP status code''),
     (''error_message'', described ''string'' ''Human-readable error message''),
     (''alert_message'', described ''string'' ''Alert message for UI/UX'')]"

definition wrapResponseSchema :: "json \<Rightarrow> json" where
  "wrapResponseSchema schema = JObj [(''type'', JStr ''object''),
     (''properties'', JObj [(''status'', JObj [(''type'', JStr ''object''), (''properties'', status_properties)]), (''data'', schema)])]"

definition http_methods :: "string list" where
  "http_methods = [''get'', ''post'', ''put'', ''delete'', ''patch'']"

definition wrap_response :: "json \<Rightarrow> json" where
  "wrap_response = map_values (\<lambda>k v. if k = ''schema'' then wrapResponseSchema v else v)"

definition wrap_operation :: "json \<Rightarrow> json" where
  "wrap_operation = map_values (\<lambda>k v. if k = ''responses'' then map_values (\<lambda>_. wrap_response) v else v)"

definition wrap_path_item :: "json \<Rightarrow> json" where
  "wrap_path_item = map_values (\<lambda>method v. if ToLower method \<in> set http_methods then wrap_operation v else v)"

definition response_definitions :: "(string \<times> json) list \<Rightarrow> (string \<times> json) list" where
  "response_definitions defs =
     jset ''StandardResponse'' (JObj [(''type'', JStr ''object''),
        (''properties'', JObj [(''status'', JObj [(''$ref'', JStr ''#/definitions/ResponseStatus'')]), (''data'', described ''object'' ''Response data'')])])
       (jset ''ResponseStatus'' (JObj [(''type'', JStr ''object''), (''properties'', status_properties)]) defs)"

text \<open>
  \<^verbatim>\<open>processSwaggerFile\<close> on a decoded document (an object or \<^verbatim>\<open>null\<close>): the assertion that the definitions are an object panics
  when they are something else.
\<close>

definition processSwagger :: "(string \<times> json) list \<Rightarrow> (string \<times> json) list outcome" where
  "processSwagger swagger =
     (let sw = map (\<lambda>(k, v). (k, if k = ''paths'' then map_values (\<lambda>_. wrap_path_item) v else v)) swagger in
      case map_of sw ''definitions'' of
        None \<Rightarrow> Returns (Inr (jset ''definitions'' (JObj (response_definitions [])) sw))
      | Some JNull \<Rightarrow> Returns (Inr (jset ''definitions'' (JObj (response_definitions [])) sw))
      | Some (JObj defs) \<Rightarrow> Returns (Inr (jset ''definitions'' (JObj (response_definitions defs)) sw))
      | Some _ \<Rightarrow> Panics ''interface conversion'')"

text \<open>
  The file level: \<open>Unmarshal\<close> and \<open>MarshalIndent\<close> are the JSON library, a file that is not in the map cannot be read.  The
  files are processed in the order of the walk, up to the first failure.
\<close>

definition processSwaggerFile ::
  "(string \<Rightarrow> (string \<times> json) list res) \<Rightarrow> ((string \<times> json) list \<Rightarrow> string) \<Rightarrow> string \<Rightarrow> files \<Rightarrow> unit outcome \<times> files" where
  "processSwaggerFile Unmarshal MarshalIndent inputFile fs =
     (case fs inputFile of
        None \<Rightarrow> (Returns (Inl (Wrapf (''failed to read file '' @ inputFile @ '': '') (Sentinel ''file does not exist''))), fs)
      | Some data \<Rightarrow>
          (case Unmarshal data of
             Inl err \<Rightarrow> (Returns (Inl (Wrapf (''failed to parse JSON from '' @ inputFile @ '': '') err)), fs)
           | Inr swagger \<Rightarrow>
               (case processSwagger swagger of
                  Panics p \<Rightarrow> (Panics p, fs)
                | Returns (Inl err) \<Rightarrow> (Returns (Inl err), fs)
                | Returns (Inr sw) \<Rightarrow> (Returns (Inr ()), fs(inputFile \<mapsto> MarshalIndent sw)))))"

fun process_files :: "(string \<Rightarrow> files \<Rightarrow> unit outcome \<times> files) \<Rightarrow> string list \<Rightarrow> files \<Rightarrow> unit outcome \<times> files" where
  "process_files f [] fs = (Returns (Inr ()), fs)"
| "process_files f (x # xs) fs =
     (case f x fs of
        (Returns (Inr u), fs') \<Rightarrow> process_files f xs fs'
      | (Returns (Inl err), fs') \<Rightarrow> (Returns (Inl (Wrapf (''error processing '' @ x @ '': '') err)), fs')
      | (Panics p, fs') \<Rightarrow> (Panics p, fs'))"

definition processSwaggerFiles ::
  "(string \<Rightarrow> (string \<times> json) list res) \<Rightarrow> ((string \<times> json) list \<Rightarrow> string) \<Rightarrow> (string \<Rightarrow> files \<Rightarrow> string list res)
     \<Rightarrow> string \<Rightarrow> files \<Rightarrow> unit outcome \<times> files" where
  "processSwaggerFiles Unmarshal MarshalIndent WalkDir swaggerDir fs =
     (case WalkDir swaggerDir fs of
        Inl err \<Rightarrow> (Returns (Inl (Wrapf (''failed to walk directory '' @ swaggerDir @ '': '') err)), fs)
      | Inr paths \<Rightarrow>
          process_files (processSwaggerFile Unmarshal MarshalIndent) (filter (\<lambda>p. HasSuffix p ''.swagger.json'') paths) fs)"

text \<open>
  The system as \<^verbatim>\<open>runProtocGen\<close> sees it: whether the proto directory is missing, \<^verbatim>\<open>MkdirAll\<close>, the working directory, the proto files by
  a pattern, the files of a tree, and \<^verbatim>\<open>protoc\<close>, which gets its arguments and changes files.
\<close>

record gen_system =
  IsNotExist :: "string \<Rightarrow> bool"
  MkdirAll :: "string \<Rightarrow> gerror option"
  Getwd :: "string res"
  Glob :: "string \<Rightarrow> string list res"
  WalkDir :: "string \<Rightarrow> files \<Rightarrow> string list res"
  protoc :: "string list \<Rightarrow> files \<Rightarrow> gerror option \<times> files"
  Unmarshal :: "string \<Rightarrow> (string \<times> json) list res"
  MarshalIndent :: "(string \<times> json) list \<Rightarrow> string"

text \<open>Run \<^verbatim>\<open>protoc\<close> with one argument list after the other, up to the first failure; the runs made are recorded.\<close>

fun run_protocs :: "gen_system \<Rightarrow> string list list \<Rightarrow> files \<Rightarrow> string list list \<Rightarrow> gerror option \<times> files \<times> string list list" where
  "run_protocs sys [] fs runs = (None, fs, runs)"
| "run_protocs sys (a # as) fs runs =
     (case protoc sys a fs of
        (Some err, fs') \<Rightarrow> (Some err, fs', runs @ [a])
      | (None, fs') \<Rightarrow> run_protocs sys as fs' (runs @ [a]))"

definition genAndRunThirdParty :: "gen_system \<Rightarrow> GenClient \<Rightarrow> files \<Rightarrow> gerror option \<times> files \<times> string list list" where
  "genAndRunThirdParty sys s fs =
     (if Lang s \<noteq> ''php'' then (None, fs, [])
      else (case WalkDir sys (ThirdPartyDir s) fs of
              Inl err \<Rightarrow> (Some err, fs, [])
            | Inr paths \<Rightarrow> run_protocs sys (genThirdPartyArgs s (filter (\<lambda>p. HasSuffix p ''.proto'') paths)) fs []))"

definition runProtocGen :: "gen_system \<Rightarrow> GenClient \<Rightarrow> files \<Rightarrow> unit outcome \<times> files \<times> string list list" where
  "runProtocGen sys s fs =
     (let fail = (\<lambda>e. (Returns (Inl e), fs, [])); swDir = filepath_Join [Dir s, ''docs/swagger''] in
      if IsNotExist sys (filepath_Join [Dir s, ''proto'']) then fail (Errorf ''proto directory not found'')
      else case MkdirAll sys (filepath_Join [Dir s, PbDir s]) of
        Some err \<Rightarrow> fail (Wrapf ''failed to create pb directory: '' err)
      | None \<Rightarrow>
      (case if WithSwagger s then MkdirAll sys swDir else None of
        Some err \<Rightarrow> fail (Wrapf ''failed to create docs/swagger directory: '' err)
      | None \<Rightarrow>
      (case Getwd sys of
        Inl err \<Rightarrow> fail (Wrapf ''failed to get current working directory: '' err)
      | Inr cwd \<Rightarrow>
      (case Glob sys (filepath_Join [filepath_Join [cwd, Dir s], ''proto'', ''*.proto'']) of
        Inl err \<Rightarrow> fail (Wrapf ''failed to find .proto files: '' err)
      | Inr protoFiles \<Rightarrow>
      (if protoFiles = [] then fail (Errorf ''no .proto files found in proto directory'')
       else case genAndRunThirdParty sys s fs of
         (Some err, fs1, runs) \<Rightarrow> (Returns (Inl (Wrapf ''failed to generate third party: '' err)), fs1, runs)
       | (None, fs1, runs) \<Rightarrow>
           (let args = genArgsByLang cwd s protoFiles in
            case protoc sys args fs1 of
              (Some err, fs2) \<Rightarrow> (Returns (Inl err), fs2, runs @ [args])
            | (None, fs2) \<Rightarrow>
                (if WithSwagger s \<and> WithResponseWrapper s
                 then (case processSwaggerFiles (Unmarshal sys) (MarshalIndent sys) (WalkDir sys) swDir fs2 of
                         (Returns (Inl err), fs3) \<Rightarrow> (Returns (Inl (Wrapf ''failed to process swagger files: '' err)), fs3, runs @ [args])
                       | (r, fs3) \<Rightarrow> (r, fs3, runs @ [args]))
                 else (Returns (Inr ()), fs2, runs @ [args]))))))))"

section \<open>New services\<close>

text \<open>The replacements of \<^verbatim>\<open>replacePlaceholders\<close> in some order: the language leaves the order of a map's iteration open.\<close>

definition placeholders :: "string \<Rightarrow> string \<Rightarrow> string \<Rightarrow> (string \<times> string) list" where
  "placeholders modulePath pfx moduleName =
     [(''github.com/minhgiang16983/service-kit'', modulePath), (''ServiceKit'', pfx), (''service-kit'', moduleName)]"

definition replacePlaceholders :: "(string \<times> string) list \<Rightarrow> string \<Rightarrow> string" where
  "replacePlaceholders order content = fold (\<lambda>(old, new) c. ReplaceAll c old new) order content"

definition target_path :: "string \<Rightarrow> string \<Rightarrow> string" where
  "target_path servicePath relPath =
     (let t = TrimSuffix (filepath_Join [servicePath, relPath]) ''.tpl'' in
      if filepath_Base t = ''_go.mod'' then filepath_Join [filepath_Dir t, ''go.mod'']
      else if filepath_Base t = ''_go.sum'' then filepath_Join [filepath_Dir t, ''go.sum'']
      else t)"

text \<open>
  \<^verbatim>\<open>generateInterfaceAndHandler\<close> on the files of a service at \<open>dir\<close>; \<open>ReadDir\<close> lists the plain files of a directory in order.
\<close>

definition services_file :: "string \<Rightarrow> string \<Rightarrow> string \<Rightarrow> string" where
  "services_file dir modulePrefix sfx = filepath_Join [dir, ''internal'', ''services'', ToLower modulePrefix @ sfx]"

definition implement_in :: "(string \<Rightarrow> files \<Rightarrow> string list res) \<Rightarrow> string \<Rightarrow> string \<Rightarrow> files \<Rightarrow> gerror option \<times> files" where
  "implement_in ReadDir dir serviceName fs =
     (let modulePrefix = toPascalCase serviceName; protoDir = filepath_Join [dir, ''proto''];
          interfaceFile = services_file dir modulePrefix ''_interface.go'';
          handlerFile = services_file dir modulePrefix ''_handler.go''
      in case ReadDir protoDir fs of
           Inl err \<Rightarrow> (Some (Wrapf ''failed to read proto directory: '' err), fs)
         | Inr names \<Rightarrow>
             (let protos = List.map_filter (\<lambda>n. fs (filepath_Join [protoDir, n])) (filter (\<lambda>n. HasSuffix n ''.proto'') names) in
              case generateInterfaceAndHandler protos modulePrefix serviceName (fs interfaceFile, fs handlerFile) of
                (err, iface, handler) \<Rightarrow> (err, fs(interfaceFile := iface, handlerFile := handler))))"

text \<open>
  \<^verbatim>\<open>generateNewService\<close>: the templates (regular files, by their path under the template root) are written with the placeholders
  replaced, for each file in the order the iteration of the map takes (\<open>order\<close>), then the interface and the handler are generated,
  with a failure only logged.
\<close>

definition write_templates ::
  "(string \<Rightarrow> (string \<times> string) list \<Rightarrow> (string \<times> string) list) \<Rightarrow> string \<Rightarrow> (string \<times> string) list \<Rightarrow> files \<Rightarrow> files" where
  "write_templates order serviceName templates fs =
     (let ps = placeholders (''github.com/minhgiang16983/'' @ serviceName) (toPascalCase serviceName) serviceName in
      fold (\<lambda>(relPath, content) fs. fs(target_path serviceName relPath \<mapsto> replacePlaceholders (order relPath ps) content)) templates fs)"

definition generateNewService ::
  "(string \<Rightarrow> files \<Rightarrow> string list res) \<Rightarrow> (string \<Rightarrow> (string \<times> string) list \<Rightarrow> (string \<times> string) list) \<Rightarrow>
     string \<Rightarrow> (string \<times> string) list \<Rightarrow> files \<Rightarrow> files outcome" where
  "generateNewService ReadDir order serviceName templates fs =
     (if \<not> isValidServiceName serviceName then Panics (''Invalid base_service name: '' @ serviceName)
      else Returns (Inr (snd (implement_in ReadDir serviceName serviceName (write_templates order serviceName templates fs)))))"

definition runImplement :: "(string \<Rightarrow> files \<Rightarrow> string list res) \<Rightarrow> string \<Rightarrow> files \<Rightarrow> files outcome" where
  "runImplement ReadDir cwd fs =
     (if \<not> isValidServiceName (filepath_Base cwd) then Panics (''Invalid base_service name: '' @ filepath_Base cwd)
      else Returns (Inr (snd (implement_in ReadDir cwd (filepath_Base cwd) fs))))"

text \<open>
  \<^verbatim>\<open>runClean\<close>: \<open>RemoveAll\<close> takes a tree away, or fails with an error (\<open>fails\<close>) and leaves it; removing what is not there is
  no error.
\<close>

definition under :: "string \<Rightarrow> string \<Rightarrow> bool" where
  "under d p \<longleftrightarrow> p = d \<or> HasPrefix p (d @ ''/'')"

definition remove_tree :: "string \<Rightarrow> files \<Rightarrow> files" where
  "remove_tree d fs = (\<lambda>p. if under d p then None else fs p)"

definition runClean :: "(string \<Rightarrow> gerror option) \<Rightarrow> files \<Rightarrow> gerror option \<times> files" where
  "runClean fails fs =
     (case fails ''pb'' of
        Some err \<Rightarrow> (Some (Wrapf ''failed to remove pb directory: '' err), fs)
      | None \<Rightarrow>
          (let fs1 = remove_tree ''pb'' fs in
           case fails ''docs/swagger'' of
             Some err \<Rightarrow> (Some (Wrapf ''failed to remove swagger directory: '' err), fs1)
           | None \<Rightarrow> (None, remove_tree ''docs/swagger'' fs1)))"

section \<open>Properties\<close>

text \<open>The value at a path of keys.\<close>

fun jget :: "json \<Rightarrow> string list \<Rightarrow> json option" where
  "jget j [] = Some j"
| "jget (JObj kvs) (k # ks) = (case map_of kvs k of None \<Rightarrow> None | Some v \<Rightarrow> jget v ks)"
| "jget _ (k # ks) = None"

lemma map_of_keyed: "map_of (map (\<lambda>(k, v). (k, f k v)) kvs) k = map_option (f k) (map_of kvs k)"
  by (induction kvs) auto

lemma map_of_jset: "map_of (jset k v kvs) k' = (if k' = k then Some v else map_of kvs k')"
  by (induction k v kvs rule: jset.induct) auto

lemma jget_map_values: "jget (map_values f j) (k # ks) = (case jget j [k] of None \<Rightarrow> None | Some v \<Rightarrow> jget (f k v) ks)"
  by (cases j) (auto simp: map_values_def map_of_keyed split: option.splits)

lemma jget_Cons: "jget j (k # ks) = (case jget j [k] of None \<Rightarrow> None | Some v \<Rightarrow> jget v ks)"
  by (cases j) (auto split: option.splits)

lemma jget_wrap_path_item:
  assumes "jget item [m, ''responses'', c, ''schema''] = Some s"
  shows "jget (wrap_path_item item) [m, ''responses'', c, ''schema''] =
    Some (if ToLower m \<in> set http_methods then wrapResponseSchema s else s)"
proof -
  obtain op where op: "jget item [m] = Some op" "jget op [''responses'', c, ''schema''] = Some s"
    using assms by (subst (asm) jget_Cons) (auto split: option.splits)
  obtain rs where rs: "jget op [''responses''] = Some rs" "jget rs [c, ''schema''] = Some s"
    using op(2) by (subst (asm) jget_Cons) (auto split: option.splits)
  obtain r where r: "jget rs [c] = Some r" "jget r [''schema''] = Some s"
    using rs(2) by (subst (asm) jget_Cons) (auto split: option.splits)
  have "jget (wrap_operation op) [''responses'', c, ''schema''] = Some (wrapResponseSchema s)"
    using rs(1) r by (simp add: wrap_operation_def wrap_response_def jget_map_values)
  then show ?thesis using op by (simp add: wrap_path_item_def jget_map_values)
qed

lemma processSwagger_lookup:
  assumes "processSwagger sw = Returns (Inr sw')" "k \<noteq> ''definitions''"
  shows "map_of sw' k = map_option (\<lambda>v. if k = ''paths'' then map_values (\<lambda>_. wrap_path_item) v else v) (map_of sw k)"
  using assms
  by (auto simp: processSwagger_def Let_def map_of_jset map_of_keyed split: option.splits json.splits)



text \<open>
  The result of \<^verbatim>\<open>new\<close> can depend on the order in which a map is iterated.  For a service whose name contains the
  placeholder itself, the module path comes out right in one order and mangled in another.
\<close>

theorem replacePlaceholders_order_matters:
  "let ps = placeholders ''github.com/minhgiang16983/my-service-kit'' ''MyServiceKit'' ''my-service-kit'';
       text = ''module github.com/minhgiang16983/service-kit''
   in replacePlaceholders ps text = ''module github.com/minhgiang16983/my-my-service-kit'' \<and>
      replacePlaceholders (rev ps) text = ''module github.com/minhgiang16983/my-service-kit''"
  by code_simp

text \<open>
  A language in upper case passes the check of \<^verbatim>\<open>gen\<close>, but no arguments are made for it: \<^verbatim>\<open>protoc\<close> is run with
  none.
\<close>

theorem gen_lang_case:
  "gen_accepts (Lang s) \<and> genArgsByLang cwd s protoFiles = [] \<longleftrightarrow>
     ToLower (Lang s) \<in> {''go'', ''php''} \<and> Lang s \<notin> {''go'', ''php''}"
  by (auto simp: gen_accepts_def applyLanguages_def genArgsByLang_def genArgsGo_def genArgsPhp_def arg_imports_def Let_def)

text \<open>
  For Go, the arguments contain the proto files last, the output directory for messages, services and validators always,
  and the gateway and Swagger plugins exactly when asked for.
\<close>

theorem genArgsGo_spec:
  "\<exists>pre. genArgsGo cwd s protoFiles = pre @ protoFiles \<and>
     (let pb = filepath_Join [Dir s, PbDir s] in
      set [''--go_out='' @ pb, ''--go-grpc_out='' @ pb, ''--validate_out=lang=go,paths=import:'' @ pb] \<subseteq> set pre \<and>
      (''--grpc-gateway_opt=paths=import'' \<in> set pre \<longleftrightarrow> WithGw s) \<and>
      (''--openapiv2_opt=allow_merge=true'' \<in> set pre \<longleftrightarrow> WithSwagger s))"
  by (auto simp: genArgsGo_def args_swagger_def arg_imports_def Let_def)

lemma run_protocs_runs:
  "run_protocs sys as fs runs = (r, fs', runs') \<Longrightarrow>
    \<exists>dn. runs' = runs @ dn \<and> (r = None \<longrightarrow> dn = as \<and> (\<forall>a \<in> set dn. \<exists>f. fst (protoc sys a f) = None)) \<and>
      (\<forall>a \<in> set (butlast dn). \<exists>f. fst (protoc sys a f) = None)"
proof (induction sys as fs runs rule: run_protocs.induct)
  case (2 sys a as fs runs)
  obtain e f where p: "protoc sys a fs = (e, f)" by (cases "protoc sys a fs")
  show ?case
  proof (cases e)
    case None
    then obtain dn where dn: "runs' = (runs @ [a]) @ dn" "r = None \<longrightarrow> dn = as \<and> (\<forall>a \<in> set dn. \<exists>f. fst (protoc sys a f) = None)"
        "\<forall>a \<in> set (butlast dn). \<exists>f. fst (protoc sys a f) = None"
      using 2 p by fastforce
    have a: "\<exists>f. fst (protoc sys a f) = None" using p None by (metis fst_conv)
    show ?thesis using dn a by (intro exI [of _ "a # dn"]) auto
  next
    case (Some err)
    then show ?thesis using 2(2) p by (intro exI [of _ "[a]"]) auto
  qed
qed simp

lemma genAndRunThirdParty_runs:
  assumes "genAndRunThirdParty sys s fs = (r, fs', runs)"
  shows "(Lang s \<noteq> ''php'' \<longrightarrow> r = None \<and> runs = []) \<and> (\<forall>a \<in> set (butlast runs). \<exists>f. fst (protoc sys a f) = None) \<and>
    (r = None \<longrightarrow> (\<forall>a \<in> set runs. \<exists>f. fst (protoc sys a f) = None) \<and>
       (Lang s = ''php'' \<longrightarrow> (\<exists>paths. WalkDir sys (ThirdPartyDir s) fs = Inr paths \<and>
          runs = genThirdPartyArgs s (filter (\<lambda>p. HasSuffix p ''.proto'') paths))))"
  using assms
  by (auto simp: genAndRunThirdParty_def split: if_splits sum.splits dest!: run_protocs_runs)


definition example_gen_system :: gen_system where
  "example_gen_system = \<lparr>IsNotExist = (\<lambda>_. False), MkdirAll = (\<lambda>_. None), Getwd = Inr ''/work/svc'', Glob = (\<lambda>_. Inr [''/work/svc/proto/a.proto'']),
     WalkDir = (\<lambda>_ _. Inr []), protoc = (\<lambda>_ fs. (None, fs)), Unmarshal = (\<lambda>_. Inr []), MarshalIndent = (\<lambda>_. [])\<rparr>"


end
