(* ===== verification/Integrations.thy ===== *)
theory Integrations
  imports Metrics Telemetry Scaffolding Go_Time
begin

text \<open>
  The adapters to outside services: the cron scheduler and its monitor (\<^verbatim>\<open>cron/cron.go\<close>, \<^verbatim>\<open>cron/monitor.go\<close>), the loader of
  secrets into the environment (\<^verbatim>\<open>secrets/aws_secrets.go\<close>) and the Temporal client with its logger (\<^verbatim>\<open>workflow/temporal/\<close>).
  The scheduler, the AWS and the Temporal client and the JSON decoder are arguments.
\<close>

section \<open>Cron\<close>

text \<open>
  A monitor: its instruments are \<^verbatim>\<open>nil\<close> or a counter and the observed durations, by job name and status.  The
  logger is the lines written to it.
\<close>

record Monitor =
  mon_logger :: "log_line list"
  mon_metrics :: "Metrics option"
  jobExecutionsTotal :: "(string \<times> string \<Rightarrow> nat) option"
  jobDurationHistogram :: "(string \<times> string \<Rightarrow> rat list) option"

definition IncrementJob :: "string \<Rightarrow> string \<Rightarrow> Monitor \<Rightarrow> Monitor" where
  "IncrementJob name status m =
     (case jobExecutionsTotal m of
        None \<Rightarrow> m
      | Some ct \<Rightarrow> m\<lparr>jobExecutionsTotal := Some (ct((name, status) := Suc (ct (name, status))))\<rparr>)"

text \<open>\<open>show_duration\<close> stands for the logger's rendering of a duration.\<close>

text \<open>\<^verbatim>\<open>RecordJobTiming\<close> does nothing.\<close>

definition RecordJobTiming :: "nanos \<Rightarrow> nanos \<Rightarrow> string \<Rightarrow> string \<Rightarrow> Monitor \<Rightarrow> Monitor" where
  "RecordJobTiming startTime endTime jid name m = m"

definition RecordJobTimingWithStatus ::
  "(int \<Rightarrow> string) \<Rightarrow> nanos \<Rightarrow> nanos \<Rightarrow> string \<Rightarrow> string \<Rightarrow> string \<Rightarrow> gerror option \<Rightarrow> Monitor \<Rightarrow> Monitor" where
  "RecordJobTimingWithStatus show_duration startTime endTime uuid name status err m =
     (let duration = time_Sub endTime startTime;
          m1 = (case err of
                  None \<Rightarrow> m
                | Some e \<Rightarrow> m\<lparr>mon_logger := mon_logger m @ [Line LError ''Job failed with error''
                    [(''job_id'', uuid), (''job_name'', name), (''status'', status),
                     (''duration'', show_duration duration), (''error'', err_msg e)]]\<rparr>)
      in case jobDurationHistogram m1 of
           None \<Rightarrow> m1
         | Some h \<Rightarrow> m1\<lparr>jobDurationHistogram := Some (h((name, status) := h (name, status) @ [duration_Seconds duration]))\<rparr>)"

definition NewMonitor :: "log_line list \<Rightarrow> Monitor" where
  "NewMonitor lg = \<lparr>mon_logger = lg, mon_metrics = None, jobExecutionsTotal = None, jobDurationHistogram = None\<rparr>"

definition initializePrometheusMetrics :: "'p prometheus \<Rightarrow> Monitor \<Rightarrow> 'p process \<Rightarrow> Monitor outcome \<times> 'p process" where
  "initializePrometheusMetrics pm m pr =
     (case mon_metrics m of
        None \<Rightarrow> (Panics ''nil pointer dereference'', pr)
      | Some ms \<Rightarrow>
          (case GetConfig ms of
             None \<Rightarrow> (Panics ''nil pointer dereference'', pr)
           | Some cfg \<Rightarrow>
               (let m' = m\<lparr>jobExecutionsTotal := Some (\<lambda>_. 0), jobDurationHistogram := Some (\<lambda>_. [])\<rparr>;
                    (r, p') = MustRegister pm [Vec (Namespace cfg) ''cron'' ''job_executions_total'',
                                 Vec (Namespace cfg) ''cron'' ''job_duration_seconds''] (prom pr)
                in (out_bind r (\<lambda>_. Returns (Inr m')), pr\<lparr>prom := p'\<rparr>))))"

definition NewMonitorWithMetrics :: "'p prometheus \<Rightarrow> log_line list \<Rightarrow> Metrics option \<Rightarrow> 'p process \<Rightarrow> Monitor outcome \<times> 'p process" where
  "NewMonitorWithMetrics pm lg ms pr = initializePrometheusMetrics pm ((NewMonitor lg)\<lparr>mon_metrics := ms\<rparr>) pr"

text \<open>The scheduler: options are the caller's or the two that install the monitor.\<close>

datatype 'o sched_option = CallerOption 'o | WithMonitorStatus Monitor | WithMonitor Monitor

record ('o, 's) gocron =
  NewScheduler :: "'o sched_option list \<Rightarrow> 's res"
  NewJob :: "string \<Rightarrow> string \<Rightarrow> 's \<Rightarrow> gerror option \<times> 's"
  Sched_Start :: "'s \<Rightarrow> 's"
  Sched_Shutdown :: "'s \<Rightarrow> gerror option \<times> 's"

definition NewCron :: "'p prometheus \<Rightarrow> ('o, 's) gocron \<Rightarrow> log_line list \<Rightarrow> Metrics option \<Rightarrow> 'o list \<Rightarrow> 'p process \<Rightarrow> 's outcome \<times> 'p process" where
  "NewCron pm g lg ms options pr =
     (case NewMonitorWithMetrics pm lg ms pr of
        (r, pr') \<Rightarrow>
          (out_bind r (\<lambda>monitor.
             let options = map CallerOption options;
                 options = (if ms \<noteq> None then options @ [WithMonitorStatus monitor, WithMonitor monitor] else options)
             in Returns (NewScheduler g options)), pr'))"

text \<open>\<^verbatim>\<open>AddCronJob\<close> by the job's cron expression and name; the task is the caller's closure.\<close>

definition AddCronJob :: "('o, 's) gocron \<Rightarrow> string \<Rightarrow> string \<Rightarrow> 's \<Rightarrow> gerror option \<times> 's" where
  "AddCronJob g name cronExpression c = NewJob g cronExpression name c"

definition Cron_Shutdown :: "('o, 's) gocron \<Rightarrow> 's \<Rightarrow> gerror option \<times> 's" where
  "Cron_Shutdown g c = Sched_Shutdown g c"

definition cron_component :: "('o, 's) gocron \<Rightarrow> 's component" where
  "cron_component g = \<lparr>Name = ''cron'', Start = (\<lambda>_ c. (None, Sched_Start g c)), Stop = (\<lambda>_ c. Cron_Shutdown g c)\<rparr>"

section \<open>Secrets\<close>

text \<open>
  The environment is a function; \<^verbatim>\<open>os.Setenv\<close> refuses a name that is empty or contains an equals sign or a zero byte,
  and a value with a zero byte, and the caller ignores the refusal.
\<close>

definition Setenv :: "string \<Rightarrow> string \<Rightarrow> env \<Rightarrow> env" where
  "Setenv key v e =
     (if key = [] \<or> CHR ''='' \<in> set key \<or> CHR 0x00 \<in> set key \<or> CHR 0x00 \<in> set v then e else e(key := v))"

text \<open>
  The environment value of a JSON value; \<open>Sprintf_v\<close> stands for \<^verbatim>\<open>fmt.Sprintf\<close> with \<^verbatim>\<open>%v\<close> of a number, an array or an object.
\<close>

definition envValue :: "(json \<Rightarrow> string) \<Rightarrow> json \<Rightarrow> string" where
  "envValue Sprintf_v v =
     (case v of JStr s \<Rightarrow> s | JBool b \<Rightarrow> (if b then ''true'' else ''false'') | JNull \<Rightarrow> [] | _ \<Rightarrow> Sprintf_v v)"

text \<open>
  \<open>LoadDefaultConfig\<close> gives the region of the AWS configuration, with a region as option or without;
  \<open>GetSecretValue\<close> is the call to the service and \<open>Unmarshal\<close> the decoder, which gives an object for a document
  that is one and for \<^verbatim>\<open>null\<close>.
\<close>

record aws_secrets =
  LoadDefaultConfig :: "string option \<Rightarrow> string res"
  GetSecretValue :: "string \<Rightarrow> string \<Rightarrow> string option res"
  Unmarshal :: "string \<Rightarrow> (string \<times> json) list res"

definition selected_secrets :: "string \<Rightarrow> (string \<times> json) list \<Rightarrow> (string \<times> json) list res" where
  "selected_secrets secretPath secrets =
     (if secretPath = [] then Inr secrets
      else case map_of secrets secretPath of
             Some (JObj serviceConfig) \<Rightarrow> Inr serviceConfig
           | _ \<Rightarrow> Inl (Errorf (''secret path '' @ [CHR 0x27] @ secretPath @ [CHR 0x27] @ '' not found or not an object'')))"

definition LoadFromAWSSecretsManager :: "aws_secrets \<Rightarrow> (json \<Rightarrow> string) \<Rightarrow> env \<Rightarrow> gerror option \<times> env" where
  "LoadFromAWSSecretsManager aws Sprintf_v e =
     (if ToUpper (e ''ENABLE_AWS_SECRET_MANAGER'') \<noteq> ''TRUE'' then (None, e)
      else (let secretARN = e ''AWS_SECRET_ARN'' in
        if secretARN = [] then (Some (Errorf ''AWS_SECRET_ARN is required''), e)
        else (let region = e ''AWS_REGION'';
                  r = res_bind (case LoadDefaultConfig aws (if region \<noteq> [] then Some region else None) of
                                  Inl err \<Rightarrow> Inl (Wrapf ''failed to load AWS config: '' err) | Inr cfg \<Rightarrow> Inr cfg) (\<lambda>cfgRegion.
                      if cfgRegion = []
                      then Inl (Errorf ''AWS_REGION is required (set AWS_REGION environment variable or configure AWS config)'')
                      else case GetSecretValue aws cfgRegion secretARN of
                             Inl err \<Rightarrow> Inl (Wrapf ''failed to get secret: '' err)
                           | Inr None \<Rightarrow> Inl (Errorf ''secret value is empty'')
                           | Inr (Some secretString) \<Rightarrow>
                               (case Unmarshal aws secretString of
                                  Inl err \<Rightarrow> Inl (Wrapf ''failed to parse secret as JSON: '' err)
                                | Inr secrets \<Rightarrow> selected_secrets (e ''AWS_SECRET_PATH'') secrets))
              in case r of
                   Inl err \<Rightarrow> (Some err, e)
                 | Inr secrets \<Rightarrow> (None, fold (\<lambda>(key, v). Setenv key (envValue Sprintf_v v)) secrets e))))"

section \<open>Temporal\<close>

text \<open>Values passed to the logger: strings and others; \<open>shw\<close> stands for \<^verbatim>\<open>%v\<close> of the others.\<close>

datatype 'v any_value = AStr string | AOther 'v

fun keyValsToFields :: "('v \<Rightarrow> string) \<Rightarrow> 'v any_value list \<Rightarrow> (string \<times> 'v any_value) list" where
  "keyValsToFields shw [] = []"
| "keyValsToFields shw [k] = [(case k of AStr s \<Rightarrow> s | AOther v \<Rightarrow> shw v, AStr ''MISSING_VALUE'')]"
| "keyValsToFields shw (k # v # kvs) = (case k of AStr s \<Rightarrow> s | AOther v \<Rightarrow> shw v, v) # keyValsToFields shw kvs"

text \<open>A line that the logger adapter writes at a level; \<open>render\<close> is how the logging library prints a value.\<close>

definition temporal_log :: "('v \<Rightarrow> string) \<Rightarrow> ('v any_value \<Rightarrow> string) \<Rightarrow> log_level \<Rightarrow> string \<Rightarrow> 'v any_value list \<Rightarrow> log_line list \<Rightarrow> log_line list" where
  "temporal_log shw render lvl msg keyVals lg = lg @ [Line lvl msg (map (\<lambda>(k, v). (k, render v)) (keyValsToFields shw keyVals))]"

record TemporalConfig =
  Host :: string
  T_Port :: int
  T_Namespace :: string
  ApiKey :: string

record temporal_options =
  HostPort :: string
  O_Namespace :: string
  Credentials :: "string option"

text \<open>\<open>DialContext\<close> is the SDK's; a client is what it returns, and \<open>None\<close> the \<^verbatim>\<open>nil\<close> client.\<close>

definition temporal_options_of :: "TemporalConfig \<Rightarrow> temporal_options" where
  "temporal_options_of cfg =
     (let opts = \<lparr>HostPort = Host cfg @ '':'' @ Itoa (T_Port cfg), O_Namespace = T_Namespace cfg, Credentials = None\<rparr>
      in if ApiKey cfg \<noteq> ''-'' then opts\<lparr>Credentials := Some (ApiKey cfg)\<rparr> else opts)"

definition dial :: "(go_ctx \<Rightarrow> temporal_options \<Rightarrow> 'c res) \<Rightarrow> int \<Rightarrow> go_ctx \<Rightarrow> TemporalConfig \<Rightarrow> log_line list \<Rightarrow> 'c res \<times> log_line list" where
  "dial DialContext now ctx cfg lg =
     (case DialContext (WithTimeout ctx now (10 * second)) (temporal_options_of cfg) of
        Inl err \<Rightarrow> (Inl err, lg)
      | Inr temporal \<Rightarrow> (Inr temporal, lg @ [Line LInfo ''Connected to temporal client''
          [(''host'', Host cfg), (''port'', Itoa (T_Port cfg)), (''namespace'', T_Namespace cfg)]]))"

text \<open>\<^verbatim>\<open>New\<close> ends the process when it cannot connect.\<close>

definition temporal_New :: "(go_ctx \<Rightarrow> temporal_options \<Rightarrow> 'c res) \<Rightarrow> int \<Rightarrow> go_ctx \<Rightarrow> TemporalConfig \<Rightarrow> log_line list \<Rightarrow> 'c outcome \<times> log_line list" where
  "temporal_New DialContext now ctx cfg lg =
     (case dial DialContext now ctx cfg lg of
        (Inl err, lg') \<Rightarrow> (Panics (''Failed to initialize Temporal Client: '' @ err_msg err), lg')
      | (Inr cl, lg') \<Rightarrow> (Returns (Inr cl), lg'))"

definition temporal_NewClient ::
  "(go_ctx \<Rightarrow> temporal_options \<Rightarrow> 'c res) \<Rightarrow> int \<Rightarrow> go_ctx \<Rightarrow> TemporalConfig \<Rightarrow> log_line list \<Rightarrow> 'c option res \<times> log_line list" where
  "temporal_NewClient DialContext now ctx cfg lg =
     (case dial DialContext now ctx cfg lg of (r, lg') \<Rightarrow> (res_bind r (\<lambda>c. Inr (Some c)), lg'))"

definition temporal_Stop :: "('c \<Rightarrow> 'w \<Rightarrow> 'w) \<Rightarrow> 'c option \<Rightarrow> 'w \<Rightarrow> gerror option \<times> 'w" where
  "temporal_Stop Close c w = (case c of None \<Rightarrow> (None, w) | Some cl \<Rightarrow> (None, Close cl w))"

definition temporal_component :: "('c \<Rightarrow> 'w \<Rightarrow> 'w) \<Rightarrow> 'c option \<Rightarrow> 'w component" where
  "temporal_component Close c = \<lparr>Name = ''temporal'', Start = (\<lambda>_ w. (None, w)), Stop = (\<lambda>_. temporal_Stop Close c)\<rparr>"

section \<open>Properties\<close>

text \<open>One event the scheduler reports to the monitor, and the monitor's state after the events.\<close>

datatype job_event = Executed string string | Timed nanos nanos string string string "gerror option"

fun mon_event :: "(int \<Rightarrow> string) \<Rightarrow> job_event \<Rightarrow> Monitor \<Rightarrow> Monitor" where
  "mon_event sd (Executed n st) m = IncrementJob n st m"
| "mon_event sd (Timed t0 t1 u n st err) m = RecordJobTimingWithStatus sd t0 t1 u n st err m"

fun failed_event :: "job_event \<Rightarrow> bool" where
  "failed_event (Timed _ _ _ _ _ (Some _)) = True"
| "failed_event _ = False"

text \<open>
  The cron monitor.  Without metrics the construction of a cron panics, although the constructor checks whether the
  metrics are \<^verbatim>\<open>nil\<close> after that.  With metrics, after any sequence of
  events the counter of a job and status is the number of its executions, its durations are the observed ones in
  order, and one line is logged for every failed run.
\<close>

theorem cron_monitor_counts:
  assumes "NewMonitorWithMetrics pm lg (Some ms) pr = (Returns (Inr m), pr')" and "m' = fold (mon_event sd) evs m"
  shows "fst (NewCron pm g lg None options pr) = Panics ''nil pointer dereference'' \<and>
    jobExecutionsTotal m' = Some (\<lambda>(n, st). count_list evs (Executed n st)) \<and>
    jobDurationHistogram m' = Some (\<lambda>(n, st). [duration_Seconds (time_Sub t1 t0). Timed t0 t1 u n' st' err \<leftarrow> evs, n' = n \<and> st' = st]) \<and>
    length (mon_logger m') = length lg + length (filter failed_event evs)"
proof -
  have init: "jobExecutionsTotal m = Some (\<lambda>_. 0)" "jobDurationHistogram m = Some (\<lambda>_. [])" "mon_logger m = lg"
    using assms(1) by (auto simp: NewMonitorWithMetrics_def NewMonitor_def initializePrometheusMetrics_def Let_def out_bind_eq_ok split: option.splits prod.splits)
  have counts: "jobExecutionsTotal m' = Some (\<lambda>(n, st). count_list evs (Executed n st)) \<and>
    jobDurationHistogram m' = Some (\<lambda>(n, st). [duration_Seconds (time_Sub t1 t0). Timed t0 t1 u n' st' err \<leftarrow> evs, n' = n \<and> st' = st]) \<and>
    length (mon_logger m') = length lg + length (filter failed_event evs)"
    unfolding assms(2)
  proof (induction evs rule: rev_induct)
    case Nil
    then show ?case using init by (simp add: case_prod_unfold)
  next
    case (snoc ev evs)
    have "(\<exists>n st. ev = Executed n st) \<or> (\<exists>t0 t1 u n st err. ev = Timed t0 t1 u n st None \<or> ev = Timed t0 t1 u n st (Some err))"
      by (cases ev) (metis option.exhaust)+
    then show ?case using snoc
      by (elim disjE exE) (auto simp: IncrementJob_def RecordJobTimingWithStatus_def Let_def fun_eq_iff)
  qed
  have "fst (NewCron pm g lg None options pr) = Panics ''nil pointer dereference''"
    by (simp add: NewCron_def NewMonitorWithMetrics_def NewMonitor_def initializePrometheusMetrics_def)
  then show ?thesis using counts by blast
qed

theorem cron_monitor_counts_witness:
  "\<exists>m pr'. NewMonitorWithMetrics example_prometheus [] (Some \<lparr>httpRequestsTotal = (\<lambda>_. 0), httpRequestDuration = (\<lambda>_. []), httpRequestsInFlight = 0,
        serviceUp = 0, customMetrics = Map.empty, config = Some DefaultConfig, server = None\<rparr>) \<lparr>prom = (), default_mux = {}, default_servers = []\<rparr>
       = (Returns (Inr m), pr') \<and>
     map_option (\<lambda>ct. ct (''job'', ''ok'')) (jobExecutionsTotal (fold (mon_event (\<lambda>_. [])) [Executed ''job'' ''ok'', Executed ''job'' ''ok''] m)) = Some 2"
proof -
  let ?ms = "\<lparr>httpRequestsTotal = (\<lambda>_. 0), httpRequestDuration = (\<lambda>_. []), httpRequestsInFlight = 0,
        serviceUp = 0, customMetrics = Map.empty, config = Some DefaultConfig, server = None\<rparr>"
  let ?pr = "\<lparr>prom = (), default_mux = {}, default_servers = []\<rparr>"
  obtain m pr' where m: "NewMonitorWithMetrics example_prometheus [] (Some ?ms) ?pr = (Returns (Inr m), pr')"
    by (simp add: NewMonitorWithMetrics_def NewMonitor_def initializePrometheusMetrics_def GetConfig_def example_prometheus_def)
  then show ?thesis
    using cron_monitor_counts [OF m refl, of "undefined :: (unit, unit) gocron" "[]" "\<lambda>_. []" "[Executed ''job'' ''ok'', Executed ''job'' ''ok'']"] by auto
qed

lemma Setenv_fold:
  "distinct (map fst kvs) \<Longrightarrow> fold (\<lambda>(key, v). Setenv key (f v)) kvs e x =
     (case map_of kvs x of
        Some v \<Rightarrow> (if x = [] \<or> CHR ''='' \<in> set x \<or> CHR 0x00 \<in> set x \<or> CHR 0x00 \<in> set (f v) then e x else f v)
      | None \<Rightarrow> e x)"
proof (induction kvs arbitrary: e)
  case (Cons kv kvs)
  obtain k v where kv: "kv = (k, v)" by (cases kv)
  have "k = x \<Longrightarrow> map_of kvs x = None" using Cons.prems kv by (auto simp: map_of_eq_None_iff)
  then show ?case using Cons by (auto simp: kv Setenv_def split: option.splits)
qed simp

text \<open>
  C39: Loading secrets.  When the loader succeeds with the secret manager enabled, the secrets of the configured path are in the
  environment: a variable with a name and a value the system accepts has the value of its secret, in whatever order the map is
  iterated, and every other variable is unchanged.  When it fails the environment is unchanged.
\<close>

theorem LoadFromAWSSecretsManager_env:
  assumes "LoadFromAWSSecretsManager aws Sprintf_v e = (r, e')"
    and "ToUpper (e ''ENABLE_AWS_SECRET_MANAGER'') = ''TRUE''"
    and "\<And>str kvs path kvs'. Unmarshal aws str = Inr kvs \<Longrightarrow> selected_secrets path kvs = Inr kvs' \<Longrightarrow> distinct (map fst kvs')"
  shows "(case r of
     Some err \<Rightarrow> e' = e
   | None \<Rightarrow> \<exists>region str secrets kvs.
        GetSecretValue aws region (e ''AWS_SECRET_ARN'') = Inr (Some str) \<and> Unmarshal aws str = Inr secrets \<and>
        selected_secrets (e ''AWS_SECRET_PATH'') secrets = Inr kvs \<and>
        e' x = (case map_of kvs x of
            Some v \<Rightarrow> (if x = [] \<or> CHR ''='' \<in> set x \<or> CHR 0x00 \<in> set x \<or> CHR 0x00 \<in> set (envValue Sprintf_v v) then e x else envValue Sprintf_v v)
          | None \<Rightarrow> e x))"
proof (cases r)
  case (Some err)
  then show ?thesis using assms(1,2)
    by (auto simp: LoadFromAWSSecretsManager_def Let_def split: if_splits sum.splits)
next
  case None
  then obtain region str secrets kvs where *:
      "GetSecretValue aws region (e ''AWS_SECRET_ARN'') = Inr (Some str)" "Unmarshal aws str = Inr secrets"
      "selected_secrets (e ''AWS_SECRET_PATH'') secrets = Inr kvs" "e' = fold (\<lambda>(key, v). Setenv key (envValue Sprintf_v v)) kvs e"
    using assms(1,2)
    by (auto simp: LoadFromAWSSecretsManager_def Let_def res_bind_eq_Inr split: if_splits sum.splits option.splits)
  then show ?thesis using None Setenv_fold [OF assms(3) [OF *(2,3)], of "envValue Sprintf_v" e x] by auto
qed

theorem LoadFromAWSSecretsManager_env_witness:
  "let aws = \<lparr>LoadDefaultConfig = (\<lambda>_. Inr ''eu''), GetSecretValue = (\<lambda>_ _. Inr (Some ''doc'')), Unmarshal = (\<lambda>_. Inr [(''KEY'', JStr ''v'')])\<rparr>;
       e = (\<lambda>x. if x = ''ENABLE_AWS_SECRET_MANAGER'' then ''true'' else if x = ''AWS_SECRET_ARN'' then ''arn'' else [])
   in snd (LoadFromAWSSecretsManager aws (\<lambda>_. []) e) ''KEY'' = ''v''"
proof -
  define aws where "aws = \<lparr>LoadDefaultConfig = (\<lambda>_. Inr ''eu''), GetSecretValue = (\<lambda>_ _. Inr (Some ''doc'')), Unmarshal = (\<lambda>_. Inr [(''KEY'', JStr ''v'')])\<rparr>"
  define e where "e x = (if x = ''ENABLE_AWS_SECRET_MANAGER'' then ''true'' else if x = ''AWS_SECRET_ARN'' then ''arn'' else [])" for x
  have "ToUpper ''true'' = ''TRUE''" by code_simp
  then have t: "ToUpper (e ''ENABLE_AWS_SECRET_MANAGER'') = ''TRUE''" by (simp add: e_def)
  obtain e' where r: "LoadFromAWSSecretsManager aws (\<lambda>_. []) e = (None, e')"
    using t by (simp add: LoadFromAWSSecretsManager_def aws_def e_def selected_secrets_def)
  have p: "e ''AWS_SECRET_PATH'' = []" by (simp add: e_def)
  have d: "\<And>str kvs path kvs'. Unmarshal aws str = Inr kvs \<Longrightarrow> selected_secrets path kvs = Inr kvs' \<Longrightarrow> distinct (map fst kvs')"
    by (auto simp: aws_def selected_secrets_def split: if_splits)
  have "e' ''KEY'' = ''v''"
    using LoadFromAWSSecretsManager_env [OF r t d, where x = "''KEY''"] p
    by (auto simp: aws_def selected_secrets_def envValue_def)
  then show ?thesis using r unfolding Let_def aws_def e_def [abs_def] by simp
qed

text \<open>
  The fields of a Temporal log line.  Every pair of arguments is one field, the value given for the key; the last key of an
  odd number of arguments gets the placeholder, so no argument is dropped.
\<close>

theorem keyValsToFields_pairs:
  "length (keyValsToFields shw kvs) = (length kvs + 1) div 2 \<and>
   (i < length (keyValsToFields shw kvs) \<longrightarrow>
     keyValsToFields shw kvs ! i =
       (case kvs ! (2 * i) of AStr s \<Rightarrow> s | AOther v \<Rightarrow> shw v,
        if 2 * i + 1 < length kvs then kvs ! (2 * i + 1) else AStr ''MISSING_VALUE''))"
proof (induction shw kvs arbitrary: i rule: keyValsToFields.induct)
  case (3 shw k v kvs)
  then show ?case by (cases i) auto
qed auto

theorem keyValsToFields_pairs_witness:
  "keyValsToFields (\<lambda>_. ''?'') [AStr ''a'', AOther (), AOther ()] ! 1 = (''?'', AStr ''MISSING_VALUE'')"
  using keyValsToFields_pairs [of "\<lambda>_. ''?''" "[AStr ''a'', AOther (), AOther ()]" 1] by simp

end
