(* ===== verification/Command_Line.thy ===== *)
theory Command_Line
  imports Scaffolding
begin

text \<open>
  The command line: \<^verbatim>\<open>minh-kit.go\<close> and the commands of \<^verbatim>\<open>internal/command\<close> around the functions of the theories of the generators.

  The cobra library is an argument: from the commands and the arguments of the process it gives an error, or the command to run with its
  arguments and, for \<^verbatim>\<open>gen\<close>, the client that the flags describe.  A command ends with the message it prints, or ends the process with one
  (\<^verbatim>\<open>log.Fatalf\<close> or a panic); the marks in front of the messages are left out.
\<close>

section \<open>The commands\<close>

datatype tool_end = Printed string | Died string

text \<open>What the commands get from the system.\<close>

record tool_system =
  ts_gen :: gen_system
  ts_ReadDir :: "string \<Rightarrow> files \<Rightarrow> string list res"
  ts_Title :: "string \<Rightarrow> string"
  ts_order :: "string \<Rightarrow> (string \<times> string) list \<Rightarrow> (string \<times> string) list"
  ts_templates :: "(string \<times> string) list"
  ts_cannot_remove :: "string \<Rightarrow> gerror option"

definition getCurrentFolderName :: "string res \<Rightarrow> string" where
  "getCurrentFolderName wd = (case wd of Inl _ \<Rightarrow> ''your-base_service'' | Inr d \<Rightarrow> filepath_Base d)"

definition ModelCmd_run :: "tool_system \<Rightarrow> string \<Rightarrow> files \<Rightarrow> tool_end \<times> files" where
  "ModelCmd_run ts sqlPath fs =
     (case generateModelAndStoreFromSQL (ts_Title ts) (getCurrentFolderName (Getwd (ts_gen ts))) sqlPath fs of
        (Some err, fs') \<Rightarrow> (Died (''Failed to generate model and store: '' @ err_msg err), fs')
      | (None, fs') \<Rightarrow> (Printed ''Model and store generated successfully'', fs'))"

text \<open>The flags of \<^verbatim>\<open>gen\<close> with their defaults.\<close>

definition gen_defaults :: GenClient where
  "gen_defaults = \<lparr>Lang = ''go'', Dir = ''.'', PbDir = ''pb'', WithResponseWrapper = True, WithGw = True, WithSwagger = True,
     PluginDir = ''bin'', ThirdPartyDir = ''proto/third_party''\<rparr>"

definition GenCmd_run :: "tool_system \<Rightarrow> GenClient \<Rightarrow> files \<Rightarrow> tool_end \<times> files" where
  "GenCmd_run ts genClient fs =
     (if \<not> gen_accepts (Lang genClient) then (Died (''Invalid language: '' @ Lang genClient), fs)
      else (case runProtocGen (ts_gen ts) genClient fs of
              (Panics p, fs', _) \<Rightarrow> (Died p, fs')
            | (Returns (Inl err), fs', _) \<Rightarrow> (Died (''Failed to generate proto code: '' @ err_msg err), fs')
            | (Returns (Inr _), fs', _) \<Rightarrow> (Printed ''Protobuf code and Swagger docs generated successfully'', fs')))"

definition CleanCmd_run :: "tool_system \<Rightarrow> files \<Rightarrow> tool_end \<times> files" where
  "CleanCmd_run ts fs =
     (case runClean (ts_cannot_remove ts) fs of
        (Some err, fs') \<Rightarrow> (Died (''Failed to clean generated files: '' @ err_msg err), fs')
      | (None, fs') \<Rightarrow> (Printed ''Generated files cleaned successfully'', fs'))"

definition end_of :: "files outcome \<Rightarrow> files \<Rightarrow> tool_end \<times> files" where
  "end_of r fs = (case r of Panics p \<Rightarrow> (Died p, fs) | Returns (Inl err) \<Rightarrow> (Died (err_msg err), fs) | Returns (Inr fs') \<Rightarrow> (Printed [], fs'))"

definition NewCmd_run :: "tool_system \<Rightarrow> string \<Rightarrow> files \<Rightarrow> tool_end \<times> files" where
  "NewCmd_run ts serviceName fs = end_of (generateNewService (ts_ReadDir ts) (ts_order ts) serviceName (ts_templates ts) fs) fs"

definition ImplementCmd_run :: "tool_system \<Rightarrow> files \<Rightarrow> tool_end \<times> files" where
  "ImplementCmd_run ts fs =
     (case Getwd (ts_gen ts) of
        Inl err \<Rightarrow> (Died (''Failed to get current directory: '' @ err_msg err), fs)
      | Inr cwd \<Rightarrow> end_of (runImplement (ts_ReadDir ts) cwd fs) fs)"

section \<open>The program\<close>

text \<open>The commands in the order they are added, with the number of arguments they ask for.\<close>

datatype command = Implement | Model string | NewService string | Generate GenClient | Clean

definition command_table :: "(string \<times> nat option) list" where
  "command_table = [(''implement'', None), (''model'', Some 1), (''new'', Some 1), (''gen'', None), (''clean'', None)]"

definition run_command :: "tool_system \<Rightarrow> command \<Rightarrow> files \<Rightarrow> tool_end \<times> files" where
  "run_command ts c fs =
     (case c of
        Implement \<Rightarrow> ImplementCmd_run ts fs
      | Model sqlPath \<Rightarrow> ModelCmd_run ts sqlPath fs
      | NewService serviceName \<Rightarrow> NewCmd_run ts serviceName fs
      | Generate genClient \<Rightarrow> GenCmd_run ts genClient fs
      | Clean \<Rightarrow> CleanCmd_run ts fs)"

definition minh_kit_main :: "((string \<times> nat option) list \<Rightarrow> GenClient \<Rightarrow> string list \<Rightarrow> command res) \<Rightarrow> tool_system \<Rightarrow> string list \<Rightarrow> files \<Rightarrow> tool_end \<times> files" where
  "minh_kit_main cobra ts args fs =
     (case cobra command_table gen_defaults args of
        Inl err \<Rightarrow> (Died (''Error: '' @ err_msg err), fs)
      | Inr c \<Rightarrow> run_command ts c fs)"

section \<open>Properties\<close>

text \<open>When \<^verbatim>\<open>clean\<close> prints its message, both directories are gone and nothing else is changed.\<close>

theorem clean_command_spec:
  assumes "CleanCmd_run ts fs = (Printed m, fs')"
  shows "fs' p = (if under ''pb'' p \<or> under ''docs/swagger'' p then None else fs p)"
  using assms by (auto simp: CleanCmd_run_def runClean_def remove_tree_def Let_def split: prod.splits option.splits)

lemma generate_table_keeps: "fs p \<noteq> None \<Longrightarrow> generate_table Title modl t fs p = fs p"
  by (auto simp: generate_table_def write_new_def)

lemma generate_tables_keep: "fs p \<noteq> None \<Longrightarrow> fold (generate_table Title modl) ts fs p = fs p"
proof (induction ts arbitrary: fs)
  case (Cons t ts)
  then show ?case using generate_table_keeps [of fs p Title modl t] by simp
qed simp

lemma generate_table_exists:
  "generate_table Title modl t fs (model_path (t_Name t)) \<noteq> None \<and> generate_table Title modl t fs (store_path (t_Name t)) \<noteq> None"
  by (auto simp: generate_table_def write_new_def)

lemma generate_tables_exist:
  "t \<in> set ts \<Longrightarrow> fold (generate_table Title modl) ts fs (model_path (t_Name t)) \<noteq> None \<and>
     fold (generate_table Title modl) ts fs (store_path (t_Name t)) \<noteq> None"
proof (induction ts arbitrary: fs)
  case (Cons u ts)
  show ?case
  proof (cases "t = u")
    case True
    then show ?thesis using generate_table_exists [of Title modl u fs] generate_tables_keep [of "generate_table Title modl u fs"] by simp
  next
    case False
    then show ?thesis using Cons.prems Cons.IH [of "generate_table Title modl u fs"] by simp
  qed
qed simp

lemma generate_tables_stable:
  "(\<forall>t \<in> set ts. fs (model_path (t_Name t)) \<noteq> None \<and> fs (store_path (t_Name t)) \<noteq> None) \<Longrightarrow> fold (generate_table Title modl) ts fs = fs"
  by (induction ts) (auto simp: generate_table_def write_new_def)

text \<open>
  C29: \<^verbatim>\<open>model\<close> is idempotent.  A second run on the files that a successful run left, with the schema still in place, succeeds and changes
  nothing; files that were there before, other than the store's \<^verbatim>\<open>main.go\<close>, are never changed.
\<close>

theorem model_command_idempotent:
  assumes "ModelCmd_run ts sqlPath fs = (Printed m, fs')" and "fs' sqlPath = fs sqlPath"
  shows "ModelCmd_run ts sqlPath fs' = (Printed m, fs') \<and> (fs p \<noteq> None \<and> p \<noteq> main_path \<longrightarrow> fs' p = fs p)"
proof -
  let ?T = "ts_Title ts" and ?m = "getCurrentFolderName (Getwd (ts_gen ts))"
  obtain data where d: "fs sqlPath = Some data"
    and f: "fs' = (fold (generate_table ?T ?m) (parseSQLToModels ?T data) fs)(main_path \<mapsto> generateMainCode ?T (parseSQLToModels ?T data))"
    and m: "m = ''Model and store generated successfully''"
    using assms(1) by (auto simp: ModelCmd_run_def generateModelAndStoreFromSQL_def Let_def split: prod.splits option.splits)
  let ?g = "fold (generate_table ?T ?m) (parseSQLToModels ?T data)"
  have "fs' q \<noteq> None" if "?g fs q \<noteq> None" for q using that f by simp
  then have "\<forall>t \<in> set (parseSQLToModels ?T data). fs' (model_path (t_Name t)) \<noteq> None \<and> fs' (store_path (t_Name t)) \<noteq> None"
    using generate_tables_exist by blast
  then have "?g fs' = fs'" by (rule generate_tables_stable)
  moreover have "fs'(main_path \<mapsto> generateMainCode ?T (parseSQLToModels ?T data)) = fs'" using f by (simp add: fun_upd_idem)
  ultimately have "ModelCmd_run ts sqlPath fs' = (Printed m, fs')"
    using assms(2) d m by (simp add: ModelCmd_run_def generateModelAndStoreFromSQL_def Let_def)
  moreover have "fs p \<noteq> None \<Longrightarrow> p \<noteq> main_path \<Longrightarrow> fs' p = fs p" using f generate_tables_keep [of fs p ?T ?m] by simp
  ultimately show ?thesis by blast
qed

text \<open>\<^verbatim>\<open>gen\<close> reports success exactly when the language is accepted and the generation returned without an error.\<close>

theorem gen_command_spec:
  "(\<exists>m. fst (GenCmd_run ts c fs) = Printed m) \<longleftrightarrow> gen_accepts (Lang c) \<and> (\<exists>u. fst (runProtocGen (ts_gen ts) c fs) = Returns (Inr u))"
  by (auto simp: GenCmd_run_def split: prod.splits outcome.splits sum.splits)

definition example_system :: tool_system where
  "example_system = \<lparr>ts_gen = \<lparr>IsNotExist = (\<lambda>_. False), MkdirAll = (\<lambda>_. None), Getwd = Inr ''/src/shop'', Glob = (\<lambda>_. Inr []), WalkDir = (\<lambda>_ _. Inr []),
       protoc = (\<lambda>_ fs. (None, fs)), Unmarshal = (\<lambda>_. Inr []), MarshalIndent = (\<lambda>_. [])\<rparr>,
     ts_ReadDir = (\<lambda>_ _. Inr []), ts_Title = id, ts_order = (\<lambda>_ ps. ps), ts_templates = [], ts_cannot_remove = (\<lambda>_. None)\<rparr>"

theorem model_command_idempotent_witness:
  "\<exists>fs'. ModelCmd_run example_system ''s.sql'' [''s.sql'' \<mapsto> []] = (Printed ''Model and store generated successfully'', fs') \<and>
     ModelCmd_run example_system ''s.sql'' fs' = (Printed ''Model and store generated successfully'', fs')"
proof -
  have p: "parseSQLToModels (ts_Title example_system) [] = []" by code_simp
  let ?fs = "[''s.sql'' \<mapsto> []]"
  obtain fs' where r: "ModelCmd_run example_system ''s.sql'' ?fs = (Printed ''Model and store generated successfully'', fs')"
    and f: "fs' ''s.sql'' = ?fs ''s.sql''"
    by (simp add: ModelCmd_run_def generateModelAndStoreFromSQL_def p main_path_def)
  show ?thesis using r model_command_idempotent [OF r f] by blast
qed

end
