(* ===== verification/Spec2Isabelle.thy ===== *)
theory Spec2Isabelle
  imports Base_Service Pool_Shutdown Secure_String Spans Kafka Database Redis_Store Server Integrations Command_Line
begin

text \<open>
  A model of Minh Kit, a library and code generator for Go services, with the properties that make its parts correct.  This theory imports all
  others and holds the properties that span several of them.

  \<^bold>\<open>The program.\<close>  A service built with the kit registers components with a lifecycle (\<^verbatim>\<open>lifecycle\<close>), which starts them in order, waits for a
  signal and stops them concurrently.  Components are the tracing provider (\<^verbatim>\<open>tracing\<close>), the metrics server (\<^verbatim>\<open>metrics\<close>), the database
  and Redis clients (\<^verbatim>\<open>db\<close>, \<^verbatim>\<open>redis\<close>), Kafka clients, consumers and producers (\<^verbatim>\<open>kafka\<close>), worker pools (\<^verbatim>\<open>worker\<close>), the
  cron scheduler (\<^verbatim>\<open>cron\<close>) and the Temporal client (\<^verbatim>\<open>workflow/temporal\<close>).  Requests come in through the gRPC server and the HTTP gateway
  (\<^verbatim>\<open>server\<close>, \<^verbatim>\<open>response_wrapper\<close>): interceptors and middlewares extract the request attributes into the context
  (\<^verbatim>\<open>attributes\<close>), from where the rate limiter (\<^verbatim>\<open>ratelimit\<close>) and the logger (\<^verbatim>\<open>logger\<close>) read them.  Handlers use transactions
  carried in the context (\<^verbatim>\<open>transaction\<close>), envelope encryption (\<^verbatim>\<open>kms\<close>) and encrypted columns (\<^verbatim>\<open>gorm/driver/securestring\<close>).
  A separate command (\<^verbatim>\<open>minh-kit.go\<close>, \<^verbatim>\<open>internal/command\<close>) generates services, models and API code.

  \<^bold>\<open>The theories.\<close>

    \<^item> \<open>Kit_Prelude\<close>: errors as values, calls that may panic, sequences of fallible operations on a state, 64-bit integers, and the string functions of the
      standard library with their laws.  \<open>Go_Time\<close>: rounding to \<^verbatim>\<open>float64\<close>, durations, the clock.
    \<^item> \<open>Token_Bucket\<close>, \<open>Rate_Limit\<close>: \<^verbatim>\<open>ratelimit\<close>.  What \<^verbatim>\<open>Take\<close> returns and leaves, and bounds on the accepted requests of a bucket and of a
      key of a level, with the rounding errors and the conditions under which nothing overflows; which rule and which level decide; which
      requests share a key; the interceptor and the middleware.
    \<^item> \<open>Attributes\<close>: \<^verbatim>\<open>attributes\<close>, and the parts of a Go context and of a request that the kit uses.
    \<^item> \<open>Lifecycle\<close>: \<^verbatim>\<open>lifecycle\<close>.  The shutdown is a step relation over the goroutines and the wait group; every run stops every component exactly
      once and is of bounded length, in any order.  Groups behave as their components registered flat.
    \<^item> \<open>Worker\<close>: \<^verbatim>\<open>worker\<close>, and the run-time (cancellable contexts, goroutines, wait groups) that the Kafka components share; the contract of a
      group of tasks is the locale \<open>task_group\<close>.
    \<^item> \<open>Pool_Shutdown\<close>: the shutdown of components whose \<^verbatim>\<open>Stop\<close> blocks, as a second step relation: it waits for worker pools without
      limit and for Kafka components until its context is done.
    \<^item> \<open>Kms\<close>, \<open>Secure_String\<close>: round trips of encryption, also through re-encryption, and of encrypted columns.
    \<^item> \<open>Transaction\<close>: the cancel function commits exactly when it returns \<^verbatim>\<open>nil\<close>.  \<open>Spans\<close>: the spans of the KMS and of transactions change
      nothing else and are well nested (the locale \<open>spanned\<close>).
    \<^item> \<open>Telemetry\<close>: \<^verbatim>\<open>tracing\<close>, \<^verbatim>\<open>logger\<close> and the two clients of \<^verbatim>\<open>client\<close>.  \<open>Metrics\<close>: \<^verbatim>\<open>metrics\<close>, the registry of
      \<^verbatim>\<open>kafka/metrics.go\<close> and the instrumented transport; the locale \<open>registry\<close> is the contract of a table that keeps
      what was registered; \<^verbatim>\<open>GetOrRegister\<close> is type sound when the callers agree on the kinds.
    \<^item> \<open>Kafka\<close>: the client, SCRAM, producers, consumers and their components.
    \<^item> \<open>Database\<close>, \<open>Redis_Store\<close>: construction of the clients, token rotation, the query log, the session guard, commands with deadlines.
    \<^item> \<open>Server\<close>: construction, interceptors, start and the concurrent end of the servers, the JSON envelope.
    \<^item> \<open>Request_Path\<close>: calls and requests through the servers with the interceptors and middlewares of the kit configured; which order
      of the middlewares limits.  \<open>Base_Service\<close>: the health service with the client, gateway and validation code generated for it, and a health
      request end to end.
    \<^item> \<open>Integrations\<close>: cron, secrets, Temporal.
    \<^item> \<open>Sql_Models\<close>, \<open>Proto_Services\<close>, \<open>Scaffolding\<close>, \<open>Command_Line\<close>: the generators.  The parsers of SQL schemas and of proto files find exactly
      what a well-formed input declares; generated interfaces are read back; API documents are wrapped; what the commands do to the files.

  \<^bold>\<open>How the code is modelled.\<close>  Structs are records and Go errors values of \<^typ>\<open>gerror\<close>; a function that can return an error or panic has the result type
  \<^typ>\<open>'a res\<close> or \<^typ>\<open>'a outcome\<close>, and \<^verbatim>\<open>log.Fatal\<close> is a panic that nothing recovers.  State is passed explicitly.  Code guarded by a mutex is one
  step, and where the code releases and takes a lock again there are two.  What arrives on channels and which branch a \<^verbatim>\<open>select\<close> takes is a list of
  events.  Third-party libraries, the operating system and services are arguments, often records of functions; what the code relies on is a
  named predicate (\<open>gcm_law\<close>, \<open>aws_law\<close>, \<open>db_law\<close>, \<open>grpc_laws\<close>, \<open>gateway_laws\<close>, \<open>registerer_typed\<close>), and each property with such a hypothesis has an example that satisfies it.  The
  \<open>n\<close>-th answer of something that is asked repeatedly is a function of \<open>n\<close>.  Maps that are iterated are association lists in an arbitrary order.

  \<^bold>\<open>Bounds and loops.\<close>  No definition uses fuel: loops are recursions that end by their structure or by a measure, and loops that may run forever (a
  consumer, a watcher, the rotation of tokens) are recursions over the events or rounds they see, with \<^const>\<open>None\<close> for a loop that still runs, or one
  round of the loop.  Step relations are shown to make progress and to have runs of bounded length.

  \<^bold>\<open>Simplifications.\<close>  Strings are sequences of bytes, and the change of case is that of ASCII.  Values in log lines and messages are text; how the
  logging library prints a number or a duration is not modelled, nor are stack traces, the standard output of the generators and the sleep
  between attempts.  Floats have no infinities, no NaN and no subnormal numbers, which the values of the kit do not reach.

  \<^bold>\<open>Not modelled.\<close>  The reflection and the descriptor of the messages of the base service (\<^verbatim>\<open>base.pb.go\<close>), which are calls to the protobuf runtime, the mock of the logger, the
  methods of adapters and interfaces that do nothing, and the contents of the embedded templates, which are data of the generator.  A user of the kit composes the parts; the properties of a whole service are about the typical
  composition, with the components and interceptors they name.
\<close>

section \<open>A service and its shutdown\<close>

text \<open>
  A service that registers the tracing provider, the metrics and the Kafka client: each component works on its own part of the state.
  \<open>on_part\<close> makes a component of the whole of a component of a part.
\<close>

definition on_part :: "('w \<Rightarrow> 'p) \<Rightarrow> ('p \<Rightarrow> 'w \<Rightarrow> 'w) \<Rightarrow> 'p component \<Rightarrow> 'w component" where
  "on_part get put c = \<lparr>Name = Name c,
     Start = (\<lambda>ctx w. case Start c ctx (get w) of (e, p) \<Rightarrow> (e, put p w)),
     Stop = (\<lambda>ctx w. case Stop c ctx (get w) of (e, p) \<Rightarrow> (e, put p w))\<rparr>"

text \<open>A component that leaves a part of the state alone, and the law of a part.\<close>

definition leaves :: "('w \<Rightarrow> 'p) \<Rightarrow> 'w component \<Rightarrow> bool" where
  "leaves get c \<longleftrightarrow> (\<forall>ctx w. get (snd (Start c ctx w)) = get w \<and> get (snd (Stop c ctx w)) = get w)"

locale state_part =
  fixes get :: "'w \<Rightarrow> 'p" and put :: "'p \<Rightarrow> 'w \<Rightarrow> 'w"
  assumes get_put: "get (put p w) = p"
begin

lemma stop_part [simp]: "get (snd (Stop (on_part get put c) ctx w)) = snd (Stop c ctx (get w))"
  by (simp add: on_part_def get_put split: prod.split)

lemma start_part [simp]: "get (snd (Start (on_part get put c) ctx w)) = snd (Start c ctx (get w))"
  by (simp add: on_part_def get_put split: prod.split)

lemma stop_all_leaves: "\<forall>c \<in> set cs. leaves get c \<Longrightarrow> get (stop_all ctx cs w) = get w"
  by (induction cs arbitrary: w) (auto simp: leaves_def)

lemma start_all_leaves: "\<forall>c \<in> set cs. leaves get c \<Longrightarrow> get (start_all ctx cs w) = get w"
  by (induction cs arbitrary: w) (auto simp: leaves_def)

lemma start_all_part:
  assumes "i < length cs" "cs ! i = on_part get put c" "\<forall>j < length cs. j \<noteq> i \<longrightarrow> leaves get (cs ! j)"
  shows "get (start_all ctx (take i cs) w) = get w" "get (start_all ctx cs w) = snd (Start c ctx (get w))"
proof -
  have "leaves get x" if "x \<in> set (take i cs)" for x
    using that assms(1,3) by (auto simp: in_set_conv_nth)
  then show t: "get (start_all ctx (take i cs) w) = get w" by (intro start_all_leaves) blast
  have d: "leaves get x" if "x \<in> set (drop (Suc i) cs)" for x
    using that assms(3) by (auto simp: in_set_conv_nth)
  have "start_all ctx cs w = start_all ctx (drop (Suc i) cs) (snd (Start (cs ! i) ctx (start_all ctx (take i cs) w)))"
    by (subst id_take_nth_drop [OF assms(1)]) (simp only: start_all_simps)
  then show "get (start_all ctx cs w) = snd (Start c ctx (get w))"
    using start_all_leaves [of "drop (Suc i) cs"] d t assms(2) by simp
qed

text \<open>
  When all other components leave the part alone, \<^verbatim>\<open>Run\<close> has started it once and then, in any order of the shutdown, stopped it exactly once.
\<close>

lemma run_part:
  assumes "Run \<lparr>components = cs, stopTimeout = d\<rparr> ctx w now None w' l" "i < length cs" "cs ! i = on_part get put c"
    and "\<forall>j < length cs. j \<noteq> i \<longrightarrow> leaves get (cs ! j)"
  shows "fst (Start c ctx (get w)) = None \<and>
    get w' = snd (Stop c (WithTimeout (WithoutCancel ctx) now d) (snd (Start c ctx (get w))))"
proof -
  let ?sctx = "WithTimeout (WithoutCancel ctx) now d"
  obtain w1 l1 s where st: "start_components cs ctx w [] = (None, w1, l1)"
      and run: "shutdown_steps cs ?sctx (shutdown_init cs w1 l1) s" "returned s" and w': "w' = world s"
    using assms(1) by (cases rule: Run.cases) auto
  have ok: "starts_ok ctx cs w" "w1 = start_all ctx cs w"
    using st start_components_ok [of ctx cs w "[]"] start_components_err [of ctx _ w _ _ _ "[]"] by (cases rule: starts_cases [of ctx cs w]; auto)+
  have q: "distinct (stops s)" "set (stops s) = {..<length cs}" "world s = stop_all ?sctx (map ((!) cs) (stops s)) w1"
    using shutdown_run [OF run] by auto
  have "i \<in> set (stops s)" using q(2) assms(2) by simp
  then obtain us vs where split: "stops s = us @ i # vs" by (meson split_list)
  then have "\<forall>j \<in> set us \<union> set vs. j < length cs \<and> j \<noteq> i" using q(1,2) by auto
  then have "\<forall>x \<in> set (map ((!) cs) us) \<union> set (map ((!) cs) vs). leaves get x" using assms(4) by auto
  then have "get w' = snd (Stop c ?sctx (get w1))" using q(3) split assms(3) w' by (simp add: stop_all_leaves)
  moreover have "fst (Start (cs ! i) ctx (start_all ctx (take i cs) w)) = None" using ok(1) assms(2) by (simp add: starts_ok_def)
  then have "fst (Start c ctx (get w)) = None"
    using start_all_part(1) [OF assms(2-4)] assms(3) by (simp add: on_part_def split: prod.splits)
  ultimately show ?thesis using start_all_part(2) [OF assms(2-4)] ok(2) by simp
qed

text \<open>A component that works on another part leaves this one alone.\<close>

lemma leaves_other: "(\<And>p w. get (put' p w) = get w) \<Longrightarrow> leaves get (on_part get' put' c')"
  by (simp add: leaves_def on_part_def split: prod.split)

end

text \<open>
  The service: the tracing provider, the metrics, the Kafka client, the database and Redis clients and the cron scheduler, each with its part
  of the state.  The arguments are the libraries and the handles of the two clients.
\<close>

record ('g, 'r, 's) service =
  sv_tracing :: "Provider \<times> otel_state"
  sv_metrics :: Metrics
  sv_kafka :: KafkaClient
  sv_db :: 'g
  sv_redis :: 'r
  sv_cron :: 's

definition service_components ::
  "(string \<Rightarrow> gerror option) \<Rightarrow> (nat \<Rightarrow> gerror option) \<Rightarrow> (go_ctx \<Rightarrow> string \<Rightarrow> gerror option) \<Rightarrow> (nat \<Rightarrow> gerror option)
    \<Rightarrow> ('d, 'q, 'g) gorm \<Rightarrow> 'd option \<Rightarrow> ('c, 'r) redis_lib \<Rightarrow> 'c option \<Rightarrow> ('o, 's) gocron \<Rightarrow> ('g, 'r, 's) service component list" where
  "service_components new_exporter tp_shutdown srv_shutdown close gl db rl rdb sched =
     [on_part sv_tracing (\<lambda>x w. w\<lparr>sv_tracing := x\<rparr>) (provider_component new_exporter tp_shutdown),
      on_part sv_metrics (\<lambda>x w. w\<lparr>sv_metrics := x\<rparr>) (metrics_component srv_shutdown),
      on_part sv_kafka (\<lambda>x w. w\<lparr>sv_kafka := x\<rparr>) (Kafka_component close),
      on_part sv_db (\<lambda>x w. w\<lparr>sv_db := x\<rparr>) (db_component gl db),
      on_part sv_redis (\<lambda>x w. w\<lparr>sv_redis := x\<rparr>) (redis_component rl rdb),
      on_part sv_cron (\<lambda>x w. w\<lparr>sv_cron := x\<rparr>) (cron_component sched)]"

interpretation tracing: state_part sv_tracing "\<lambda>x w. w\<lparr>sv_tracing := x\<rparr>"
  by unfold_locales simp

interpretation met: state_part sv_metrics "\<lambda>x w. w\<lparr>sv_metrics := x\<rparr>"
  by unfold_locales simp

interpretation kfk: state_part sv_kafka "\<lambda>x w. w\<lparr>sv_kafka := x\<rparr>"
  by unfold_locales simp

interpretation dbs: state_part sv_db "\<lambda>x w. w\<lparr>sv_db := x\<rparr>"
  by unfold_locales simp

interpretation rds: state_part sv_redis "\<lambda>x w. w\<lparr>sv_redis := x\<rparr>"
  by unfold_locales simp

interpretation crn: state_part sv_cron "\<lambda>x w. w\<lparr>sv_cron := x\<rparr>"
  by unfold_locales simp

lemmas service_leaves = tracing.leaves_other met.leaves_other kfk.leaves_other dbs.leaves_other rds.leaves_other crn.leaves_other

text \<open>Each component of the service has been started and then stopped, once, on its own part.\<close>

lemma service_parts:
  assumes "Run \<lparr>components = service_components new_exporter tp_shutdown srv_shutdown close gl db rl rdb sched, stopTimeout = d\<rparr> ctx w now None w' l"
  defines "sctx \<equiv> WithTimeout (WithoutCancel ctx) now d"
  shows "fst (Start (provider_component new_exporter tp_shutdown) ctx (sv_tracing w)) = None \<and>
      sv_tracing w' = snd (Stop (provider_component new_exporter tp_shutdown) sctx
        (snd (Start (provider_component new_exporter tp_shutdown) ctx (sv_tracing w))))"
    and "sv_metrics w' = snd (Stop (metrics_component srv_shutdown) sctx (snd (Start (metrics_component srv_shutdown) ctx (sv_metrics w))))"
    and "sv_kafka w' = Kafka_Close close (sv_kafka w)"
    and "sv_db w' = snd (Client_Stop gl db (sv_db w))"
    and "sv_redis w' = (case rdb of None \<Rightarrow> sv_redis w | Some c \<Rightarrow> snd (redis_Close rl c (sv_redis w)))"
    and "sv_cron w' = snd (Sched_Shutdown sched (Sched_Start sched (sv_cron w)))"
proof -
  let ?cs = "service_components new_exporter tp_shutdown srv_shutdown close gl db rl rdb sched"
  have len: "length ?cs = 6" by (simp add: service_components_def)
  have j: "j < 6 \<longleftrightarrow> j = 0 \<or> j = Suc 0 \<or> j = 2 \<or> j = 3 \<or> j = 4 \<or> j = 5" for j :: nat by auto
  have cs: "?cs ! 0 = on_part sv_tracing (\<lambda>x w. w\<lparr>sv_tracing := x\<rparr>) (provider_component new_exporter tp_shutdown)"
    "?cs ! Suc 0 = on_part sv_metrics (\<lambda>x w. w\<lparr>sv_metrics := x\<rparr>) (metrics_component srv_shutdown)"
    "?cs ! 2 = on_part sv_kafka (\<lambda>x w. w\<lparr>sv_kafka := x\<rparr>) (Kafka_component close)"
    "?cs ! 3 = on_part sv_db (\<lambda>x w. w\<lparr>sv_db := x\<rparr>) (db_component gl db)"
    "?cs ! 4 = on_part sv_redis (\<lambda>x w. w\<lparr>sv_redis := x\<rparr>) (redis_component rl rdb)"
    "?cs ! 5 = on_part sv_cron (\<lambda>x w. w\<lparr>sv_cron := x\<rparr>) (cron_component sched)"
    by (simp_all add: service_components_def)
  note part = len j cs service_leaves
  show "fst (Start (provider_component new_exporter tp_shutdown) ctx (sv_tracing w)) = None \<and>
      sv_tracing w' = snd (Stop (provider_component new_exporter tp_shutdown) sctx
        (snd (Start (provider_component new_exporter tp_shutdown) ctx (sv_tracing w))))"
    unfolding sctx_def by (rule tracing.run_part [OF assms(1) _ cs(1)]) (auto simp: part)
  show "sv_metrics w' = snd (Stop (metrics_component srv_shutdown) sctx (snd (Start (metrics_component srv_shutdown) ctx (sv_metrics w))))"
    unfolding sctx_def by (rule conjunct2, rule met.run_part [OF assms(1) _ cs(2)]) (auto simp: part)
  have "sv_kafka w' = snd (Stop (Kafka_component close) sctx (snd (Start (Kafka_component close) ctx (sv_kafka w))))"
    unfolding sctx_def by (rule conjunct2, rule kfk.run_part [OF assms(1) _ cs(3)]) (auto simp: part)
  then show "sv_kafka w' = Kafka_Close close (sv_kafka w)" by (simp add: Kafka_component_def)
  have "sv_db w' = snd (Stop (db_component gl db) sctx (snd (Start (db_component gl db) ctx (sv_db w))))"
    unfolding sctx_def by (rule conjunct2, rule dbs.run_part [OF assms(1) _ cs(4)]) (auto simp: part)
  then show "sv_db w' = snd (Client_Stop gl db (sv_db w))" by (simp add: db_component_def)
  have "sv_redis w' = snd (Stop (redis_component rl rdb) sctx (snd (Start (redis_component rl rdb) ctx (sv_redis w))))"
    unfolding sctx_def by (rule conjunct2, rule rds.run_part [OF assms(1) _ cs(5)]) (auto simp: part)
  then show "sv_redis w' = (case rdb of None \<Rightarrow> sv_redis w | Some c \<Rightarrow> snd (redis_Close rl c (sv_redis w)))"
    by (simp add: redis_component_def split: option.splits)
  have "sv_cron w' = snd (Stop (cron_component sched) sctx (snd (Start (cron_component sched) ctx (sv_cron w))))"
    unfolding sctx_def by (rule conjunct2, rule crn.run_part [OF assms(1) _ cs(6)]) (auto simp: part)
  then show "sv_cron w' = snd (Sched_Shutdown sched (Sched_Start sched (sv_cron w)))" by (simp add: cron_component_def Cron_Shutdown_def)
qed

text \<open>
  C10: a service is shut down completely, whatever the order in which the goroutines of the shutdown get to run.  When
  \<^verbatim>\<open>Run\<close> returns \<^verbatim>\<open>nil\<close>, the service is reported down and its metrics server is gone, every producer and consumer of the Kafka client has been
  closed, the tracer provider that the start installed has been shut down, the database and Redis clients have been closed once, and the
  scheduler has been started once and then shut down.
\<close>

theorem service_shutdown:
  assumes "Run \<lparr>components = service_components new_exporter tp_shutdown srv_shutdown close gl db rl rdb sched, stopTimeout = d\<rparr> ctx w now None w' l"
    and "fst (sv_tracing w) = NewProvider (Some tc)" and "EnableTracing tc"
  shows "serviceUp (sv_metrics w') = 0 \<and> server (sv_metrics w') = None \<and>
    set (closed (sv_kafka w')) = set (closed (sv_kafka w)) \<union> handles (sv_kafka w) \<and>
    shut (snd (sv_tracing w')) = shut (snd (sv_tracing w)) @ [created (snd (sv_tracing w))] \<and>
    sv_db w' = snd (Client_Stop gl db (sv_db w)) \<and>
    sv_redis w' = (case rdb of None \<Rightarrow> sv_redis w | Some c \<Rightarrow> snd (redis_Close rl c (sv_redis w))) \<and>
    sv_cron w' = snd (Sched_Shutdown sched (Sched_Start sched (sv_cron w)))"
proof -
  note parts = service_parts [OF assms(1)]
  obtain p o1 where t: "sv_tracing w = (p, o1)" "p = NewProvider (Some tc)" using assms(2) by (cases "sv_tracing w") auto
  obtain q where q: "Start (provider_component new_exporter tp_shutdown) ctx (sv_tracing w) = (None, q)"
    "sv_tracing w' = snd (Stop (provider_component new_exporter tp_shutdown) (WithTimeout (WithoutCancel ctx) now d) q)"
    using parts(1) by (cases "Start (provider_component new_exporter tp_shutdown) ctx (sv_tracing w)") auto
  have "shut (snd (sv_tracing w')) = shut o1 @ [created o1]"
    using q t assms(3)
    by (auto simp: provider_component_def Provider_Start_def Provider_Stop_def SetupOTelSDK_def newTracerProvider_def NewProvider_def
        SetGlobalTracingConfig_def Let_def split: option.splits sum.splits prod.splits)
  moreover have "serviceUp (sv_metrics w') = 0" "server (sv_metrics w') = None"
    unfolding parts(2) by (auto simp: metrics_component_def Metrics_Stop_def SetServiceUp_def Let_def split: option.splits)
  moreover have "set (closed (sv_kafka w')) = set (closed (sv_kafka w)) \<union> handles (sv_kafka w)"
    unfolding parts(3) by (auto simp: Kafka_Close_def Let_def close_all_closed handles_def)
  ultimately show ?thesis using t parts(4-6) by simp
qed

text \<open>Libraries that keep what has been closed, and a scheduler that keeps whether it runs.\<close>

definition example_gorm :: "(unit, nat, nat list) gorm" where
  "example_gorm = \<lparr>gorm_Open = (\<lambda>_ _ g. (Inr (), g)), gorm_Use = (\<lambda>_ _ g. (None, g)), gorm_DB = (\<lambda>_ g. (Inr 3, g)),
     SetMaxIdleConns = (\<lambda>_ _ g. g), SetMaxOpenConns = (\<lambda>_ _ g. g), SetConnMaxLifetime = (\<lambda>_ _ g. g), SetConnMaxIdleTime = (\<lambda>_ _ g. g),
     gorm_Raw = (\<lambda>_ _ g. (None, g)), sql_Close = (\<lambda>q g. (None, g @ [q]))\<rparr>"

definition example_redis :: "(nat, nat list) redis_lib" where
  "example_redis = \<lparr>redis_NewClient = (\<lambda>_ r. (7, r)), register_collector = (\<lambda>_ _ _ r. (Returns (Inr ()), r)),
     InstrumentTracing = (\<lambda>_ r. (None, r)), redis_Ping = (\<lambda>_ _ _. ''PONG''), redis_Close = (\<lambda>c r. (None, r @ [c]))\<rparr>"

definition example_sched :: "(unit, bool list) gocron" where
  "example_sched = \<lparr>NewScheduler = (\<lambda>_. Inr []), NewJob = (\<lambda>_ _ s. (None, s)), Sched_Start = (\<lambda>s. s @ [True]),
     Sched_Shutdown = (\<lambda>s. (None, s @ [False]))\<rparr>"

definition example_service :: "(nat list, nat list, bool list) service" where
  "example_service = \<lparr>sv_tracing = (NewProvider (Some (loadTracingConfigFromEnv (\<lambda>_. ''true''))),
       \<lparr>globalTracingConfig = loadTracingConfigFromEnv (\<lambda>_. []), current_provider = NoopProvider, created = 4, shut = [], propagators = []\<rparr>),
     sv_metrics = \<lparr>httpRequestsTotal = (\<lambda>_. 0), httpRequestDuration = (\<lambda>_. []), httpRequestsInFlight = 0, serviceUp = 0,
        customMetrics = Map.empty, config = Some DefaultConfig, server = None\<rparr>,
     sv_kafka = example_kafka, sv_db = [], sv_redis = [], sv_cron = []\<rparr>"

theorem service_shutdown_witness:
  "\<exists>w' l. Run \<lparr>components = service_components (\<lambda>_. None) (\<lambda>_. None) (\<lambda>_ _. None) (\<lambda>_. None) example_gorm (Some ()) example_redis (Some 7) example_sched,
       stopTimeout = 30 * second\<rparr> background example_service 0 None w' l \<and>
     serviceUp (sv_metrics w') = 0 \<and> shut (snd (sv_tracing w')) = [4] \<and> sv_db w' = [3] \<and> sv_redis w' = [7] \<and> sv_cron w' = [True, False]"
proof -
  let ?cs = "service_components (\<lambda>_. None) (\<lambda>_. None) (\<lambda>_ _. None) (\<lambda>_. None) example_gorm (Some ()) example_redis (Some 7) example_sched"
  have tc: "EnableTracing (loadTracingConfigFromEnv (\<lambda>_. ''true''))" by code_simp
  have "starts_ok background ?cs example_service"
    using tc by (simp add: service_components_def on_part_def provider_component_def Provider_Start_def SetupOTelSDK_def newTracerProvider_def NewProvider_def
        example_service_def metrics_component_def Metrics_Start_def Kafka_component_def db_component_def redis_component_def cron_component_def
        DefaultConfig_def Let_def)
  note st = start_components_ok [OF this, of "[]"]
  obtain s where s: "shutdown_steps ?cs (WithTimeout (WithoutCancel background) 0 (30 * second))
      (shutdown_init ?cs (start_all background ?cs example_service) ([] @ map start_line ?cs)) s" "returned s"
    using shutdown_complete [of "[0, 1, 2, 3, 4, 5]" ?cs] by (fastforce simp: service_components_def lessThan_Suc)
  have r: "Run \<lparr>components = ?cs, stopTimeout = 30 * second\<rparr> background example_service 0 None (world s) (log s)"
    using st s by (intro Run.shut_down) auto
  have "fst (sv_tracing example_service) = NewProvider (Some (loadTracingConfigFromEnv (\<lambda>_. ''true'')))" by (simp add: example_service_def)
  from service_shutdown [OF r this tc] show ?thesis using r
    by (auto simp: example_service_def example_gorm_def example_redis_def example_sched_def Client_Stop_def)
qed

end
